(* ===== verification/Prelude.thy ===== *)
theory Prelude
  imports Complex_Main "HOL-Library.Char_ord" "HOL-Library.List_Lexorder" "HOL-Library.Multiset"
begin

text \<open>
  Shared vocabulary of the development: the type synonyms for Go values, the theorem
  collections the components fill, and the generic facts about lists, maps and results
  that several components use.

  A Go string is a sequence of bytes, and so is an Isabelle \<^typ>\<open>char list\<close>, with the
  bytewise lexicographic order of \<open>sort.Strings\<close> supplied by the library's
  \<open>List_Lexorder\<close>. A Go \<open>(T, error)\<close> result is a sum with the error on the left.
\<close>

section \<open>Types\<close>

type_synonym gostring = "char list"

text \<open>A Go \<open>int\<close> count that is only incremented and never compared with a negative.\<close>

type_synonym count = nat

text \<open>A Go map used as a set, in the executable form of a list of its keys.\<close>

type_synonym 'k gomap_keys = "'k list"

section \<open>Theorem collections\<close>

named_theorems str_simps \<open>equations of the string library\<close>
named_theorems time_simps \<open>equations of the clock and duration library\<close>
named_theorems inv_intros \<open>preservation facts of component invariants\<close>
named_theorems frame_simps \<open>what an operation leaves unchanged\<close>

section \<open>Results\<close>

text \<open>Sequencing of fallible calls: an error returns early.\<close>

fun bind_result :: "'e + 'a \<Rightarrow> ('a \<Rightarrow> 'e + 'b) \<Rightarrow> 'e + 'b" where
  "bind_result (Inl e) f = Inl e"
| "bind_result (Inr x) f = f x"

lemma map_sum_Inr_iff: "map_sum f g x = Inr y \<longleftrightarrow> (\<exists>z. x = Inr z \<and> y = g z)"
  by (cases x) auto

lemma bind_result_Inr_iff:
  "bind_result r f = Inr y \<longleftrightarrow> (\<exists>x. r = Inr x \<and> f x = Inr y)"
  by (cases r) auto

lemma bind_result_Inl_iff:
  "bind_result r f = Inl e \<longleftrightarrow> r = Inl e \<or> (\<exists>x. r = Inr x \<and> f x = Inl e)"
  by (cases r) auto

section \<open>Lists\<close>

text \<open>Keys in order of first occurrence: the key set of a Go map filled by a loop.\<close>

fun add_key :: "'a \<Rightarrow> 'a list \<Rightarrow> 'a list" where
  "add_key k ks = (if k \<in> set ks then ks else ks @ [k])"

lemma set_add_key [simp]: "set (add_key k ks) = insert k (set ks)"
  by auto

lemma distinct_add_key [simp]: "distinct (add_key k ks) = distinct ks"
  by auto

declare add_key.simps [simp del]

lemma sort_eq_if_mset_eq: "mset xs = mset ys \<Longrightarrow> sort xs = sort ys"
  by (metis properties_for_sort sorted_sort mset_sort)

lemma sorted_distinct_set_eq:
  assumes "sorted xs" "distinct xs" "sorted ys" "distinct ys" "set xs = set ys"
  shows "xs = ys"
  using assms by (metis sorted_distinct_set_unique)

lemma sort_distinct_eq:
  "distinct xs \<Longrightarrow> distinct ys \<Longrightarrow> set xs = set ys \<Longrightarrow> sort xs = sort ys"
  by (rule sorted_distinct_set_eq) auto

lemma find_Some_mem: "find P xs = Some x \<Longrightarrow> x \<in> set xs \<and> P x"
  by (induction xs) (auto split: if_splits)

lemma find_None_iff_all: "find P xs = None \<longleftrightarrow> (\<forall>x \<in> set xs. \<not> P x)"
  by (induction xs) auto

lemma find_cong_pred: "(\<And>x. x \<in> set xs \<Longrightarrow> P x = Q x) \<Longrightarrow> find P xs = find Q xs"
  by (induction xs) auto

lemma map_of_sort_key_fst:
  "distinct (map fst xs) \<Longrightarrow> map_of (sort_key fst xs) = map_of xs"
  by (subst map_of_inject_set) (auto simp: distinct_map)

lemma distinct_fst_sort_key [simp]:
  "distinct (map fst (sort_key fst xs)) = distinct (map fst xs)"
  by (simp add: distinct_map)

text \<open>A map listed by its keys is determined by its lookups.\<close>

lemma sort_key_fst_eqI:
  fixes xs ys :: "('k :: linorder \<times> 'v) list"
  assumes "distinct (map fst xs)" "distinct (map fst ys)" "map_of xs = map_of ys"
  shows "sort_key fst xs = sort_key fst ys"
proof -
  have "set xs = set ys"
    using assms by (simp add: map_of_inject_set)
  moreover have "distinct xs" "distinct ys"
    using assms by (auto simp: distinct_map)
  ultimately have "mset xs = mset ys"
    by (simp add: set_eq_iff_mset_eq_distinct)
  then have "mset xs = mset (sort_key fst ys)" by simp
  moreover have "inj_on fst (set xs)"
    using assms(1) by (simp add: distinct_map)
  ultimately show ?thesis
    by (intro sort_key_inj_key_eq) auto
qed

lemma map_of_map_values:
  "map_of (map (\<lambda>p. (fst p, f (snd p))) xs) k = map_option f (map_of xs k)"
  by (induction xs) auto

lemma find_SomeE:
  assumes "find P xs = Some x"
  obtains pre post where "xs = pre @ x # post" "P x" "\<forall>y \<in> set pre. \<not> P y"
proof -
  have "\<exists>pre post. xs = pre @ x # post \<and> P x \<and> (\<forall>y \<in> set pre. \<not> P y)"
    using assms
  proof (induction xs)
    case (Cons a xs)
    show ?case
    proof (cases "P a")
      case True
      with Cons.prems show ?thesis by (intro exI[of _ "[]"] exI[of _ xs]) auto
    next
      case False
      with Cons obtain pre post where "xs = pre @ x # post" "P x" "\<forall>y \<in> set pre. \<not> P y" by auto
      with False show ?thesis by (intro exI[of _ "a # pre"] exI[of _ post]) simp
    qed
  qed simp
  with that show thesis by blast
qed

lemma find_sorted_least:
  assumes "find P xs = Some x" "sorted xs" "y \<in> set xs" "P y"
  shows "x \<le> y"
  using assms by (elim find_SomeE) (auto simp: sorted_append)

end
