(* ===== verification/Go_Strings.thy ===== *)
theory Go_Strings
  imports Prelude
begin

text \<open>
  The part of Go's \<open>strings\<close>, \<open>strconv\<close> and \<open>fmt\<close> packages the program uses, on byte
  strings: \<open>Split\<close>, \<open>Join\<close>, \<open>Cut\<close>, \<open>Index\<close>, \<open>LastIndex\<close>, \<open>TrimSpace\<close>,
  \<open>Fields\<close>, \<open>ToLower\<close>, \<open>TrimSuffix\<close> and the verbs \<open>%d\<close> and \<open>%q\<close>.

  White space is the Unicode property, so \<open>TrimSpace\<close> and \<open>Fields\<close> also recognise the UTF-8
  encodings of the non-ASCII spaces. \<open>to_lower\<close> is exact for comparisons with ASCII
  literals: it folds ASCII letters and the two non-ASCII runes whose lower case is ASCII, and
  leaves every other rune, whose lower case is not ASCII, as it is. \<open>%q\<close> escapes as
  \<open>strconv.Quote\<close> does on ASCII; a byte above 127 is kept, as a printable rune is.
\<close>

section \<open>Split and Join\<close>

fun split_on :: "char \<Rightarrow> gostring \<Rightarrow> gostring list" where
  "split_on c [] = [[]]"
| "split_on c (x # xs) =
     (if x = c then [] # split_on c xs
      else (case split_on c xs of [] \<Rightarrow> [[x]] | y # ys \<Rightarrow> (x # y) # ys))"

fun join :: "gostring \<Rightarrow> gostring list \<Rightarrow> gostring" where
  "join sep [] = []"
| "join sep [x] = x"
| "join sep (x # y # ys) = x @ sep @ join sep (y # ys)"

lemma split_on_not_Nil [simp]: "split_on c s \<noteq> []"
  by (induction s) (auto split: list.splits)

lemma split_on_no_sep: "c \<notin> set s \<Longrightarrow> split_on c s = [s]"
  by (induction s) auto

lemma split_on_append: "c \<notin> set x \<Longrightarrow> split_on c (x @ c # s) = x # split_on c s"
  by (induction x) auto

lemma split_on_pieces: "p \<in> set (split_on c s) \<Longrightarrow> c \<notin> set p"
proof (induction s arbitrary: p)
  case (Cons x s)
  then show ?case by (cases "split_on c s") (auto split: if_splits)
qed simp

lemma join_Cons: "xs \<noteq> [] \<Longrightarrow> join sep (x # xs) = x @ sep @ join sep xs"
  by (cases xs) auto

lemma join_split_on: "join [c] (split_on c s) = s"
proof (induction s)
  case (Cons x s)
  then show ?case
    by (cases "split_on c s"; cases "tl (split_on c s)") (auto simp: join_Cons)
qed simp

lemma split_on_join:
  "xs \<noteq> [] \<Longrightarrow> (\<And>x. x \<in> set xs \<Longrightarrow> c \<notin> set x) \<Longrightarrow> split_on c (join [c] xs) = xs"
proof (induction xs)
  case (Cons x xs)
  show ?case
  proof (cases xs)
    case Nil
    with Cons.prems show ?thesis by (simp add: split_on_no_sep)
  next
    case (Cons y ys)
    with Cons.IH Cons.prems show ?thesis by (simp add: join_Cons split_on_append)
  qed
qed simp

section \<open>Cut, Index and LastIndex\<close>

text \<open>\<open>strings.Cut(s, c)\<close>: the parts before and after the first separator, and whether there is one.\<close>

fun cut :: "char \<Rightarrow> gostring \<Rightarrow> gostring \<times> gostring \<times> bool" where
  "cut c [] = ([], [], False)"
| "cut c (x # xs) =
     (if x = c then ([], xs, True)
      else case cut c xs of (before, after, found) \<Rightarrow> (x # before, after, found))"

lemma cut_append [simp]: "c \<notin> set x \<Longrightarrow> cut c (x @ c # s) = (x, s, True)"
  by (induction x) auto

lemma cut_not_found: "c \<notin> set s \<Longrightarrow> cut c s = (s, [], False)"
  by (induction s) auto

lemma cut_found_iff: "snd (snd (cut c s)) \<longleftrightarrow> c \<in> set s"
  by (induction s) (auto split: prod.splits)

lemma cut_TrueD: "cut c s = (a, b, True) \<Longrightarrow> s = a @ c # b \<and> c \<notin> set a"
  by (induction s arbitrary: a) (auto split: prod.splits if_splits)

lemma cut_FalseD: "cut c s = (a, b, False) \<Longrightarrow> a = s \<and> b = [] \<and> c \<notin> set s"
  by (induction s arbitrary: a) (auto split: prod.splits if_splits)

text \<open>What follows the first occurrence of a substring, or \<open>None\<close>: \<open>i := Index(s, sep); s[i+len(sep):]\<close>.\<close>

fun after_sub :: "gostring \<Rightarrow> gostring \<Rightarrow> gostring option" where
  "after_sub sep [] = (if sep = [] then Some [] else None)"
| "after_sub sep (x # xs) =
     (if take (length sep) (x # xs) = sep then Some (drop (length sep) (x # xs)) else after_sub sep xs)"

text \<open>The part before the first byte that satisfies \<open>p\<close>: \<open>IndexAny\<close> and a cut there.\<close>

definition before_first :: "(char \<Rightarrow> bool) \<Rightarrow> gostring \<Rightarrow> gostring" where
  "before_first p s = takeWhile (\<lambda>c. \<not> p c) s"

text \<open>The part before the last occurrence of \<open>c\<close>, the whole string if there is none.\<close>

fun before_last :: "char \<Rightarrow> gostring \<Rightarrow> gostring" where
  "before_last c [] = []"
| "before_last c (x # xs) =
     (if c \<in> set xs then x # before_last c xs else if x = c then [] else x # xs)"

lemma before_last_no_sep: "c \<notin> set s \<Longrightarrow> before_last c s = s"
  by (induction s) auto

lemma before_last_append: "c \<notin> set t \<Longrightarrow> before_last c (s @ c # t) = s"
  by (induction s) auto

lemma before_last_prefix: "\<exists>t. s = before_last c s @ t"
  by (induction s) auto

lemma after_sub_prefix: "sep \<noteq> [] \<Longrightarrow> after_sub sep (sep @ s) = Some s"
  by (cases sep) auto

lemma after_sub_None_if_no_head: "sep \<noteq> [] \<Longrightarrow> hd sep \<notin> set s \<Longrightarrow> after_sub sep s = None"
  by (cases sep; induction s) auto

lemma after_sub_append:
  "sep \<noteq> [] \<Longrightarrow> hd sep \<notin> set x \<Longrightarrow> after_sub sep (x @ sep @ s) = Some s"
proof (induction x)
  case Nil
  then show ?case using after_sub_prefix by simp
next
  case (Cons a x)
  then have "take (length sep) (a # x @ sep @ s) \<noteq> sep"
    by (cases sep) auto
  with Cons show ?case by simp
qed

lemma before_first_none: "(\<And>c. c \<in> set s \<Longrightarrow> \<not> p c) \<Longrightarrow> before_first p s = s"
  by (simp add: before_first_def takeWhile_eq_all_conv)

lemma before_first_append:
  "(\<And>c. c \<in> set s \<Longrightarrow> \<not> p c) \<Longrightarrow> p d \<Longrightarrow> before_first p (s @ d # t) = s"
  by (simp add: before_first_def takeWhile_append2)

section \<open>White space\<close>

text \<open>The UTF-8 encodings of the runes \<open>unicode.IsSpace\<close> accepts.\<close>

definition space_encs :: "gostring list" where
  "space_encs =
     [[CHR 0x09], [CHR 0x0A], [CHR 0x0B], [CHR 0x0C], [CHR 0x0D], [CHR 0x20],
      [CHR 0xC2, CHR 0x85], [CHR 0xC2, CHR 0xA0], [CHR 0xE1, CHR 0x9A, CHR 0x80],
      [CHR 0xE2, CHR 0x80, CHR 0x80], [CHR 0xE2, CHR 0x80, CHR 0x81], [CHR 0xE2, CHR 0x80, CHR 0x82],
      [CHR 0xE2, CHR 0x80, CHR 0x83], [CHR 0xE2, CHR 0x80, CHR 0x84], [CHR 0xE2, CHR 0x80, CHR 0x85],
      [CHR 0xE2, CHR 0x80, CHR 0x86], [CHR 0xE2, CHR 0x80, CHR 0x87], [CHR 0xE2, CHR 0x80, CHR 0x88],
      [CHR 0xE2, CHR 0x80, CHR 0x89], [CHR 0xE2, CHR 0x80, CHR 0x8A], [CHR 0xE2, CHR 0x80, CHR 0xA8],
      [CHR 0xE2, CHR 0x80, CHR 0xA9], [CHR 0xE2, CHR 0x80, CHR 0xAF], [CHR 0xE2, CHR 0x81, CHR 0x9F],
      [CHR 0xE3, CHR 0x80, CHR 0x80]]"

text \<open>\<open>leading encs s\<close> is the length of the first element of \<open>encs\<close> that starts \<open>s\<close>, 0 if none does.\<close>

definition leading :: "gostring list \<Rightarrow> gostring \<Rightarrow> nat" where
  "leading encs s = (case find (\<lambda>e. take (length e) s = e) encs of None \<Rightarrow> 0 | Some e \<Rightarrow> length e)"

lemma leading_Nil: "[] \<notin> set encs \<Longrightarrow> leading encs [] = 0"
  by (auto simp: leading_def split: option.splits dest: find_Some_mem)

function trim_left :: "gostring list \<Rightarrow> gostring \<Rightarrow> gostring" where
  "trim_left encs s =
     (if leading encs s = 0 \<or> s = [] then s else trim_left encs (drop (leading encs s) s))"
  by pat_completeness auto
termination
  by (relation "measure (\<lambda>(encs, s). length s)") auto

declare trim_left.simps [simp del]

definition trim_right :: "gostring \<Rightarrow> gostring" where
  "trim_right s = rev (trim_left (map rev space_encs) (rev s))"

definition trim_space :: "gostring \<Rightarrow> gostring" where
  "trim_space s = trim_right (trim_left space_encs s)"

text \<open>A byte that neither starts nor ends a space: every ASCII byte but the six ASCII spaces.\<close>

definition solid :: "char \<Rightarrow> bool" where
  "solid c \<longleftrightarrow> (of_char c :: nat) < 128 \<and>
     c \<notin> {CHR 0x09, CHR 0x0A, CHR 0x0B, CHR 0x0C, CHR 0x0D, CHR 0x20}"

definition tight :: "gostring \<Rightarrow> bool" where
  "tight s \<longleftrightarrow> (s = [] \<or> solid (hd s) \<and> solid (last s))"

lemma space_encs_hd: "\<forall>e \<in> set space_encs. e \<noteq> [] \<and> \<not> solid (hd e)"
  by (simp add: space_encs_def solid_def)

lemma space_encs_last: "\<forall>e \<in> set (map rev space_encs). e \<noteq> [] \<and> \<not> solid (hd e)"
  by (simp add: space_encs_def solid_def)

lemma leading_zeroI:
  assumes "\<forall>e \<in> set encs. e \<noteq> [] \<and> \<not> solid (hd e)" and "solid c"
  shows "leading encs (c # s) = 0"
proof -
  have "take (length e) (c # s) \<noteq> e" if "e \<in> set encs" for e
    using assms that by (cases e) force+
  then have "find (\<lambda>e. take (length e) (c # s) = e) encs = None"
    by (simp add: find_None_iff_all)
  then show ?thesis by (simp add: leading_def)
qed

lemmas leading_solid = leading_zeroI [OF space_encs_hd]
lemmas leading_rev_solid = leading_zeroI [OF space_encs_last]

lemma trim_space_tight [simp]: "tight s \<Longrightarrow> trim_space s = s"
proof (cases "s = []")
  case True
  then show ?thesis by (simp add: trim_space_def trim_right_def trim_left.simps)
next
  case False
  assume "tight s"
  with False have h: "solid (hd s)" and l: "solid (hd (rev s))"
    by (auto simp: tight_def hd_rev)
  from False h have "trim_left space_encs s = s"
    by (cases s) (auto simp: trim_left.simps leading_solid)
  moreover from False l have "trim_left (map rev space_encs) (rev s) = rev s"
    by (cases "rev s") (auto simp: trim_left.simps leading_rev_solid)
  ultimately show ?thesis by (simp add: trim_space_def trim_right_def)
qed

lemma trim_left_sublist: "set (trim_left encs s) \<subseteq> set s"
proof (induction encs s rule: trim_left.induct)
  case (1 encs s)
  then show ?case
    by (subst trim_left.simps) (auto dest: in_set_dropD)
qed

lemma set_trim_space: "set (trim_space s) \<subseteq> set s"
  using trim_left_sublist[of "map rev space_encs" "rev (trim_left space_encs s)"]
    trim_left_sublist[of space_encs s]
  by (auto simp: trim_space_def trim_right_def)

text \<open>A single leading space is dropped: entries written after a comma and a space.\<close>

lemma trim_space_blank_prefix: "trim_space (CHR 0x20 # s) = trim_space s"
proof -
  have "leading space_encs (CHR 0x20 # s) = 1"
    by (simp add: leading_def space_encs_def)
  then have "trim_left space_encs (CHR 0x20 # s) = trim_left space_encs s"
    by (subst trim_left.simps) simp
  then show ?thesis by (simp add: trim_space_def)
qed

text \<open>\<open>strings.Fields\<close>: the maximal runs between spaces. \<open>acc\<close> is the current run, reversed.\<close>

function fields_from :: "gostring \<Rightarrow> gostring \<Rightarrow> gostring list" where
  "fields_from acc s =
     (if s = [] then (if acc = [] then [] else [rev acc])
      else if leading space_encs s = 0 then fields_from (hd s # acc) (tl s)
      else (if acc = [] then [] else [rev acc]) @ fields_from [] (drop (leading space_encs s) s))"
  by pat_completeness auto
termination
  by (relation "measure (\<lambda>(acc, s). length s)") auto

declare fields_from.simps [simp del]

definition words_of :: "gostring \<Rightarrow> gostring list" where
  "words_of s = fields_from [] s"

lemma fields_from_solid:
  "(\<And>c. c \<in> set x \<Longrightarrow> solid c) \<Longrightarrow> fields_from acc (x @ s) = fields_from (rev x @ acc) s"
proof (induction x arbitrary: acc)
  case (Cons c x)
  then show ?case
    by (subst fields_from.simps) (simp add: leading_solid)
qed simp

lemma fields_from_blank:
  "fields_from acc (CHR 0x20 # s) = (if acc = [] then [] else [rev acc]) @ fields_from [] s"
proof -
  have "leading space_encs (CHR 0x20 # s) = 1"
    by (simp add: leading_def space_encs_def)
  then show ?thesis by (subst fields_from.simps) simp
qed

lemma fields_from_Nil: "fields_from acc [] = (if acc = [] then [] else [rev acc])"
  by (subst fields_from.simps) simp

lemma fields_join:
  "(\<And>x. x \<in> set xs \<Longrightarrow> x \<noteq> [] \<and> (\<forall>c \<in> set x. solid c)) \<Longrightarrow> words_of (join '' '' xs) = xs"
proof (induction xs)
  case Nil
  then show ?case by (simp add: words_of_def fields_from_Nil)
next
  case (Cons x xs)
  then have x: "x \<noteq> []" and solid: "\<And>c. c \<in> set x \<Longrightarrow> solid c" by auto
  show ?case
  proof (cases xs)
    case Nil
    then show ?thesis
      using fields_from_solid[OF solid, where acc = "[]" and s = "[]"] x
      by (simp add: words_of_def fields_from_Nil)
  next
    case (Cons y ys)
    have "z \<noteq> [] \<and> (\<forall>c \<in> set z. solid c)" if "z \<in> set xs" for z
      using Cons.prems[of z] that by simp
    then have "words_of (join '' '' xs) = xs" by (rule Cons.IH)
    moreover have "words_of (join '' '' (x # xs)) = x # words_of (join '' '' xs)"
      using fields_from_solid[OF solid, where acc = "[]" and s = "CHR 0x20 # join '' '' xs"] x Cons
      by (simp add: words_of_def fields_from_blank)
    ultimately show ?thesis by simp
  qed
qed

section \<open>Case folding, affixes, numbers and quoting\<close>

definition lower_char :: "char \<Rightarrow> char" where
  "lower_char c = (if CHR ''A'' \<le> c \<and> c \<le> CHR ''Z'' then char_of (of_char c + 32 :: nat) else c)"

fun to_lower :: "gostring \<Rightarrow> gostring" where
  "to_lower [] = []"
| "to_lower (a # s) =
     (if a = CHR 0xC4 \<and> take 1 s = [CHR 0xB0] then CHR ''i'' # to_lower (drop 1 s)
      else if a = CHR 0xE2 \<and> take 2 s = [CHR 0x84, CHR 0xAA] then CHR ''k'' # to_lower (drop 2 s)
      else lower_char a # to_lower s)"

definition trim_suffix :: "gostring \<Rightarrow> gostring \<Rightarrow> gostring" where
  "trim_suffix s suf =
     (if length suf \<le> length s \<and> drop (length s - length suf) s = suf
      then take (length s - length suf) s else s)"

lemma trim_suffix_append [simp]: "trim_suffix (s @ suf) suf = s"
  by (simp add: trim_suffix_def)

definition has_prefix :: "gostring \<Rightarrow> gostring \<Rightarrow> bool" where
  "has_prefix s p \<longleftrightarrow> take (length p) s = p"

definition digit_char :: "nat \<Rightarrow> char" where
  "digit_char d = char_of (48 + d)"

fun show_nat :: "nat \<Rightarrow> gostring" where
  "show_nat n = (if n < 10 then [digit_char n] else show_nat (n div 10) @ [digit_char (n mod 10)])"

declare show_nat.simps [simp del]

definition show_int :: "int \<Rightarrow> gostring" where
  "show_int i = (if i < 0 then ''-'' @ show_nat (nat (- i)) else show_nat (nat i))"

definition show_bool :: "bool \<Rightarrow> gostring" where
  "show_bool b = (if b then ''true'' else ''false'')"

definition hex_digit :: "nat \<Rightarrow> char" where
  "hex_digit d = (if d < 10 then char_of (48 + d) else char_of (87 + d))"

definition quote_char :: "char \<Rightarrow> gostring" where
  "quote_char c =
     (if c = CHR 0x22 \<or> c = CHR 0x5C then [CHR 0x5C, c]
      else if c = CHR 0x07 then [CHR 0x5C, CHR ''a'']
      else if c = CHR 0x08 then [CHR 0x5C, CHR ''b'']
      else if c = CHR 0x0C then [CHR 0x5C, CHR ''f'']
      else if c = CHR 0x0A then [CHR 0x5C, CHR ''n'']
      else if c = CHR 0x0D then [CHR 0x5C, CHR ''r'']
      else if c = CHR 0x09 then [CHR 0x5C, CHR ''t'']
      else if c = CHR 0x0B then [CHR 0x5C, CHR ''v'']
      else if (of_char c :: nat) < 32 \<or> (of_char c :: nat) = 127
        then [CHR 0x5C, CHR ''x'', hex_digit (of_char c div 16), hex_digit (of_char c mod 16)]
      else [c])"

definition go_quote :: "gostring \<Rightarrow> gostring" where
  "go_quote s = [CHR 0x22] @ concat (map quote_char s) @ [CHR 0x22]"

section \<open>The environment\<close>

text \<open>The value of each variable that is set, and \<open>os.Getenv\<close>.\<close>

type_synonym environment = "gostring \<Rightarrow> gostring option"

definition os_getenv :: "environment \<Rightarrow> gostring \<Rightarrow> gostring" where
  "os_getenv env k = (case env k of None \<Rightarrow> [] | Some v \<Rightarrow> v)"

end
