(* ===== verification/Go_Time.thy ===== *)
theory Go_Time
  imports Go_Strings "HOL-Library.Word"
begin

text \<open>
  Go's \<open>time\<close> package as the program uses it. A \<open>time.Duration\<close> is a signed 64-bit count of
  nanoseconds: addition and multiplication wrap around (\<open>wrap64\<close>), \<open>Time.Sub\<close> saturates
  (\<open>sat64\<close>). An instant (\<open>time.Time\<close>) is an unbounded count of nanoseconds since the Unix epoch. \<open>wrap64_eq_sint\<close>
  ties the wrap-around written out on integers to the library's 64-bit words.
\<close>

type_synonym duration = int
type_synonym instant = int

definition wrap64 :: "int \<Rightarrow> int" where
  "wrap64 x = (x + 2 ^ 63) mod 2 ^ 64 - 2 ^ 63"

definition max_duration :: duration where
  "max_duration = 9223372036854775807"

definition min_duration :: duration where
  "min_duration = - 9223372036854775808"

definition sat64 :: "int \<Rightarrow> int" where
  "sat64 x = max min_duration (min max_duration x)"

definition is_duration :: "int \<Rightarrow> bool" where
  "is_duration x \<longleftrightarrow> min_duration \<le> x \<and> x \<le> max_duration"

definition second :: duration where
  "second = 1000000000"

text \<open>\<open>d1 + d2\<close>, \<open>k * d\<close> on durations and \<open>t.Sub(u)\<close>.\<close>

definition dur_add :: "duration \<Rightarrow> duration \<Rightarrow> duration" where
  "dur_add a b = wrap64 (a + b)"

definition dur_mul :: "int \<Rightarrow> duration \<Rightarrow> duration" where
  "dur_mul k d = wrap64 (k * d)"

definition time_sub :: "instant \<Rightarrow> instant \<Rightarrow> duration" where
  "time_sub t u = sat64 (t - u)"

text \<open>\<open>Duration.Seconds()\<close>, before its rounding to a 64-bit float.\<close>

definition seconds :: "duration \<Rightarrow> rat" where
  "seconds d = of_int d / 1000000000"

lemma wrap64_eq_sint: "wrap64 x = sint (of_int x :: 64 word)"
  by (simp add: wrap64_def sint_sbintrunc' signed_take_bit_eq_take_bit_shift take_bit_eq_mod)

lemma wrap64_id [time_simps]: "is_duration x \<Longrightarrow> wrap64 x = x"
  by (simp add: wrap64_def is_duration_def min_duration_def max_duration_def)

lemma wrap64_bounds: "is_duration (wrap64 x)"
  by (simp add: wrap64_def is_duration_def min_duration_def max_duration_def)

lemma sat64_bounds: "is_duration (sat64 x)"
  by (simp add: sat64_def is_duration_def min_duration_def max_duration_def)

lemma sat64_id [time_simps]: "is_duration x \<Longrightarrow> sat64 x = x"
  by (simp add: sat64_def is_duration_def)

lemma sat64_mono: "x \<le> y \<Longrightarrow> sat64 x \<le> sat64 y"
  by (auto simp: sat64_def)

lemma sat64_ge_iff: "is_duration d \<Longrightarrow> d \<le> sat64 x \<longleftrightarrow> d \<le> x \<or> d = min_duration"
  by (auto simp: sat64_def is_duration_def min_duration_def max_duration_def)

lemma sat64_gt_iff: "is_duration d \<Longrightarrow> d < sat64 x \<longleftrightarrow> d < x \<and> d < max_duration"
  by (auto simp: sat64_def is_duration_def min_duration_def max_duration_def)

lemma seconds_mono: "a \<le> b \<Longrightarrow> seconds a \<le> seconds b"
  by (simp add: seconds_def divide_right_mono)

section \<open>Calendar\<close>

text \<open>
  The civil date of a day counted from the epoch, by the 400-year cycle of the Gregorian calendar
  (years start in March, so the leap day is the last), and \<open>Format(time.RFC3339)\<close> of a UTC time.
\<close>

definition civil :: "int \<Rightarrow> int \<times> int \<times> int" where
  "civil days =
     (let z = days + 719468; era = z div 146097; doe = z mod 146097;
          yoe = (doe - doe div 1460 + doe div 36524 - doe div 146096) div 365;
          doy = doe - (365 * yoe + yoe div 4 - yoe div 100);
          mp = (5 * doy + 2) div 153;
          d = doy - (153 * mp + 2) div 5 + 1;
          m = (if mp < 10 then mp + 3 else mp - 9)
      in (yoe + 400 * era + (if m \<le> 2 then 1 else 0), m, d))"

definition pad_number :: "nat \<Rightarrow> int \<Rightarrow> gostring" where
  "pad_number n i =
     (let s = show_nat (nat \<bar>i\<bar>)
      in (if i < 0 then ''-'' else []) @ replicate (n - length s) (CHR ''0'') @ s)"

definition rfc3339 :: "instant \<Rightarrow> gostring" where
  "rfc3339 t =
     (let secs = t div 1000000000; rest = secs mod 86400
      in case civil (secs div 86400) of (y, m, d) \<Rightarrow>
           pad_number 4 y @ ''-'' @ pad_number 2 m @ ''-'' @ pad_number 2 d @ ''T'' @
           pad_number 2 (rest div 3600) @ '':'' @ pad_number 2 (rest div 60 mod 60) @ '':'' @
           pad_number 2 (rest mod 60) @ ''Z'')"

text \<open>\<open>Unix()\<close>: the whole seconds since the epoch.\<close>

definition unix_seconds :: "instant \<Rightarrow> int" where
  "unix_seconds t = t div 1000000000"

lemma civil_examples:
  "rfc3339 0 = ''1970-01-01T00:00:00Z''"
  "rfc3339 951826154000000001 = ''2000-02-29T12:09:14Z''"
  "rfc3339 (- 1) = ''1969-12-31T23:59:59Z''"
  by code_simp+

end
