(* ===== verification/Effects.thy ===== *)
theory Effects
  imports Go_Strings Go_Time
begin

text \<open>
  What a step of the process leaves behind: the outside world \<open>'w\<close> (every service the program
  calls is a function of it), the structured log records handed to \<open>log/slog\<close>, and the calls made
  on the metrics registry of \<open>pkg/metrics\<close>. All three are threaded in one record, so every
  operation of the model returns the new process state.
\<close>

section \<open>Structured log records\<close>

datatype attr = AStr gostring | AInt int | ABool bool | AFloat rat | ADur duration

record log_entry =
  le_level :: int
  le_event :: gostring
  le_attrs :: "(gostring \<times> attr) list"

abbreviation LevelTrace :: int where "LevelTrace \<equiv> - 8"
abbreviation LevelDebug :: int where "LevelDebug \<equiv> - 4"
abbreviation LevelInfo :: int where "LevelInfo \<equiv> 0"
abbreviation LevelWarn :: int where "LevelWarn \<equiv> 4"
abbreviation LevelError :: int where "LevelError \<equiv> 8"

section \<open>Metrics\<close>

text \<open>The registered series, with their label values.\<close>

datatype series =
    LoopLastTick
  | CouchbaseUp gostring
  | ServiceUp gostring
  | SustainedDownSeconds
  | ActiveRegion gostring
  | FailoverTotal
  | FailoverErrors
  | LastActuationSuccess
  | SecondaryUp
  | WebhookTotal gostring
  | WebhookLastSuccess

datatype metric_call = SetGauge series rat | IncCounter series | DeleteSeries series

text \<open>The name a series is exported under.\<close>

fun metric_name :: "series \<Rightarrow> gostring" where
  "metric_name LoopLastTick = ''observer_loop_last_tick_timestamp_seconds''"
| "metric_name (CouchbaseUp r) = ''observer_couchbase_up''"
| "metric_name (ServiceUp s) = ''observer_service_up''"
| "metric_name SustainedDownSeconds = ''observer_sustained_down_seconds''"
| "metric_name (ActiveRegion r) = ''observer_active_region''"
| "metric_name FailoverTotal = ''observer_failover_total''"
| "metric_name FailoverErrors = ''observer_failover_errors_total''"
| "metric_name LastActuationSuccess = ''observer_last_actuation_success_timestamp_seconds''"
| "metric_name SecondaryUp = ''observer_secondary_up''"
| "metric_name (WebhookTotal r) = ''observer_webhook_total''"
| "metric_name WebhookLastSuccess = ''observer_webhook_last_success_timestamp_seconds''"

text \<open>The value a series shows after a sequence of calls; \<open>None\<close> when it was never set or was deleted.\<close>

fun apply_metric :: "metric_call \<Rightarrow> (series \<Rightarrow> rat option) \<Rightarrow> (series \<Rightarrow> rat option)" where
  "apply_metric (SetGauge s v) m = m(s := Some v)"
| "apply_metric (IncCounter s) m = m(s := Some ((case m s of None \<Rightarrow> 0 | Some v \<Rightarrow> v) + 1))"
| "apply_metric (DeleteSeries s) m = m(s := None)"

definition shown :: "metric_call list \<Rightarrow> series \<Rightarrow> rat option" where
  "shown calls = foldl (\<lambda>m c. apply_metric c m) (\<lambda>_. None) calls"

lemma shown_snoc [simp]: "shown (calls @ [c]) = apply_metric c (shown calls)"
  by (simp add: shown_def)

section \<open>The process state\<close>

record 'w proc =
  world :: 'w
  logs :: "log_entry list"
  metrics :: "metric_call list"

definition log_event :: "int \<Rightarrow> gostring \<Rightarrow> (gostring \<times> attr) list \<Rightarrow> 'w proc \<Rightarrow> 'w proc" where
  "log_event level event attrs p =
     p\<lparr>logs := logs p @ [\<lparr>le_level = level, le_event = event, le_attrs = attrs\<rparr>]\<rparr>"

definition metric :: "metric_call \<Rightarrow> 'w proc \<Rightarrow> 'w proc" where
  "metric c p = p\<lparr>metrics := metrics p @ [c]\<rparr>"

text \<open>A call into the outside world.\<close>

definition outside :: "('w \<Rightarrow> 'a \<times> 'w) \<Rightarrow> 'w proc \<Rightarrow> 'a \<times> 'w proc" where
  "outside f p = (case f (world p) of (x, w) \<Rightarrow> (x, p\<lparr>world := w\<rparr>))"

lemma log_event_frame [simp, frame_simps]:
  "world (log_event l e a p) = world p"
  "metrics (log_event l e a p) = metrics p"
  "logs (log_event l e a p) = logs p @ [\<lparr>le_level = l, le_event = e, le_attrs = a\<rparr>]"
  by (simp_all add: log_event_def)

lemma metric_frame [simp, frame_simps]:
  "world (metric c p) = world p"
  "logs (metric c p) = logs p"
  "metrics (metric c p) = metrics p @ [c]"
  by (simp_all add: metric_def)

lemma outside_frame [simp, frame_simps]:
  "logs (snd (outside f p)) = logs p"
  "metrics (snd (outside f p)) = metrics p"
  "world (snd (outside f p)) = snd (f (world p))"
  "fst (outside f p) = fst (f (world p))"
  by (simp_all add: outside_def split: prod.splits)

lemma outside_eq: "outside f p = (x, q) \<longleftrightarrow> (\<exists>w. f (world p) = (x, w) \<and> q = p\<lparr>world := w\<rparr>)"
  by (auto simp: outside_def split: prod.splits)

end
