(* ===== verification/Target_Refs.thy ===== *)
theory Target_Refs
  imports Go_Strings
begin

text \<open>
  \<open>pkg/actuator/refs.go\<close>: the namespace-qualified targets of the Kubernetes actuator and their
  parser. The code's \<open>seen\<close> map always holds exactly the refs appended to \<open>out\<close>, so the loop
  carries \<open>out\<close> alone. The reference parser \<open>resolve_all\<close> states the result of a valid list
  without the loop: the resolved entries in order, each once.
\<close>

section \<open>The parser\<close>

record ref =
  ref_namespace :: gostring
  ref_name :: gostring

datatype refs_error = InvalidTarget gostring gostring | TargetRequired gostring

definition ref_string :: "ref \<Rightarrow> gostring" where
  "ref_string r = ref_namespace r @ ''/'' @ ref_name r"

text \<open>The namespace and the name of a trimmed, non-empty entry.\<close>

definition qualify :: "gostring \<Rightarrow> gostring \<Rightarrow> ref" where
  "qualify default_ns entry =
     (case cut (CHR ''/'') entry of
        (ns, name, True) \<Rightarrow> \<lparr>ref_namespace = ns, ref_name = name\<rparr>
      | (_, _, False) \<Rightarrow> \<lparr>ref_namespace = default_ns, ref_name = entry\<rparr>)"

definition bad_ref :: "ref \<Rightarrow> bool" where
  "bad_ref r \<longleftrightarrow> ref_namespace r = [] \<or> ref_name r = [] \<or> CHR ''/'' \<in> set (ref_name r)"

fun parse_entries :: "gostring \<Rightarrow> ref list \<Rightarrow> gostring list \<Rightarrow> refs_error + ref list" where
  "parse_entries default_ns out [] = Inr out"
| "parse_entries default_ns out (entry # rest) =
     (let entry = trim_space entry
      in if entry = [] then parse_entries default_ns out rest
         else
           (let r = qualify default_ns entry
            in if bad_ref r then Inl (InvalidTarget entry (ref_namespace r))
               else if r \<in> set out then parse_entries default_ns out rest
               else parse_entries default_ns (out @ [r]) rest))"

definition parse_refs :: "gostring \<Rightarrow> gostring \<Rightarrow> refs_error + ref list" where
  "parse_refs list default_ns = parse_entries default_ns [] (split_on (CHR '','') list)"

definition parse_refs_required :: "gostring \<Rightarrow> gostring \<Rightarrow> refs_error + ref list" where
  "parse_refs_required list default_ns =
     (case parse_refs list default_ns of
        Inl e \<Rightarrow> Inl e
      | Inr refs \<Rightarrow> if length refs = 0 then Inl (TargetRequired list) else Inr refs)"

section \<open>Unpaired namespaces\<close>

fun unpaired_from :: "gostring gomap_keys \<Rightarrow> gostring list \<Rightarrow> ref list \<Rightarrow> gostring list" where
  "unpaired_from has_cm out [] = out"
| "unpaired_from has_cm out (r # rest) =
     (if ref_namespace r \<in> set has_cm \<or> ref_namespace r \<in> set out then unpaired_from has_cm out rest
      else unpaired_from has_cm (out @ [ref_namespace r]) rest)"

definition unpaired_namespaces :: "ref list \<Rightarrow> ref list \<Rightarrow> gostring list" where
  "unpaired_namespaces config_maps deployments =
     sort (unpaired_from (map ref_namespace config_maps) [] deployments)"

section \<open>The reference parser\<close>

definition entries_of :: "gostring \<Rightarrow> gostring list" where
  "entries_of list = filter (\<lambda>e. e \<noteq> []) (map trim_space (split_on (CHR '','') list))"

fun add_new :: "'a list \<Rightarrow> 'a list \<Rightarrow> 'a list" where
  "add_new out [] = out"
| "add_new out (x # xs) = add_new (if x \<in> set out then out else out @ [x]) xs"

definition resolve_all :: "gostring \<Rightarrow> gostring list \<Rightarrow> ref list" where
  "resolve_all default_ns entries = add_new [] (map (qualify default_ns) entries)"

lemma add_new_set: "set (add_new out xs) = set out \<union> set xs"
  by (induction out xs rule: add_new.induct) auto

lemma add_new_distinct: "distinct out \<Longrightarrow> distinct (add_new out xs)"
  by (induction out xs rule: add_new.induct) auto

lemma add_new_id: "distinct (out @ xs) \<Longrightarrow> add_new out xs = out @ xs"
  by (induction out xs rule: add_new.induct) auto

lemma parse_entries_eq:
  "parse_entries default_ns out raw =
     (let entries = filter (\<lambda>e. e \<noteq> []) (map trim_space raw)
      in case find (\<lambda>e. bad_ref (qualify default_ns e)) entries of
           Some e \<Rightarrow> Inl (InvalidTarget e (ref_namespace (qualify default_ns e)))
         | None \<Rightarrow> Inr (add_new out (map (qualify default_ns) entries)))"
  by (induction default_ns out raw rule: parse_entries.induct)
     (simp_all add: Let_def split: option.splits)

lemma parse_refs_eq:
  "parse_refs list default_ns =
     (case find (\<lambda>e. bad_ref (qualify default_ns e)) (entries_of list) of
        Some e \<Rightarrow> Inl (InvalidTarget e (ref_namespace (qualify default_ns e)))
      | None \<Rightarrow> Inr (resolve_all default_ns (entries_of list)))"
  unfolding parse_refs_def parse_entries_eq entries_of_def resolve_all_def Let_def by (rule refl)

lemma qualify_namespace_no_slash:
  "CHR ''/'' \<in> set e \<Longrightarrow> CHR ''/'' \<notin> set (ref_namespace (qualify d e))"
  by (auto simp: qualify_def cut_found_iff[symmetric] split: prod.splits bool.splits
      dest!: cut_TrueD)

lemma parse_refs_sound:
  assumes "parse_refs list default_ns = Inr refs"
  shows "distinct refs \<and> (\<forall>r \<in> set refs. \<not> bad_ref r) \<and>
     set refs = qualify default_ns ` set (entries_of list)"
  using assms
  by (auto simp: parse_refs_eq resolve_all_def add_new_set add_new_distinct find_None_iff_all
      split: option.splits)

lemma unpaired_from_set:
  "set (unpaired_from cm out deps) = set out \<union> (ref_namespace ` set deps - set cm)"
  by (induction cm out deps rule: unpaired_from.induct) auto

lemma unpaired_from_distinct: "distinct out \<Longrightarrow> distinct (unpaired_from cm out deps)"
  by (induction cm out deps rule: unpaired_from.induct) auto

section \<open>Properties\<close>

text \<open>
  C38: \<open>ParseRefs\<close> equals its reference: it fails on the first non-blank entry with an empty
  namespace, an empty name or a second slash, naming that entry, and otherwise returns the
  resolved entries in order without duplicates; \<open>ParseRefsRequired\<close> differs on the empty list only.
\<close>

theorem parse_refs_exact:
  "parse_refs list default_ns =
     (case find (\<lambda>e. bad_ref (qualify default_ns e)) (entries_of list) of
        Some e \<Rightarrow> Inl (InvalidTarget e (ref_namespace (qualify default_ns e)))
      | None \<Rightarrow> Inr (resolve_all default_ns (entries_of list))) \<and>
   distinct (resolve_all default_ns (entries_of list)) \<and>
   parse_refs_required list default_ns =
     (if parse_refs list default_ns = Inr [] then Inl (TargetRequired list)
      else parse_refs list default_ns)"
  by (auto simp: parse_refs_required_def resolve_all_def add_new_distinct parse_refs_eq
      split: sum.splits option.splits)

text \<open>A ref whose rendering survives the comma list.\<close>

definition printable_ref :: "ref \<Rightarrow> bool" where
  "printable_ref r \<longleftrightarrow> \<not> bad_ref r \<and> CHR ''/'' \<notin> set (ref_namespace r) \<and>
     CHR '','' \<notin> set (ref_string r) \<and> tight (ref_string r)"

lemma qualify_ref_string: "CHR ''/'' \<notin> set (ref_namespace r) \<Longrightarrow> qualify d (ref_string r) = r"
  by (simp add: qualify_def ref_string_def)

text \<open>
  Printing and parsing targets are inverse: the comma list of the \<open>ns/name\<close> forms of
  distinct, well-formed refs parses back to exactly these refs, in order, whatever the default
  namespace is.
\<close>

theorem parse_refs_roundtrip:
  assumes "\<forall>r \<in> set refs. printable_ref r" and "distinct refs"
  shows "parse_refs (join '','' (map ref_string refs)) default_ns = Inr refs"
proof (cases "refs = []")
  case True
  then show ?thesis
    by (simp add: parse_refs_def trim_space_tight[of "[]"] tight_def)
next
  case False
  have "split_on (CHR '','') (join '','' (map ref_string refs)) = map ref_string refs"
    using False assms(1) by (intro split_on_join) (auto simp: printable_ref_def)
  moreover have "map trim_space (map ref_string refs) = map ref_string refs"
    using assms(1) by (auto simp: printable_ref_def)
  moreover have "ref_string r \<noteq> []" for r by (simp add: ref_string_def)
  ultimately have e: "entries_of (join '','' (map ref_string refs)) = map ref_string refs"
    by (simp add: entries_of_def filter_True)
  have q: "map (qualify default_ns) (map ref_string refs) = refs"
    using assms(1) by (simp add: map_idI qualify_ref_string printable_ref_def)
  have "find (\<lambda>e. bad_ref (qualify default_ns e)) (map ref_string refs) = None"
    using assms(1) by (auto simp: find_None_iff_all printable_ref_def qualify_ref_string)
  then show ?thesis
    using add_new_id[of "[]" refs] assms(2)
    by (simp add: parse_refs_eq e resolve_all_def q del: map_map)
qed

theorem parse_refs_roundtrip_witness:
  "parse_refs ''app-a/cb-conn,app-b/cb.conn'' ''default'' =
     Inr [\<lparr>ref_namespace = ''app-a'', ref_name = ''cb-conn''\<rparr>,
          \<lparr>ref_namespace = ''app-b'', ref_name = ''cb.conn''\<rparr>]"
  using parse_refs_roundtrip[of "[\<lparr>ref_namespace = ''app-a'', ref_name = ''cb-conn''\<rparr>,
          \<lparr>ref_namespace = ''app-b'', ref_name = ''cb.conn''\<rparr>]" "''default''"]
  by (simp add: ref_string_def printable_ref_def bad_ref_def tight_def solid_def)

text \<open>
  \<open>UnpairedNamespaces\<close> warns about exactly the namespaces that hold a Deployment target and
  no ConfigMap target, sorted and each once; it is empty exactly when every Deployment target has
  a ConfigMap target beside it.
\<close>

theorem unpaired_namespaces_exact:
  "set (unpaired_namespaces cms deps) = ref_namespace ` set deps - ref_namespace ` set cms \<and>
   sorted (unpaired_namespaces cms deps) \<and> distinct (unpaired_namespaces cms deps) \<and>
   (unpaired_namespaces cms deps = [] \<longleftrightarrow> ref_namespace ` set deps \<subseteq> ref_namespace ` set cms)"
proof -
  have set: "set (unpaired_namespaces cms deps) = ref_namespace ` set deps - ref_namespace ` set cms"
    by (simp add: unpaired_namespaces_def unpaired_from_set)
  then have "unpaired_namespaces cms deps = [] \<longleftrightarrow> ref_namespace ` set deps \<subseteq> ref_namespace ` set cms"
    by (metis Diff_eq_empty_iff set_empty)
  with set show ?thesis
    by (simp add: unpaired_namespaces_def unpaired_from_distinct)
qed

end
