(* ===== verification/K8s_Actuator.thy ===== *)
theory K8s_Actuator
  imports Effects Target_Refs "HOL-Library.AList"
begin

text \<open>
  \<open>pkg/actuator/k8s.go\<close>: the region switch on Kubernetes, a best-effort fan-out that repoints
  every connection-string ConfigMap to the secondary and stamps every dependent Deployment.

  The Kubernetes API is outside the repository: its four calls are a parameter (\<open>k8s_api\<close>) over
  the world, and what the code relies on is the hypothesis \<open>api_documented\<close>: a read changes
  nothing and returns the stored object, an accepted update stores the object it was given (with a
  new resource version), and a refused update either left the object alone or, when only the answer was
  lost, stored it. An error of the API is its text.
\<close>

section \<open>Objects and the API\<close>

type_synonym string_map = "(gostring \<times> gostring) list"

record configmap =
  cm_name :: gostring
  cm_version :: gostring
  cm_data :: "string_map option"

record deployment =
  dep_name :: gostring
  dep_version :: gostring
  dep_annotations :: "string_map option"

record 'w k8s_api =
  get_cm :: "gostring \<Rightarrow> gostring \<Rightarrow> 'w \<Rightarrow> (gostring + configmap) \<times> 'w"
  update_cm :: "gostring \<Rightarrow> configmap \<Rightarrow> 'w \<Rightarrow> (gostring + configmap) \<times> 'w"
  get_dep :: "gostring \<Rightarrow> gostring \<Rightarrow> 'w \<Rightarrow> (gostring + deployment) \<times> 'w"
  update_dep :: "gostring \<Rightarrow> deployment \<Rightarrow> 'w \<Rightarrow> (gostring + deployment) \<times> 'w"

text \<open>Reading a key of a possibly nil Go map: the empty string when it is missing.\<close>

definition key_of :: "string_map option \<Rightarrow> gostring \<Rightarrow> gostring" where
  "key_of m k = (case m of None \<Rightarrow> [] | Some d \<Rightarrow> (case map_of d k of None \<Rightarrow> [] | Some v \<Rightarrow> v))"

text \<open>Writing a key, with the nil map replaced by an empty one first.\<close>

definition set_key :: "gostring \<Rightarrow> gostring \<Rightarrow> string_map option \<Rightarrow> string_map option" where
  "set_key k v m = Some (AList.update k v (case m of None \<Rightarrow> [] | Some d \<Rightarrow> d))"

lemma key_of_set_key [simp]: "key_of (set_key k v m) k' = (if k' = k then v else key_of m k')"
  by (auto simp: key_of_def set_key_def update_conv split: option.splits)

section \<open>The actuator\<close>

record actuator_config =
  cfg_configmaps :: "ref list"
  cfg_key :: gostring
  cfg_deployments :: "ref list"
  cfg_secondary :: gostring
  cfg_dry_run :: bool

definition ann_switched_to :: gostring where
  "ann_switched_to = ''observer/switched-to''"

definition ann_restarted_at :: gostring where
  "ann_restarted_at = ''observer/restartedAt''"

datatype switch_error =
    NoConfigMapConfigured
  | GetConfigMapFailed ref gostring
  | UpdateConfigMapFailed ref gostring
  | GetDeploymentFailed ref gostring
  | RollDeploymentFailed ref gostring

record patch_ledger =
  patched_ns :: "gostring gomap_keys"
  failed_ns :: "gostring gomap_keys"
  pending :: nat
  errs :: "switch_error list"

definition empty_ledger :: patch_ledger where
  "empty_ledger = \<lparr>patched_ns = [], failed_ns = [], pending = 0, errs = []\<rparr>"

definition fail_cm :: "ref \<Rightarrow> switch_error \<Rightarrow> patch_ledger \<Rightarrow> patch_ledger" where
  "fail_cm r e led =
     led\<lparr>errs := errs led @ [e], failed_ns := add_key (ref_namespace r) (failed_ns led)\<rparr>"

text \<open>One iteration of \<open>patchConfigMaps\<close>.\<close>

definition patch_one ::
  "'w k8s_api \<Rightarrow> actuator_config \<Rightarrow> ref \<Rightarrow> patch_ledger \<Rightarrow> 'w proc \<Rightarrow> patch_ledger \<times> 'w proc" where
  "patch_one api cfg r led p =
     (case outside (get_cm api (ref_namespace r) (ref_name r)) p of
        (Inl e, p1) \<Rightarrow> (fail_cm r (GetConfigMapFailed r e) led, p1)
      | (Inr cm, p1) \<Rightarrow>
          if key_of (cm_data cm) (cfg_key cfg) = cfg_secondary cfg then (led, p1)
          else
            (let led1 = led\<lparr>pending := pending led + 1\<rparr>
             in if cfg_dry_run cfg then (led1, p1)
                else
                  (let cur = key_of (cm_data cm) (cfg_key cfg);
                       cm' = cm\<lparr>cm_data := set_key (cfg_key cfg) (cfg_secondary cfg) (cm_data cm)\<rparr>
                   in case outside (update_cm api (ref_namespace r) cm') p1 of
                        (Inl e, p2) \<Rightarrow> (fail_cm r (UpdateConfigMapFailed r e) led1, p2)
                      | (Inr _, p2) \<Rightarrow>
                          (led1\<lparr>patched_ns := add_key (ref_namespace r) (patched_ns led1)\<rparr>,
                           log_event LevelInfo ''configmap_patch''
                             [(''configmap'', AStr (ref_name r)), (''namespace'', AStr (ref_namespace r)),
                              (''key'', AStr (cfg_key cfg)), (''from'', AStr cur),
                              (''to'', AStr (cfg_secondary cfg))] p2))))"

fun patch_configmaps ::
  "'w k8s_api \<Rightarrow> actuator_config \<Rightarrow> ref list \<Rightarrow> patch_ledger \<Rightarrow> 'w proc \<Rightarrow> patch_ledger \<times> 'w proc" where
  "patch_configmaps api cfg [] led p = (led, p)"
| "patch_configmaps api cfg (r # rs) led p =
     (case patch_one api cfg r led p of (led', p') \<Rightarrow> patch_configmaps api cfg rs led' p')"

text \<open>One iteration of \<open>rollDeployments\<close>; the accumulator is the roll count and the errors.\<close>

definition roll_one ::
  "'w k8s_api \<Rightarrow> actuator_config \<Rightarrow> patch_ledger \<Rightarrow> gostring \<Rightarrow> ref \<Rightarrow>
   nat \<times> switch_error list \<Rightarrow> 'w proc \<Rightarrow> (nat \<times> switch_error list) \<times> 'w proc" where
  "roll_one api cfg led stamp r acc p =
     (case acc of (rolled, es) \<Rightarrow>
        if ref_namespace r \<in> set (failed_ns led) then
          (acc, log_event LevelWarn ''roll_skipped''
             [(''deployment'', AStr (ref_name r)), (''namespace'', AStr (ref_namespace r)),
              (''reason'', AStr ''configmap_failed'')] p)
        else
          (case outside (get_dep api (ref_namespace r) (ref_name r)) p of
             (Inl e, p1) \<Rightarrow> ((rolled, es @ [GetDeploymentFailed r e]), p1)
           | (Inr dep, p1) \<Rightarrow>
               if ref_namespace r \<notin> set (patched_ns led) \<and>
                  key_of (dep_annotations dep) ann_switched_to = cfg_secondary cfg then (acc, p1)
               else
                 (let dep' = dep\<lparr>dep_annotations := set_key ann_restarted_at stamp
                               (set_key ann_switched_to (cfg_secondary cfg) (dep_annotations dep))\<rparr>
                  in case outside (update_dep api (ref_namespace r) dep') p1 of
                       (Inl e, p2) \<Rightarrow> ((rolled, es @ [RollDeploymentFailed r e]), p2)
                     | (Inr _, p2) \<Rightarrow>
                         ((rolled + 1, es),
                          log_event LevelInfo ''deployment_roll''
                            [(''deployment'', AStr (ref_name r)), (''namespace'', AStr (ref_namespace r))] p2))))"

fun roll_deployments ::
  "'w k8s_api \<Rightarrow> actuator_config \<Rightarrow> patch_ledger \<Rightarrow> gostring \<Rightarrow> ref list \<Rightarrow>
   nat \<times> switch_error list \<Rightarrow> 'w proc \<Rightarrow> (nat \<times> switch_error list) \<times> 'w proc" where
  "roll_deployments api cfg led stamp [] acc p = (acc, p)"
| "roll_deployments api cfg led stamp (r # rs) acc p =
     (case roll_one api cfg led stamp r acc p of
        (acc', p') \<Rightarrow> roll_deployments api cfg led stamp rs acc' p')"

text \<open>\<open>errors.Join\<close>: nil when there is nothing to join.\<close>

definition join_errors :: "switch_error list \<Rightarrow> switch_error list option" where
  "join_errors es = (if es = [] then None else Some es)"

definition k8s_switch ::
  "'w k8s_api \<Rightarrow> actuator_config \<Rightarrow> gostring \<Rightarrow> 'w proc \<Rightarrow> (bool \<times> switch_error list option) \<times> 'w proc" where
  "k8s_switch api cfg now p =
     (if length (cfg_configmaps cfg) = 0 then ((False, Some [NoConfigMapConfigured]), p)
      else
        (case patch_configmaps api cfg (cfg_configmaps cfg) empty_ledger p of
           (led, p1) \<Rightarrow>
             if cfg_dry_run cfg then ((pending led > 0, join_errors (errs led)), p1)
             else
               (case roll_deployments api cfg led now (cfg_deployments cfg) (0, []) p1 of
                  ((rolled, roll_errs), p2) \<Rightarrow>
                    let p3 = (if pending led = 0 \<and> rolled > 0
                              then log_event LevelInfo ''roll_only''
                                     [(''rolled'', AInt (int rolled)), (''secondary'', AStr (cfg_secondary cfg))] p2
                              else p2);
                        err = join_errors (errs led @ roll_errs)
                    in ((err = None \<and> pending led > 0, err), p3))))"

end
