(* ===== verification/K8s_Laws.thy ===== *)
theory K8s_Laws
  imports K8s_Actuator
begin

text \<open>
  What the Kubernetes API is relied on for (\<open>api_documented\<close>), and the facts about the two phases
  of the switch that its properties share: what one iteration does to the ConfigMaps and
  Deployments of the cluster (\<open>cms\<close> and \<open>deps\<close> read them off the world), and what the loops
  keep of it.
\<close>

section \<open>The documented behaviour\<close>

type_synonym obj_key = "gostring \<times> gostring"

definition ref_key :: "ref \<Rightarrow> obj_key" where
  "ref_key r = (ref_namespace r, ref_name r)"

definition stored_cm ::
  "obj_key \<Rightarrow> configmap \<Rightarrow> (obj_key \<Rightarrow> configmap option) \<Rightarrow> (obj_key \<Rightarrow> configmap option) \<Rightarrow> bool" where
  "stored_cm k c m m' \<longleftrightarrow> (\<exists>v. m' = m(k \<mapsto> c\<lparr>cm_version := v\<rparr>))"

definition stored_dep ::
  "obj_key \<Rightarrow> deployment \<Rightarrow> (obj_key \<Rightarrow> deployment option) \<Rightarrow> (obj_key \<Rightarrow> deployment option) \<Rightarrow> bool" where
  "stored_dep k d m m' \<longleftrightarrow> (\<exists>v. m' = m(k \<mapsto> d\<lparr>dep_version := v\<rparr>))"

definition api_documented ::
  "'w k8s_api \<Rightarrow> ('w \<Rightarrow> obj_key \<Rightarrow> configmap option) \<Rightarrow> ('w \<Rightarrow> obj_key \<Rightarrow> deployment option) \<Rightarrow> bool" where
  "api_documented api cms deps \<longleftrightarrow>
     (\<forall>ns n w r w'. get_cm api ns n w = (r, w') \<longrightarrow> cms w' = cms w \<and> deps w' = deps w \<and>
        (\<forall>c. r = Inr c \<longrightarrow> cms w (ns, n) = Some c \<and> cm_name c = n)) \<and>
     (\<forall>ns n w r w'. get_dep api ns n w = (r, w') \<longrightarrow> cms w' = cms w \<and> deps w' = deps w \<and>
        (\<forall>d. r = Inr d \<longrightarrow> deps w (ns, n) = Some d \<and> dep_name d = n)) \<and>
     (\<forall>ns c w r w'. update_cm api ns c w = (r, w') \<longrightarrow> deps w' = deps w \<and>
        (stored_cm (ns, cm_name c) c (cms w) (cms w') \<or> (\<exists>e. r = Inl e) \<and> cms w' = cms w)) \<and>
     (\<forall>ns d w r w'. update_dep api ns d w = (r, w') \<longrightarrow> cms w' = cms w \<and>
        (stored_dep (ns, dep_name d) d (deps w) (deps w') \<or> (\<exists>e. r = Inl e) \<and> deps w' = deps w))"

lemma get_cm_doc:
  assumes "api_documented api cms deps" "outside (get_cm api ns n) p = (r, p')"
  shows "cms (world p') = cms (world p)" "deps (world p') = deps (world p)"
    "r = Inr c \<Longrightarrow> cms (world p) (ns, n) = Some c \<and> cm_name c = n"
  using assms unfolding api_documented_def outside_eq by auto

lemma get_dep_doc:
  assumes "api_documented api cms deps" "outside (get_dep api ns n) p = (r, p')"
  shows "cms (world p') = cms (world p)" "deps (world p') = deps (world p)"
    "r = Inr d \<Longrightarrow> deps (world p) (ns, n) = Some d \<and> dep_name d = n"
  using assms unfolding api_documented_def outside_eq by auto

lemma update_cm_doc:
  assumes "api_documented api cms deps" "outside (update_cm api ns c) p = (r, p')"
  shows "deps (world p') = deps (world p)"
    "stored_cm (ns, cm_name c) c (cms (world p)) (cms (world p')) \<or>
       (\<exists>e. r = Inl e) \<and> cms (world p') = cms (world p)"
  using assms unfolding api_documented_def outside_eq by (auto, metis+)

lemma update_dep_doc:
  assumes "api_documented api cms deps" "outside (update_dep api ns d) p = (r, p')"
  shows "cms (world p') = cms (world p)"
    "stored_dep (ns, dep_name d) d (deps (world p)) (deps (world p')) \<or>
       (\<exists>e. r = Inl e) \<and> deps (world p') = deps (world p)"
  using assms unfolding api_documented_def outside_eq by (auto, metis+)

section \<open>Targets on the secondary\<close>

definition on_secondary :: "actuator_config \<Rightarrow> (obj_key \<Rightarrow> configmap option) \<Rightarrow> ref \<Rightarrow> bool" where
  "on_secondary cfg m r \<longleftrightarrow>
     (\<exists>c. m (ref_key r) = Some c \<and> key_of (cm_data c) (cfg_key cfg) = cfg_secondary cfg)"

definition stamp_of :: "deployment \<Rightarrow> gostring" where
  "stamp_of d = key_of (dep_annotations d) ann_switched_to"

definition restarted_at :: "deployment \<Rightarrow> gostring" where
  "restarted_at d = key_of (dep_annotations d) ann_restarted_at"

definition stamped :: "actuator_config \<Rightarrow> (obj_key \<Rightarrow> deployment option) \<Rightarrow> ref \<Rightarrow> bool" where
  "stamped cfg m r \<longleftrightarrow> (\<exists>d. m (ref_key r) = Some d \<and> stamp_of d = cfg_secondary cfg)"

definition rolled_now :: "actuator_config \<Rightarrow> gostring \<Rightarrow> (obj_key \<Rightarrow> deployment option) \<Rightarrow> ref \<Rightarrow> bool" where
  "rolled_now cfg now m r \<longleftrightarrow>
     (\<exists>d. m (ref_key r) = Some d \<and> stamp_of d = cfg_secondary cfg \<and> restarted_at d = now)"

definition set_cm :: "actuator_config \<Rightarrow> configmap \<Rightarrow> configmap" where
  "set_cm cfg c = c\<lparr>cm_data := set_key (cfg_key cfg) (cfg_secondary cfg) (cm_data c)\<rparr>"

definition set_dep :: "actuator_config \<Rightarrow> gostring \<Rightarrow> deployment \<Rightarrow> deployment" where
  "set_dep cfg now d = d\<lparr>dep_annotations := set_key ann_restarted_at now
     (set_key ann_switched_to (cfg_secondary cfg) (dep_annotations d))\<rparr>"

lemma set_cm_simps [simp]:
  "cm_name (set_cm cfg c) = cm_name c"
  "key_of (cm_data (set_cm cfg c)) k = (if k = cfg_key cfg then cfg_secondary cfg else key_of (cm_data c) k)"
  by (simp_all add: set_cm_def)

lemma set_dep_simps [simp]:
  "dep_name (set_dep cfg now d) = dep_name d"
  "stamp_of (set_dep cfg now d) = cfg_secondary cfg"
  "restarted_at (set_dep cfg now d) = now"
  by (simp_all add: set_dep_def stamp_of_def restarted_at_def ann_switched_to_def ann_restarted_at_def)

lemma stamp_of_version [simp]: "stamp_of (d\<lparr>dep_version := v\<rparr>) = stamp_of d"
  "restarted_at (d\<lparr>dep_version := v\<rparr>) = restarted_at d"
  by (simp_all add: stamp_of_def restarted_at_def)

section \<open>One patch\<close>

text \<open>The five outcomes of one iteration of the patch loop, on the cluster's ConfigMaps.\<close>

lemma patch_one_cases:
  assumes doc: "api_documented api cms deps" and step: "patch_one api cfg r led p = (led', p')"
  obtains
    (get_failed) e where "led' = fail_cm r (GetConfigMapFailed r e) led"
      "cms (world p') = cms (world p)" "deps (world p') = deps (world p)" "logs p' = logs p"
  | (settled) "led' = led" "on_secondary cfg (cms (world p)) r"
      "cms (world p') = cms (world p)" "deps (world p') = deps (world p)" "logs p' = logs p"
  | (dry) "led' = led\<lparr>pending := pending led + 1\<rparr>" "cfg_dry_run cfg"
      "\<not> on_secondary cfg (cms (world p)) r"
      "cms (world p') = cms (world p)" "deps (world p') = deps (world p)" "logs p' = logs p"
  | (update_failed) c e where
      "led' = fail_cm r (UpdateConfigMapFailed r e) (led\<lparr>pending := pending led + 1\<rparr>)"
      "\<not> cfg_dry_run cfg" "cms (world p) (ref_key r) = Some c" "\<not> on_secondary cfg (cms (world p)) r"
      "stored_cm (ref_key r) (set_cm cfg c) (cms (world p)) (cms (world p')) \<or>
         cms (world p') = cms (world p)"
      "deps (world p') = deps (world p)"
  | (patched) c where
      "led' = led\<lparr>pending := pending led + 1, patched_ns := add_key (ref_namespace r) (patched_ns led)\<rparr>"
      "\<not> cfg_dry_run cfg" "cms (world p) (ref_key r) = Some c" "\<not> on_secondary cfg (cms (world p)) r"
      "stored_cm (ref_key r) (set_cm cfg c) (cms (world p)) (cms (world p'))"
      "deps (world p') = deps (world p)"
proof -
  obtain g p1 where g: "outside (get_cm api (ref_namespace r) (ref_name r)) p = (g, p1)" by force
  note gdoc = get_cm_doc[OF doc g]
  have l1: "logs p1 = logs p" using g by (auto simp: outside_eq)
  show thesis
  proof (cases g)
    case (Inl e)
    then show ?thesis using step g gdoc(1,2) l1 by (intro get_failed) (auto simp: patch_one_def)
  next
    case (Inr c)
    with gdoc(3) have c: "cms (world p) (ref_key r) = Some c" "cm_name c = ref_name r"
      by (auto simp: ref_key_def)
    show ?thesis
    proof (cases "key_of (cm_data c) (cfg_key cfg) = cfg_secondary cfg")
      case True
      then show ?thesis
        using step g Inr gdoc(1,2) c l1 by (intro settled) (auto simp: patch_one_def on_secondary_def)
    next
      case False
      then have ns: "\<not> on_secondary cfg (cms (world p)) r" using c by (simp add: on_secondary_def)
      show ?thesis
      proof (cases "cfg_dry_run cfg")
        case True
        then show ?thesis
          using step g Inr gdoc(1,2) ns False l1 by (intro dry) (auto simp: patch_one_def)
      next
        case live: False
        obtain u p2 where u: "outside (update_cm api (ref_namespace r) (set_cm cfg c)) p1 = (u, p2)" by force
        note udoc = update_cm_doc[OF doc u, unfolded gdoc set_cm_simps c(2)]
        show ?thesis
        proof (cases u)
          case (Inl e)
          then show ?thesis
            using step g Inr False live u udoc ns c
            by (intro update_failed[of e c]) (auto simp: patch_one_def set_cm_def ref_key_def)
        next
          case (Inr c')
          then show ?thesis
            using step g \<open>g = Inr c\<close> False live u udoc ns c
            by (intro patched[of c]) (auto simp: patch_one_def set_cm_def ref_key_def)
        qed
      qed
    qed
  qed
qed

section \<open>One roll\<close>

lemma roll_one_cases:
  assumes doc: "api_documented api cms deps"
    and step: "roll_one api cfg led stamp r (k, es) p = ((k', es'), p')"
  obtains
    (skipped) "ref_namespace r \<in> set (failed_ns led)" "k' = k" "es' = es"
      "cms (world p') = cms (world p)" "deps (world p') = deps (world p)"
  | (get_failed) e where "ref_namespace r \<notin> set (failed_ns led)" "k' = k"
      "es' = es @ [GetDeploymentFailed r e]"
      "cms (world p') = cms (world p)" "deps (world p') = deps (world p)"
  | (settled) "ref_namespace r \<notin> set (failed_ns led)" "ref_namespace r \<notin> set (patched_ns led)"
      "stamped cfg (deps (world p)) r" "k' = k" "es' = es"
      "cms (world p') = cms (world p)" "deps (world p') = deps (world p)"
  | (update_failed) d e where "ref_namespace r \<notin> set (failed_ns led)" "k' = k"
      "ref_namespace r \<in> set (patched_ns led) \<or> \<not> stamped cfg (deps (world p)) r"
      "es' = es @ [RollDeploymentFailed r e]" "deps (world p) (ref_key r) = Some d"
      "cms (world p') = cms (world p)"
      "stored_dep (ref_key r) (set_dep cfg stamp d) (deps (world p)) (deps (world p')) \<or>
         deps (world p') = deps (world p)"
  | (rolled) d where "ref_namespace r \<notin> set (failed_ns led)" "k' = k + 1" "es' = es"
      "ref_namespace r \<in> set (patched_ns led) \<or> \<not> stamped cfg (deps (world p)) r"
      "deps (world p) (ref_key r) = Some d" "cms (world p') = cms (world p)"
      "stored_dep (ref_key r) (set_dep cfg stamp d) (deps (world p)) (deps (world p'))"
proof (cases "ref_namespace r \<in> set (failed_ns led)")
  case True
  then show thesis using step by (intro skipped) (auto simp: roll_one_def)
next
  case live: False
  obtain g p1 where g: "outside (get_dep api (ref_namespace r) (ref_name r)) p = (g, p1)" by force
  note gdoc = get_dep_doc[OF doc g]
  show thesis
  proof (cases g)
    case (Inl e)
    then show ?thesis
      using step g gdoc(1,2) live by (intro get_failed) (auto simp: roll_one_def)
  next
    case (Inr d)
    with gdoc(3) have d: "deps (world p) (ref_key r) = Some d" "dep_name d = ref_name r"
      by (auto simp: ref_key_def)
    show ?thesis
    proof (cases "ref_namespace r \<notin> set (patched_ns led) \<and>
        key_of (dep_annotations d) ann_switched_to = cfg_secondary cfg")
      case True
      then show ?thesis
        using step g Inr gdoc(1,2) d live
        by (intro settled) (auto simp: roll_one_def stamped_def stamp_of_def)
    next
      case False
      then have due: "ref_namespace r \<in> set (patched_ns led) \<or> \<not> stamped cfg (deps (world p)) r"
        using d by (auto simp: stamped_def stamp_of_def)
      obtain u p2 where u: "outside (update_dep api (ref_namespace r) (set_dep cfg stamp d)) p1 = (u, p2)"
        by force
      note udoc = update_dep_doc[OF doc u, unfolded gdoc set_dep_simps d(2)]
      show ?thesis
      proof (cases u)
        case (Inl e)
        then show ?thesis
          using step g Inr False live u udoc d due
          by (intro update_failed[where d = d and e = e]) (auto simp: roll_one_def set_dep_def ref_key_def split: if_splits)
      next
        case (Inr d')
        then show ?thesis
          using step g \<open>g = Inr d\<close> False live u udoc d due
          by (intro rolled[where d = d]) (auto simp: roll_one_def set_dep_def ref_key_def split: if_splits)
      qed
    qed
  qed
qed

section \<open>The patch phase\<close>

definition cm_errors :: "ref \<Rightarrow> switch_error list \<Rightarrow> bool" where
  "cm_errors r es \<longleftrightarrow> (\<exists>e. GetConfigMapFailed r e \<in> set es \<or> UpdateConfigMapFailed r e \<in> set es)"

text \<open>A ConfigMap is touched at most by rewriting the configured key.\<close>

definition same_but_key :: "actuator_config \<Rightarrow> configmap option \<Rightarrow> configmap option \<Rightarrow> bool" where
  "same_but_key cfg x y \<longleftrightarrow>
     rel_option (\<lambda>c c'. cm_name c' = cm_name c \<and>
        (\<forall>k. k \<noteq> cfg_key cfg \<longrightarrow> key_of (cm_data c') k = key_of (cm_data c) k)) x y"

lemma same_but_key_refl [simp]: "same_but_key cfg x x"
  by (cases x) (auto simp: same_but_key_def)

lemma same_but_key_Some:
  "same_but_key cfg (Some c) (Some c') \<longleftrightarrow> cm_name c' = cm_name c \<and>
     (\<forall>k. k \<noteq> cfg_key cfg \<longrightarrow> key_of (cm_data c') k = key_of (cm_data c) k)"
  by (simp add: same_but_key_def)

lemma same_but_key_trans: "same_but_key cfg x y \<Longrightarrow> same_but_key cfg y z \<Longrightarrow> same_but_key cfg x z"
  by (cases x; cases y; cases z) (auto simp: same_but_key_def)

lemma stored_set_cm:
  assumes "stored_cm (ref_key r) (set_cm cfg c) m m'" "m (ref_key r) = Some c"
  shows "on_secondary cfg m' r" "k \<noteq> ref_key r \<Longrightarrow> m' k = m k" "same_but_key cfg (m k) (m' k)"
    "on_secondary cfg m r' \<Longrightarrow> on_secondary cfg m' r'"
  using assms by (auto simp: stored_cm_def on_secondary_def same_but_key_Some)

text \<open>What one iteration, and so the whole loop, relates: ledger and ConfigMaps before and after.\<close>

definition patch_rel ::
  "actuator_config \<Rightarrow> ref list \<Rightarrow> patch_ledger \<Rightarrow> (obj_key \<Rightarrow> configmap option) \<Rightarrow>
   patch_ledger \<Rightarrow> (obj_key \<Rightarrow> configmap option) \<Rightarrow> bool" where
  "patch_rel cfg rs led m led' m' \<longleftrightarrow>
     set (errs led) \<subseteq> set (errs led') \<and>
     set (patched_ns led) \<subseteq> set (patched_ns led') \<and>
     set (failed_ns led) \<subseteq> set (failed_ns led') \<and>
     pending led \<le> pending led' \<and>
     (\<forall>r. on_secondary cfg m r \<longrightarrow> on_secondary cfg m' r) \<and>
     (\<forall>k. k \<notin> ref_key ` set rs \<longrightarrow> m' k = m k) \<and>
     (\<forall>k. same_but_key cfg (m k) (m' k)) \<and>
     (pending led' = pending led \<longrightarrow> m' = m \<and> patched_ns led' = patched_ns led) \<and>
     (pending led < pending led' \<longrightarrow> (\<exists>r \<in> set rs. \<not> on_secondary cfg m r)) \<and>
     (cfg_dry_run cfg \<longrightarrow> m' = m) \<and>
     (\<forall>r \<in> set rs. \<not> cfg_dry_run cfg \<longrightarrow> on_secondary cfg m' r \<or> cm_errors r (errs led')) \<and>
     (\<forall>r \<in> set rs. \<not> cfg_dry_run cfg \<longrightarrow> on_secondary cfg m r \<or>
        ref_namespace r \<in> set (patched_ns led') \<union> set (failed_ns led')) \<and>
     (\<forall>e \<in> set (errs led'). e \<in> set (errs led) \<or>
        (\<exists>r \<in> set rs. \<exists>t. e = GetConfigMapFailed r t \<or> e = UpdateConfigMapFailed r t))"

text \<open>The failed namespaces are those of the ConfigMaps with an error.\<close>

definition ledger_ok :: "patch_ledger \<Rightarrow> bool" where
  "ledger_ok led \<longleftrightarrow> (\<forall>ns. ns \<in> set (failed_ns led) \<longleftrightarrow>
     (\<exists>r. ref_namespace r = ns \<and> cm_errors r (errs led)))"

lemma fail_cm_simps [simp]:
  "errs (fail_cm r e led) = errs led @ [e]"
  "set (failed_ns (fail_cm r e led)) = insert (ref_namespace r) (set (failed_ns led))"
  "patched_ns (fail_cm r e led) = patched_ns led"
  "pending (fail_cm r e led) = pending led"
  by (simp_all add: fail_cm_def)

lemma cm_errors_append [simp]:
  "cm_errors r (es @ [GetConfigMapFailed r' t]) \<longleftrightarrow> cm_errors r es \<or> r = r'"
  "cm_errors r (es @ [UpdateConfigMapFailed r' t]) \<longleftrightarrow> cm_errors r es \<or> r = r'"
  by (auto simp: cm_errors_def)

lemma patch_one_rel:
  assumes doc: "api_documented api cms deps" and step: "patch_one api cfg r led p = (led', p')"
  shows "deps (world p') = deps (world p) \<and>
     patch_rel cfg [r] led (cms (world p)) led' (cms (world p'))"
  using assms
proof (cases rule: patch_one_cases)
  case (update_failed c e)
  then show ?thesis
    using stored_set_cm[of r cfg c "cms (world p)" "cms (world p')"]
    by (auto simp: patch_rel_def)
next
  case (patched c)
  then show ?thesis
    using stored_set_cm[of r cfg c "cms (world p)" "cms (world p')"]
    by (auto simp: patch_rel_def)
qed (auto simp: patch_rel_def)

lemma cm_errors_mono: "set es \<subseteq> set es' \<Longrightarrow> cm_errors r es \<Longrightarrow> cm_errors r es'"
  by (auto simp: cm_errors_def)

lemma on_secondary_key: "ref_key r = ref_key r' \<Longrightarrow> on_secondary cfg m r = on_secondary cfg m r'"
  by (simp add: on_secondary_def)

lemma patch_rel_refl: "patch_rel cfg [] led m led m"
  by (auto simp: patch_rel_def)

lemma patch_rel_frame:
  "patch_rel cfg rs l m l' m' \<Longrightarrow> k \<notin> ref_key ` set rs \<Longrightarrow> m' k = m k"
  unfolding patch_rel_def by blast

lemma patch_rel_late:
  "patch_rel cfg rs l m l' m' \<Longrightarrow> r \<in> set rs \<Longrightarrow> \<not> cfg_dry_run cfg \<Longrightarrow> \<not> on_secondary cfg m r \<Longrightarrow>
   ref_namespace r \<in> set (patched_ns l') \<union> set (failed_ns l')"
  unfolding patch_rel_def by blast

lemma patch_rel_mono:
  assumes "patch_rel cfg rs l m l' m'"
  shows "set (patched_ns l) \<subseteq> set (patched_ns l')" "set (failed_ns l) \<subseteq> set (failed_ns l')"
    "set (errs l) \<subseteq> set (errs l')" "pending l \<le> pending l'"
    "on_secondary cfg m r \<Longrightarrow> on_secondary cfg m' r"
  using assms by (auto simp: patch_rel_def)

lemma patch_rel_done:
  "patch_rel cfg rs l m l' m' \<Longrightarrow> r \<in> set rs \<Longrightarrow> \<not> cfg_dry_run cfg \<Longrightarrow>
   on_secondary cfg m' r \<or> cm_errors r (errs l')"
  unfolding patch_rel_def by blast

lemma patch_rel_quiet:
  "patch_rel cfg rs l m l' m' \<Longrightarrow> pending l' = pending l \<Longrightarrow> m' = m \<and> patched_ns l' = patched_ns l"
  "patch_rel cfg rs l m l' m' \<Longrightarrow> cfg_dry_run cfg \<Longrightarrow> m' = m"
  unfolding patch_rel_def by blast+

lemma patch_rel_keys: "patch_rel cfg rs l m l' m' \<Longrightarrow> same_but_key cfg (m k) (m' k)"
  unfolding patch_rel_def by blast

lemma patch_rel_errs:
  "patch_rel cfg rs l m l' m' \<Longrightarrow> e \<in> set (errs l') \<Longrightarrow> e \<notin> set (errs l) \<Longrightarrow>
   \<exists>r \<in> set rs. \<exists>t. e = GetConfigMapFailed r t \<or> e = UpdateConfigMapFailed r t"
  unfolding patch_rel_def by blast

lemma patch_rel_pending:
  "patch_rel cfg rs l m l' m' \<Longrightarrow> pending l < pending l' \<Longrightarrow> \<exists>r \<in> set rs. \<not> on_secondary cfg m r"
  unfolding patch_rel_def by blast

lemma patch_rel_late_trans:
  assumes a: "patch_rel cfg [r] l0 m0 l1 m1" and b: "patch_rel cfg rs l1 m1 l2 m2"
    and r': "r' \<in> set (r # rs)" and live: "\<not> cfg_dry_run cfg" and ns: "\<not> on_secondary cfg m0 r'"
  shows "ref_namespace r' \<in> set (patched_ns l2) \<union> set (failed_ns l2)"
proof (cases "on_secondary cfg m1 r' \<or> r' = r")
  case True
  have "ref_key r' = ref_key r"
  proof (rule ccontr)
    assume neq: "ref_key r' \<noteq> ref_key r"
    then have "m1 (ref_key r') = m0 (ref_key r')" using patch_rel_frame[OF a] by simp
    then have "on_secondary cfg m1 r' = on_secondary cfg m0 r'" by (simp add: on_secondary_def)
    with True ns neq show False by auto
  qed
  then have "\<not> on_secondary cfg m0 r" "ref_namespace r' = ref_namespace r"
    using ns on_secondary_key[of r r'] by (auto simp: ref_key_def)
  then show ?thesis
    using patch_rel_late[OF a, of r] live patch_rel_mono(1,2)[OF b] by auto
next
  case False
  then show ?thesis using r' live patch_rel_late[OF b, of r'] by auto
qed

lemma patch_rel_trans:
  assumes a: "patch_rel cfg [r] l0 m0 l1 m1" and b: "patch_rel cfg rs l1 m1 l2 m2"
  shows "patch_rel cfg (r # rs) l0 m0 l2 m2"
  unfolding patch_rel_def
proof (intro conjI allI ballI impI)
  show "m2 = m0" if "pending l2 = pending l0"
    using that patch_rel_mono(4)[OF a] patch_rel_mono(4)[OF b] patch_rel_quiet(1)[OF a] patch_rel_quiet(1)[OF b]
    by simp
  show "patched_ns l2 = patched_ns l0" if "pending l2 = pending l0"
    using that patch_rel_mono(4)[OF a] patch_rel_mono(4)[OF b] patch_rel_quiet(1)[OF a] patch_rel_quiet(1)[OF b]
    by simp
  show "\<exists>r' \<in> set (r # rs). \<not> on_secondary cfg m0 r'" if "pending l0 < pending l2"
    using that patch_rel_pending[OF a] patch_rel_pending[OF b] patch_rel_mono(5)[OF a]
    by (cases "pending l0 < pending l1") auto
  show "m2 = m0" if "cfg_dry_run cfg"
    using that patch_rel_quiet(2)[OF a] patch_rel_quiet(2)[OF b] by simp
  show "m2 k = m0 k" if "k \<notin> ref_key ` set (r # rs)" for k
    using that patch_rel_frame[OF a, of k] patch_rel_frame[OF b, of k] by simp
  show "same_but_key cfg (m0 k) (m2 k)" for k
    using patch_rel_keys[OF a] patch_rel_keys[OF b] by (rule same_but_key_trans)
  show "on_secondary cfg m2 r' \<or> cm_errors r' (errs l2)"
    if "r' \<in> set (r # rs)" "\<not> cfg_dry_run cfg" for r'
    using that patch_rel_done[OF a, of r'] patch_rel_done[OF b, of r'] patch_rel_mono(5)[OF b]
      cm_errors_mono[OF patch_rel_mono(3)[OF b]] by auto
  show "on_secondary cfg m0 r' \<or> ref_namespace r' \<in> set (patched_ns l2) \<union> set (failed_ns l2)"
    if "r' \<in> set (r # rs)" "\<not> cfg_dry_run cfg" for r'
    using patch_rel_late_trans[OF a b that] by blast
  show "e \<in> set (errs l0) \<or> (\<exists>r' \<in> set (r # rs). \<exists>t. e = GetConfigMapFailed r' t \<or> e = UpdateConfigMapFailed r' t)"
    if "e \<in> set (errs l2)" for e
    using that patch_rel_errs[OF a, of e] patch_rel_errs[OF b, of e] by auto
qed (use patch_rel_mono[OF a] patch_rel_mono[OF b] in auto)

lemma patch_configmaps_rel:
  assumes doc: "api_documented api cms deps"
    and run: "patch_configmaps api cfg rs led p = (led', p')"
  shows "deps (world p') = deps (world p) \<and>
     patch_rel cfg rs led (cms (world p)) led' (cms (world p'))"
  using run
proof (induction rs arbitrary: led p)
  case Nil
  then show ?case by (simp add: patch_rel_refl)
next
  case (Cons r rs)
  obtain led1 p1 where one: "patch_one api cfg r led p = (led1, p1)" by force
  then have "patch_configmaps api cfg rs led1 p1 = (led', p')" using Cons.prems by simp
  then have "deps (world p') = deps (world p1) \<and>
      patch_rel cfg rs led1 (cms (world p1)) led' (cms (world p'))" by (rule Cons.IH)
  moreover have "deps (world p1) = deps (world p) \<and>
      patch_rel cfg [r] led (cms (world p)) led1 (cms (world p1))"
    using doc one by (rule patch_one_rel)
  ultimately show ?case by (auto intro: patch_rel_trans)
qed

lemma patch_one_ledger_ok:
  assumes "ledger_ok led" and "patch_one api cfg r led p = (led', p')"
  shows "ledger_ok led'"
  using assms
  by (auto simp: patch_one_def ledger_ok_def Let_def split: prod.splits sum.splits if_splits)

lemma patch_configmaps_ledger_ok:
  "ledger_ok led \<Longrightarrow> patch_configmaps api cfg rs led p = (led', p') \<Longrightarrow> ledger_ok led'"
  by (induction rs arbitrary: led p) (auto split: prod.splits dest: patch_one_ledger_ok)

section \<open>The roll phase\<close>

definition dep_errors :: "ref \<Rightarrow> switch_error list \<Rightarrow> bool" where
  "dep_errors r es \<longleftrightarrow> (\<exists>e. GetDeploymentFailed r e \<in> set es \<or> RollDeploymentFailed r e \<in> set es)"

text \<open>A Deployment is left alone or stamped with the secondary at the instant of the call.\<close>

definition dep_change ::
  "actuator_config \<Rightarrow> gostring \<Rightarrow> deployment option \<Rightarrow> deployment option \<Rightarrow> bool" where
  "dep_change cfg now x y \<longleftrightarrow> y = x \<or>
     (\<exists>d d'. x = Some d \<and> y = Some d' \<and> dep_name d' = dep_name d \<and>
        stamp_of d' = cfg_secondary cfg \<and> restarted_at d' = now)"

lemma dep_change_trans: "dep_change cfg now x y \<Longrightarrow> dep_change cfg now y z \<Longrightarrow> dep_change cfg now x z"
  by (cases x; cases y; cases z) (auto simp: dep_change_def)

text \<open>What the roll loop relates: count, errors and Deployments before and after.\<close>

definition roll_rel ::
  "actuator_config \<Rightarrow> patch_ledger \<Rightarrow> gostring \<Rightarrow> ref list \<Rightarrow>
   nat \<times> switch_error list \<Rightarrow> (obj_key \<Rightarrow> deployment option) \<Rightarrow>
   nat \<times> switch_error list \<Rightarrow> (obj_key \<Rightarrow> deployment option) \<Rightarrow> bool" where
  "roll_rel cfg led now rs acc m acc' m' \<longleftrightarrow>
     fst acc \<le> fst acc' \<and> (\<exists>xs. snd acc' = snd acc @ xs) \<and>
     (\<forall>k. k \<notin> ref_key ` set rs \<or> fst k \<in> set (failed_ns led) \<longrightarrow> m' k = m k) \<and>
     (\<forall>k. dep_change cfg now (m k) (m' k)) \<and>
     (\<forall>r \<in> set rs. ref_namespace r \<notin> set (failed_ns led) \<longrightarrow>
        stamped cfg m' r \<or> dep_errors r (snd acc')) \<and>
     (\<forall>r \<in> set rs. ref_namespace r \<notin> set (failed_ns led) \<and>
        (ref_namespace r \<in> set (patched_ns led) \<or> \<not> stamped cfg m r) \<longrightarrow>
        rolled_now cfg now m' r \<or> dep_errors r (snd acc')) \<and>
     (acc' = acc \<longrightarrow> m' = m) \<and>
     ((\<forall>r \<in> set rs. stamped cfg m r) \<and> set (patched_ns led) = {} \<longrightarrow> m' = m) \<and>
     (\<forall>e \<in> set (snd acc'). e \<in> set (snd acc) \<or>
        (\<exists>r \<in> set rs. \<exists>t. e = GetDeploymentFailed r t \<or> e = RollDeploymentFailed r t))"

lemma stored_set_dep:
  assumes "stored_dep (ref_key r) (set_dep cfg now d) m m'" "m (ref_key r) = Some d"
  shows "k \<noteq> ref_key r \<Longrightarrow> m' k = m k" "rolled_now cfg now m' r"
    "\<exists>d'. m' (ref_key r) = Some d' \<and> dep_name d' = dep_name d \<and>
       stamp_of d' = cfg_secondary cfg \<and> restarted_at d' = now"
  using assms by (auto simp: stored_dep_def rolled_now_def)

lemma dep_errors_append [simp]:
  "dep_errors r (es @ [GetDeploymentFailed r' t]) \<longleftrightarrow> dep_errors r es \<or> r = r'"
  "dep_errors r (es @ [RollDeploymentFailed r' t]) \<longleftrightarrow> dep_errors r es \<or> r = r'"
  by (auto simp: dep_errors_def)

lemma rolled_now_stamped: "rolled_now cfg now m r \<Longrightarrow> stamped cfg m r"
  by (auto simp: rolled_now_def stamped_def)

text \<open>A roll that reached the update: the Deployment was due, and at worst the write was refused.\<close>

lemma roll_rel_touch:
  assumes "ref_namespace r \<notin> set (failed_ns led)"
    and due: "ref_namespace r \<in> set (patched_ns led) \<or> \<not> stamped cfg m r"
    and m: "m (ref_key r) = Some d"
    and acc: "acc' = (fst acc + 1, snd acc) \<and> stored_dep (ref_key r) (set_dep cfg now d) m m' \<or>
       acc' = (fst acc, snd acc @ [RollDeploymentFailed r e]) \<and>
         (stored_dep (ref_key r) (set_dep cfg now d) m m' \<or> m' = m)"
  shows "roll_rel cfg led now [r] acc m acc' m'"
proof -
  note touched = stored_set_dep[where r = r and d = d and m = m and m' = m' and now = now and cfg = cfg,
      OF _ m]
  have st: "m' = m \<or> (\<forall>k. k \<noteq> ref_key r \<longrightarrow> m' k = m k) \<and> rolled_now cfg now m' r \<and>
      (\<exists>d'. m' (ref_key r) = Some d' \<and> dep_name d' = dep_name d \<and>
         stamp_of d' = cfg_secondary cfg \<and> restarted_at d' = now)"
    using acc touched by blast
  have re: "rolled_now cfg now m' r \<or> dep_errors r (snd acc')"
    using acc touched(2) due by auto
  show ?thesis
    unfolding roll_rel_def
  proof (intro conjI allI ballI impI)
    show "m' k = m k" if "k \<notin> ref_key ` set [r] \<or> fst k \<in> set (failed_ns led)" for k
    proof -
      have "k \<noteq> ref_key r" using that assms(1) by (auto simp: ref_key_def)
      with st show ?thesis by blast
    qed
    show "dep_change cfg now (m k) (m' k)" for k
    proof (cases "k = ref_key r")
      case True
      with st m show ?thesis by (auto simp: dep_change_def)
    next
      case False
      with st show ?thesis unfolding dep_change_def by blast
    qed
    show "stamped cfg m' r' \<or> dep_errors r' (snd acc')" if "r' \<in> set [r]" for r'
      using that re rolled_now_stamped by auto
    show "m' = m" if "(\<forall>r' \<in> set [r]. stamped cfg m r') \<and> set (patched_ns led) = {}"
      using that due by auto
    show "m' = m" if "acc' = acc"
      using that acc by (cases acc) auto
  qed (use acc re in auto)
qed

lemma roll_one_rel:
  assumes doc: "api_documented api cms deps"
    and step: "roll_one api cfg led now r acc p = (acc', p')"
  shows "cms (world p') = cms (world p) \<and>
     roll_rel cfg led now [r] acc (deps (world p)) acc' (deps (world p'))"
proof -
  obtain k es k' es' where acc: "acc = (k, es)" "acc' = (k', es')" by (cases acc; cases acc') auto
  from doc step[unfolded acc] show ?thesis
  proof (cases rule: roll_one_cases)
    case skipped
    then show ?thesis by (auto simp: roll_rel_def dep_change_def acc)
  next
    case (get_failed e)
    then show ?thesis by (auto simp: roll_rel_def dep_change_def acc)
  next
    case settled
    then show ?thesis by (auto simp: roll_rel_def dep_change_def acc)
  next
    case (update_failed d e)
    then show ?thesis by (auto simp: acc intro!: roll_rel_touch[where e = e])
  next
    case (rolled d)
    then show ?thesis by (auto simp: acc intro!: roll_rel_touch[where e = "[]"])
  qed
qed

lemma roll_rel_refl: "roll_rel cfg led now [] acc m acc m"
  by (auto simp: roll_rel_def dep_change_def)

lemma roll_rel_frame:
  "roll_rel cfg led now rs acc m acc' m' \<Longrightarrow> k \<notin> ref_key ` set rs \<or> fst k \<in> set (failed_ns led) \<Longrightarrow> m' k = m k"
  unfolding roll_rel_def by blast

lemma roll_rel_change:
  "roll_rel cfg led now rs acc m acc' m' \<Longrightarrow> dep_change cfg now (m k) (m' k)"
  unfolding roll_rel_def by blast

lemma roll_rel_acc:
  assumes "roll_rel cfg led now rs acc m acc' m'"
  shows "fst acc \<le> fst acc'" "\<exists>xs. snd acc' = snd acc @ xs" "acc' = acc \<Longrightarrow> m' = m"
    "dep_errors r (snd acc) \<Longrightarrow> dep_errors r (snd acc')"
  using assms by (auto simp: roll_rel_def dep_errors_def)

lemma roll_rel_due:
  "roll_rel cfg led now rs acc m acc' m' \<Longrightarrow> r \<in> set rs \<Longrightarrow> ref_namespace r \<notin> set (failed_ns led) \<Longrightarrow>
   ref_namespace r \<in> set (patched_ns led) \<or> \<not> stamped cfg m r \<Longrightarrow>
   rolled_now cfg now m' r \<or> dep_errors r (snd acc')"
  unfolding roll_rel_def by blast

lemma roll_rel_stamped:
  "roll_rel cfg led now rs acc m acc' m' \<Longrightarrow> r \<in> set rs \<Longrightarrow> ref_namespace r \<notin> set (failed_ns led) \<Longrightarrow>
   stamped cfg m' r \<or> dep_errors r (snd acc')"
  unfolding roll_rel_def by blast

lemma roll_rel_idle:
  "roll_rel cfg led now rs acc m acc' m' \<Longrightarrow> \<forall>r \<in> set rs. stamped cfg m r \<Longrightarrow>
   set (patched_ns led) = {} \<Longrightarrow> m' = m"
  unfolding roll_rel_def by blast

lemma roll_rel_errs:
  "roll_rel cfg led now rs acc m acc' m' \<Longrightarrow> e \<in> set (snd acc') \<Longrightarrow> e \<in> set (snd acc) \<or>
   (\<exists>r \<in> set rs. \<exists>t. e = GetDeploymentFailed r t \<or> e = RollDeploymentFailed r t)"
  unfolding roll_rel_def by blast

lemma roll_rel_keeps:
  assumes "roll_rel cfg led now rs acc m acc' m'"
  shows "rolled_now cfg now m r \<Longrightarrow> rolled_now cfg now m' r"
    "stamped cfg m r \<Longrightarrow> stamped cfg m' r"
    "stamped cfg m' r \<Longrightarrow> stamped cfg m r \<or> rolled_now cfg now m' r"
  using roll_rel_change[OF assms, of "ref_key r"]
  by (auto simp: rolled_now_def stamped_def dep_change_def)

lemma roll_rel_trans:
  assumes a: "roll_rel cfg led now [r] a0 m0 a1 m1" and b: "roll_rel cfg led now rs a1 m1 a2 m2"
  shows "roll_rel cfg led now (r # rs) a0 m0 a2 m2"
  unfolding roll_rel_def
proof (intro conjI allI ballI impI)
  show "fst a0 \<le> fst a2" using roll_rel_acc(1)[OF a] roll_rel_acc(1)[OF b] by simp
  show "\<exists>xs. snd a2 = snd a0 @ xs" using roll_rel_acc(2)[OF a] roll_rel_acc(2)[OF b] by auto
  show "m2 k = m0 k" if "k \<notin> ref_key ` set (r # rs) \<or> fst k \<in> set (failed_ns led)" for k
  proof -
    have "k \<notin> ref_key ` set [r] \<or> fst k \<in> set (failed_ns led)"
      "k \<notin> ref_key ` set rs \<or> fst k \<in> set (failed_ns led)" using that by auto
    then show ?thesis using roll_rel_frame[OF a] roll_rel_frame[OF b] by simp
  qed
  show "dep_change cfg now (m0 k) (m2 k)" for k
    using roll_rel_change[OF a] roll_rel_change[OF b] by (rule dep_change_trans)
  show "stamped cfg m2 r' \<or> dep_errors r' (snd a2)"
    if "r' \<in> set (r # rs)" "ref_namespace r' \<notin> set (failed_ns led)" for r'
    using that roll_rel_stamped[OF a, of r'] roll_rel_stamped[OF b, of r'] roll_rel_keeps(2)[OF b, of r']
      roll_rel_acc(4)[OF b, of r'] by auto
  show "rolled_now cfg now m2 r' \<or> dep_errors r' (snd a2)"
    if "r' \<in> set (r # rs)" and "ref_namespace r' \<notin> set (failed_ns led) \<and>
      (ref_namespace r' \<in> set (patched_ns led) \<or> \<not> stamped cfg m0 r')" for r'
    using that roll_rel_due[OF a, of r'] roll_rel_due[OF b, of r'] roll_rel_keeps(1)[OF b, of r']
      roll_rel_keeps(3)[OF a, of r'] roll_rel_acc(4)[OF b, of r'] by auto
  show "m2 = m0" if "a2 = a0"
  proof -
    have "a1 = a0"
      using that roll_rel_acc(1,2)[OF a] roll_rel_acc(1,2)[OF b] by (auto intro!: prod_eqI)
    with that show ?thesis using roll_rel_acc(3)[OF a] roll_rel_acc(3)[OF b] by simp
  qed
  show "m2 = m0" if "(\<forall>r' \<in> set (r # rs). stamped cfg m0 r') \<and> set (patched_ns led) = {}"
    using that roll_rel_idle[OF a] roll_rel_idle[OF b] by auto
  show "e \<in> set (snd a0) \<or>
      (\<exists>r' \<in> set (r # rs). \<exists>t. e = GetDeploymentFailed r' t \<or> e = RollDeploymentFailed r' t)"
    if "e \<in> set (snd a2)" for e
    using that roll_rel_errs[OF a, of e] roll_rel_errs[OF b, of e] by auto
qed

lemma roll_deployments_rel:
  assumes doc: "api_documented api cms deps"
    and run: "roll_deployments api cfg led now rs acc p = (acc', p')"
  shows "cms (world p') = cms (world p) \<and>
     roll_rel cfg led now rs acc (deps (world p)) acc' (deps (world p'))"
  using run
proof (induction rs arbitrary: acc p)
  case Nil
  then show ?case by (simp add: roll_rel_refl)
next
  case (Cons r rs)
  obtain acc1 p1 where one: "roll_one api cfg led now r acc p = (acc1, p1)"
    by (cases "roll_one api cfg led now r acc p") auto
  then have "roll_deployments api cfg led now rs acc1 p1 = (acc', p')" using Cons.prems by simp
  then have "cms (world p') = cms (world p1) \<and>
      roll_rel cfg led now rs acc1 (deps (world p1)) acc' (deps (world p'))" by (rule Cons.IH)
  moreover have "cms (world p1) = cms (world p) \<and>
      roll_rel cfg led now [r] acc (deps (world p)) acc1 (deps (world p1))"
    using doc one by (rule roll_one_rel)
  ultimately show ?case by (auto intro: roll_rel_trans)
qed

end
