(* ===== verification/K8s_Switch.thy ===== *)
theory K8s_Switch
  imports K8s_Laws
begin

text \<open>
  The properties of \<open>K8sActuator.Switch\<close> as a whole, over any API that behaves as documented, and
  the \<open>Actuator\<close> interface. The last section holds a small in-memory cluster that satisfies the
  documented behaviour, for the witnesses, with a list of calls it refuses.
\<close>

section \<open>The outcomes of a switch\<close>

lemma ledger_ok_empty: "ledger_ok empty_ledger"
  by (simp add: ledger_ok_def empty_ledger_def cm_errors_def)

lemma k8s_switch_cases:
  assumes doc: "api_documented api cms deps" and run: "k8s_switch api cfg now p = ((sw, err), p')"
  obtains
    (unconfigured) "cfg_configmaps cfg = []" "\<not> sw" "err = Some [NoConfigMapConfigured]" "p' = p"
  | (dry) led where "cfg_configmaps cfg \<noteq> []" "cfg_dry_run cfg"
      "patch_rel cfg (cfg_configmaps cfg) empty_ledger (cms (world p)) led (cms (world p'))"
      "deps (world p') = deps (world p)" "ledger_ok led"
      "sw \<longleftrightarrow> pending led > 0" "err = join_errors (errs led)"
  | (live) led rolled res where "cfg_configmaps cfg \<noteq> []" "\<not> cfg_dry_run cfg"
      "patch_rel cfg (cfg_configmaps cfg) empty_ledger (cms (world p)) led (cms (world p'))"
      "roll_rel cfg led now (cfg_deployments cfg) (0, []) (deps (world p)) (rolled, res) (deps (world p'))"
      "ledger_ok led" "err = join_errors (errs led @ res)" "sw \<longleftrightarrow> err = None \<and> pending led > 0"
proof (cases "cfg_configmaps cfg = []")
  case True
  then show thesis using run by (intro unconfigured) (auto simp: k8s_switch_def)
next
  case False
  obtain led p1 where patch: "patch_configmaps api cfg (cfg_configmaps cfg) empty_ledger p = (led, p1)"
    by (cases "patch_configmaps api cfg (cfg_configmaps cfg) empty_ledger p") auto
  note rel = patch_configmaps_rel[OF doc patch]
  have ok: "ledger_ok led" by (rule patch_configmaps_ledger_ok[OF ledger_ok_empty patch])
  show thesis
  proof (cases "cfg_dry_run cfg")
    case True
    then show ?thesis
      using run False patch rel ok by (intro dry[of led]) (auto simp: k8s_switch_def)
  next
    case live': False
    obtain rolled res p2 where
      roll: "roll_deployments api cfg led now (cfg_deployments cfg) (0, []) p1 = ((rolled, res), p2)"
      by (cases "roll_deployments api cfg led now (cfg_deployments cfg) (0, []) p1") auto
    have "world p' = world p2" "err = join_errors (errs led @ res)" "sw \<longleftrightarrow> err = None \<and> pending led > 0"
      using run False live' patch roll by (auto simp: k8s_switch_def Let_def split: if_splits)
    then show ?thesis
      using False live' rel ok roll_deployments_rel[OF doc roll] by (intro live) auto
  qed
qed

lemma join_errors_None [simp]: "join_errors es = None \<longleftrightarrow> es = []"
  by (simp add: join_errors_def)

lemma join_errors_Some [simp]: "join_errors es = Some es' \<longleftrightarrow> es' = es \<and> es \<noteq> []"
  by (auto simp: join_errors_def)

lemma empty_ledger_simps [simp]:
  "pending empty_ledger = 0" "errs empty_ledger = []" "patched_ns empty_ledger = []" "failed_ns empty_ledger = []"
  by (simp_all add: empty_ledger_def)

lemma no_errors_no_failed: "ledger_ok led \<Longrightarrow> errs led = [] \<Longrightarrow> set (failed_ns led) = {}"
  by (auto simp: ledger_ok_def cm_errors_def)

lemma no_cm_errors [simp]: "\<not> cm_errors r []" and no_dep_errors [simp]: "\<not> dep_errors r []"
  by (auto simp: cm_errors_def dep_errors_def)

lemma k8s_switch_dry:
  assumes "api_documented api cms deps" and "k8s_switch api cfg now p = ((sw, err), p')"
    and "cfg_dry_run cfg"
  shows "cms (world p') = cms (world p) \<and> deps (world p') = deps (world p) \<and>
     (sw \<longrightarrow> (\<exists>r \<in> set (cfg_configmaps cfg). \<not> on_secondary cfg (cms (world p)) r))"
  using assms(1,2)
proof (cases rule: k8s_switch_cases)
  case (dry led)
  then show ?thesis
    using patch_rel_pending[OF dry(3)] patch_rel_quiet(2)[OF dry(3)] assms(3) by auto
qed (use assms(3) in auto)

section \<open>Properties\<close>

text \<open>
  C3: A switch that reports no error has converged. Outside dry-run, when \<open>Switch\<close> returns a nil
  error every ConfigMap target holds the secondary connection string and every Deployment target
  carries its stamp; each Deployment was either rolled by this very call, or was already stamped in
  a namespace whose ConfigMaps were all on the secondary before it; and \<open>switched\<close> is true exactly
  when some ConfigMap was not yet on the secondary.
\<close>

theorem switch_without_error_converged:
  assumes "api_documented api cms deps"
    and "k8s_switch api cfg now p = ((sw, None), p')" and "\<not> cfg_dry_run cfg"
  shows "(\<forall>r \<in> set (cfg_configmaps cfg). on_secondary cfg (cms (world p')) r) \<and>
     (\<forall>r \<in> set (cfg_deployments cfg). stamped cfg (deps (world p')) r \<and>
        (rolled_now cfg now (deps (world p')) r \<or>
         stamped cfg (deps (world p)) r \<and>
         (\<forall>c \<in> set (cfg_configmaps cfg). ref_namespace c = ref_namespace r \<longrightarrow>
            on_secondary cfg (cms (world p)) c))) \<and>
     (sw \<longleftrightarrow> (\<exists>r \<in> set (cfg_configmaps cfg). \<not> on_secondary cfg (cms (world p)) r))"
  using assms(1,2)
proof (cases rule: k8s_switch_cases)
  case (live led rolled res)
  have "join_errors (errs led @ res) = None" using live(6) by simp
  then have e: "errs led = []" "res = []" by simp_all
  then have nf: "set (failed_ns led) = {}" using live(5) by (simp add: no_errors_no_failed)
  have cmok: "\<forall>r \<in> set (cfg_configmaps cfg). on_secondary cfg (cms (world p')) r"
    using patch_rel_done[OF live(3)] assms(3) e by auto
  have "rolled_now cfg now (deps (world p')) r \<or> stamped cfg (deps (world p)) r \<and>
      (\<forall>c \<in> set (cfg_configmaps cfg). ref_namespace c = ref_namespace r \<longrightarrow> on_secondary cfg (cms (world p)) c)"
    if r: "r \<in> set (cfg_deployments cfg)" for r
  proof (cases "ref_namespace r \<in> set (patched_ns led) \<or> \<not> stamped cfg (deps (world p)) r")
    case True
    then show ?thesis using roll_rel_due[OF live(4) r] nf e by auto
  next
    case False
    have "on_secondary cfg (cms (world p)) c"
      if "c \<in> set (cfg_configmaps cfg)" "ref_namespace c = ref_namespace r" for c
      using patch_rel_late[OF live(3) that(1) assms(3)] that(2) False nf by auto
    then show ?thesis using False by blast
  qed
  moreover have "stamped cfg (deps (world p')) r" if "r \<in> set (cfg_deployments cfg)" for r
    using roll_rel_stamped[OF live(4) that] nf e by auto
  moreover have "sw \<longleftrightarrow> (\<exists>r \<in> set (cfg_configmaps cfg). \<not> on_secondary cfg (cms (world p)) r)"
    using live(7) e patch_rel_pending[OF live(3)] patch_rel_quiet(1)[OF live(3)] cmok by auto
  ultimately show ?thesis using cmok by blast
qed (use assms(3) in auto)

lemma k8s_switch_settled:
  assumes "api_documented api cms deps" and "k8s_switch api cfg now p = ((sw, err), p')"
    and "\<forall>r \<in> set (cfg_configmaps cfg). on_secondary cfg (cms (world p)) r"
    and "\<forall>r \<in> set (cfg_deployments cfg). stamped cfg (deps (world p)) r"
  shows "\<not> sw \<and> cms (world p') = cms (world p) \<and> deps (world p') = deps (world p)"
  using assms(1,2)
proof (cases rule: k8s_switch_cases)
  case (dry led)
  then show ?thesis
    using patch_rel_pending[OF dry(3)] patch_rel_quiet(2)[OF dry(3)] assms(3) by auto
next
  case (live led rolled res)
  have "pending led = 0"
    using patch_rel_pending[OF live(3)] assms(3) by auto
  then show ?thesis
    using live(7) patch_rel_quiet(1)[OF live(3)] roll_rel_idle[OF live(4) assms(4)] by auto
qed auto

text \<open>
  C21: The switch is idempotent. Once every ConfigMap target is on the secondary and every
  Deployment target is stamped, a further \<open>Switch\<close> changes no object of the cluster and never
  reports \<open>switched\<close>, whichever reads fail.
\<close>

theorem switch_idempotent:
  assumes "api_documented api cms deps" and "k8s_switch api cfg now p = ((sw, err), p')"
    and "\<forall>r \<in> set (cfg_configmaps cfg). on_secondary cfg (cms (world p)) r"
    and "\<forall>r \<in> set (cfg_deployments cfg). stamped cfg (deps (world p)) r"
  shows "\<not> sw \<and> cms (world p') = cms (world p) \<and> deps (world p') = deps (world p)"
  using assms by (rule k8s_switch_settled)

text \<open>
  C26: A dry run changes nothing: whatever the API answers, no ConfigMap and no Deployment is
  different after it, and \<open>switched\<close> then only says that some ConfigMap is not on the secondary.
\<close>

theorem dry_run_changes_nothing:
  assumes "api_documented api cms deps" and "k8s_switch api cfg now p = ((sw, err), p')"
    and "cfg_dry_run cfg"
  shows "cms (world p') = cms (world p) \<and> deps (world p') = deps (world p) \<and>
     (sw \<longrightarrow> (\<exists>r \<in> set (cfg_configmaps cfg). \<not> on_secondary cfg (cms (world p)) r))"
  using assms by (rule k8s_switch_dry)



text \<open>
  The footprint of a switch. Whatever the API answers, an object that is not a target is
  untouched, a ConfigMap target differs at most in the configured key, and a Deployment target is
  either as it was or carries the secondary's stamp and the instant of this call.
\<close>

theorem switch_footprint:
  assumes "api_documented api cms deps" and "k8s_switch api cfg now p = (res, p')"
  shows "(k \<notin> ref_key ` set (cfg_configmaps cfg) \<longrightarrow> cms (world p') k = cms (world p) k) \<and>
     (k \<notin> ref_key ` set (cfg_deployments cfg) \<longrightarrow> deps (world p') k = deps (world p) k) \<and>
     same_but_key cfg (cms (world p) k) (cms (world p') k) \<and>
     dep_change cfg now (deps (world p) k) (deps (world p') k)"
proof -
  obtain sw err where res: "res = (sw, err)" by force
  from assms(1) assms(2)[unfolded res] show ?thesis
  proof (cases rule: k8s_switch_cases)
    case (dry led)
    then show ?thesis
      using patch_rel_frame[OF dry(3)] patch_rel_keys[OF dry(3)] by (simp add: dep_change_def)
  next
    case (live led rolled res)
    then show ?thesis
      using patch_rel_frame[OF live(3)] patch_rel_keys[OF live(3)] roll_rel_frame[OF live(4)]
        roll_rel_change[OF live(4)] by simp
  qed (simp add: dep_change_def)
qed

text \<open>
  The stamps are honest when a stamped Deployment target has every ConfigMap target of its
  namespace on the secondary: it was restarted onto the string it claims.
\<close>

definition stamps_honest ::
  "actuator_config \<Rightarrow> (obj_key \<Rightarrow> configmap option) \<Rightarrow> (obj_key \<Rightarrow> deployment option) \<Rightarrow> bool" where
  "stamps_honest cfg m d \<longleftrightarrow>
     (\<forall>r \<in> set (cfg_deployments cfg). stamped cfg d r \<longrightarrow>
        (\<forall>c \<in> set (cfg_configmaps cfg). ref_namespace c = ref_namespace r \<longrightarrow> on_secondary cfg m c))"

text \<open>
  Stamps stay honest. Whichever calls fail, a \<open>Switch\<close> never leaves a Deployment target
  stamped in a namespace one of whose ConfigMaps is not on the secondary, if it found none: so the
  later calls that skip a stamped Deployment skip only one that read the secondary.
\<close>

theorem switch_keeps_stamps_honest:
  assumes "api_documented api cms deps" and "k8s_switch api cfg now p = (res, p')"
    and "stamps_honest cfg (cms (world p)) (deps (world p))"
  shows "stamps_honest cfg (cms (world p')) (deps (world p'))"
proof -
  obtain sw err where res: "res = (sw, err)" by force
  from assms(1) assms(2)[unfolded res] show ?thesis
  proof (cases rule: k8s_switch_cases)
    case (dry led)
    then show ?thesis using patch_rel_quiet(2)[OF dry(3)] assms(3) by simp
  next
    case (live led rolled res)
    have "on_secondary cfg (cms (world p')) c"
      if r: "r \<in> set (cfg_deployments cfg)" "stamped cfg (deps (world p')) r"
        and c: "c \<in> set (cfg_configmaps cfg)" "ref_namespace c = ref_namespace r" for r c
    proof (cases "ref_namespace r \<in> set (failed_ns led)")
      case True
      then have "deps (world p') (ref_key r) = deps (world p) (ref_key r)"
        using roll_rel_frame[OF live(4), of "ref_key r"] by (simp add: ref_key_def)
      with r have "stamped cfg (deps (world p)) r" by (simp add: stamped_def)
      with assms(3) r(1) c have "on_secondary cfg (cms (world p)) c" by (auto simp: stamps_honest_def)
      then show ?thesis by (rule patch_rel_mono(5)[OF live(3)])
    next
      case False
      with c(2) live(5) have "\<not> cm_errors c (errs led)" by (auto simp: ledger_ok_def)
      then show ?thesis using patch_rel_done[OF live(3) c(1) live(2)] by simp
    qed
    then show ?thesis by (auto simp: stamps_honest_def)
  qed (use assms(3) in simp)
qed

section \<open>The actuator interface\<close>

text \<open>
  \<open>Actuator\<close> (\<open>pkg/actuator/actuator.go\<close>): one operation. What its callers rely on is that a nil
  error means the applications are moved, and that moved applications stay moved; a call that
  reports an error promises nothing and is retried.
\<close>

text \<open>The retry loop of the callers: one attempt after another, until one has no error.\<close>

fun retries :: "('s \<Rightarrow> (bool \<times> 'e option) \<times> 's) \<Rightarrow> nat \<Rightarrow> 's \<Rightarrow> bool \<times> 's" where
  "retries switch 0 s = (False, s)"
| "retries switch (Suc n) s =
     (case switch s of ((_, None), s') \<Rightarrow> (True, s') | ((_, Some _), s') \<Rightarrow> retries switch n s')"

locale actuator =
  fixes switch :: "'s \<Rightarrow> (bool \<times> 'e option) \<times> 's"
    and moved :: "'s \<Rightarrow> bool"
  assumes nil_error_moved: "switch s = ((sw, None), s') \<Longrightarrow> moved s'"
    and moved_kept: "moved s \<Longrightarrow> switch s = (r, s') \<Longrightarrow> moved s'"
begin

lemma retries_moved: "retries switch n s = (True, s') \<Longrightarrow> moved s'"
  by (induction n arbitrary: s) (auto split: prod.splits option.splits dest: nil_error_moved)

lemma retries_keep: "moved s \<Longrightarrow> retries switch n s = (b, s') \<Longrightarrow> moved s'"
  by (induction n arbitrary: s) (auto split: prod.splits option.splits dest: moved_kept)

end

definition all_moved ::
  "actuator_config \<Rightarrow> (obj_key \<Rightarrow> configmap option) \<Rightarrow> (obj_key \<Rightarrow> deployment option) \<Rightarrow> bool" where
  "all_moved cfg m d \<longleftrightarrow> (\<forall>r \<in> set (cfg_configmaps cfg). on_secondary cfg m r) \<and>
     (\<forall>r \<in> set (cfg_deployments cfg). stamped cfg d r)"

text \<open>What the Kubernetes actuator provides: of an API that behaves as documented, outside dry-run.\<close>

definition k8s_moved ::
  "'w k8s_api \<Rightarrow> ('w \<Rightarrow> obj_key \<Rightarrow> configmap option) \<Rightarrow> ('w \<Rightarrow> obj_key \<Rightarrow> deployment option) \<Rightarrow>
   actuator_config \<Rightarrow> 'w proc \<Rightarrow> bool" where
  "k8s_moved api cms deps cfg p \<longleftrightarrow>
     (api_documented api cms deps \<and> \<not> cfg_dry_run cfg \<longrightarrow> all_moved cfg (cms (world p)) (deps (world p)))"

text \<open>A nil error converges everything; the facts of the properties above, for the interface.\<close>

lemma k8s_switch_nil_error:
  assumes "k8s_switch api cfg now p = ((sw, None), p')"
  shows "k8s_moved api cms deps cfg p'"
  unfolding k8s_moved_def
proof (intro impI, elim conjE)
  assume doc: "api_documented api cms deps" and live: "\<not> cfg_dry_run cfg"
  from doc assms show "all_moved cfg (cms (world p')) (deps (world p'))"
  proof (cases rule: k8s_switch_cases)
    case (live led rolled res)
    have "join_errors (errs led @ res) = None" using live(6) by simp
    then have e: "errs led = []" "res = []" by simp_all
    then have nf: "set (failed_ns led) = {}" using live(5) by (simp add: no_errors_no_failed)
    show ?thesis
      unfolding all_moved_def
      using patch_rel_done[OF live(3) _ live(2)] roll_rel_stamped[OF live(4)] nf e by fastforce
  qed (use live in auto)
qed

lemma k8s_switch_stays_moved:
  assumes "k8s_moved api cms deps cfg p" and "k8s_switch api cfg now p = (res, p')"
  shows "k8s_moved api cms deps cfg p'"
  unfolding k8s_moved_def
proof (intro impI, elim conjE)
  assume doc: "api_documented api cms deps" and live: "\<not> cfg_dry_run cfg"
  with assms(1) have all: "all_moved cfg (cms (world p)) (deps (world p))" by (simp add: k8s_moved_def)
  obtain sw err where res: "res = (sw, err)" by force
  from doc assms(2)[unfolded res] show "all_moved cfg (cms (world p')) (deps (world p'))"
  proof (cases rule: k8s_switch_cases)
    case (live led rolled res)
    then show ?thesis
      using all patch_rel_mono(5)[OF live(3)] roll_rel_keeps(2)[OF live(4)] by (auto simp: all_moved_def)
  qed (use all live in auto)
qed

interpretation k8s: actuator "k8s_switch api cfg now" "k8s_moved api cms deps cfg"
  for api :: "'w k8s_api" and cfg now cms deps
  by unfold_locales (fact k8s_switch_nil_error k8s_switch_stays_moved)+

text \<open>\<open>Mock\<close>: records the call and answers what it was given.\<close>

record mock_actuator =
  mock_called :: bool
  mock_switched :: bool
  mock_err :: "gostring option"

definition mock_switch :: "mock_actuator \<Rightarrow> (bool \<times> gostring option) \<times> mock_actuator" where
  "mock_switch m = ((mock_switched m, mock_err m), m\<lparr>mock_called := True\<rparr>)"

interpretation mock: actuator mock_switch mock_called
  by unfold_locales (auto simp: mock_switch_def)

text \<open>
  Retrying until a nil error moves the applications. Any number of attempts, with any mix of
  failures, the last of which returns nil outside dry-run leaves every ConfigMap target on the
  secondary and every Deployment target stamped, and any further attempts keep it so.
\<close>

theorem retried_switch_moves:
  assumes "api_documented api cms deps" and "\<not> cfg_dry_run cfg"
    and "retries (k8s_switch api cfg now) n p = (True, p')" and "retries (k8s_switch api cfg now') m p' = (b, p'')"
  shows "all_moved cfg (cms (world p')) (deps (world p')) \<and>
     all_moved cfg (cms (world p'')) (deps (world p''))"
  using k8s.retries_moved[OF assms(3), of cms deps]
    k8s.retries_keep[OF k8s.retries_moved[OF assms(3), of cms deps] assms(4)] assms(1,2)
  by (simp add: k8s_moved_def)

section \<open>An in-memory cluster\<close>

text \<open>
  A cluster held in two maps, with the calls it refuses: the smallest API that behaves as
  documented. It is used to apply the properties, never to state them.
\<close>

datatype verb = GetCM | UpdateCM | GetDep | UpdateDep

record mem =
  mem_cms :: "obj_key \<Rightarrow> configmap option"
  mem_deps :: "obj_key \<Rightarrow> deployment option"
  mem_refuses :: "(verb \<times> obj_key) list"

definition mem_get_cm :: "gostring \<Rightarrow> gostring \<Rightarrow> mem \<Rightarrow> (gostring + configmap) \<times> mem" where
  "mem_get_cm ns n w =
     (case mem_cms w (ns, n) of
        None \<Rightarrow> (Inl ''not found'', w)
      | Some c \<Rightarrow> (if (GetCM, (ns, n)) \<in> set (mem_refuses w) \<or> cm_name c \<noteq> n
                   then Inl ''refused'' else Inr c, w))"

definition mem_update_cm :: "gostring \<Rightarrow> configmap \<Rightarrow> mem \<Rightarrow> (gostring + configmap) \<times> mem" where
  "mem_update_cm ns c w =
     (if (UpdateCM, (ns, cm_name c)) \<in> set (mem_refuses w) then (Inl ''refused'', w)
      else (Inr c, w\<lparr>mem_cms := (mem_cms w)((ns, cm_name c) \<mapsto> c)\<rparr>))"

definition mem_get_dep :: "gostring \<Rightarrow> gostring \<Rightarrow> mem \<Rightarrow> (gostring + deployment) \<times> mem" where
  "mem_get_dep ns n w =
     (case mem_deps w (ns, n) of
        None \<Rightarrow> (Inl ''not found'', w)
      | Some d \<Rightarrow> (if (GetDep, (ns, n)) \<in> set (mem_refuses w) \<or> dep_name d \<noteq> n
                   then Inl ''refused'' else Inr d, w))"

definition mem_update_dep :: "gostring \<Rightarrow> deployment \<Rightarrow> mem \<Rightarrow> (gostring + deployment) \<times> mem" where
  "mem_update_dep ns d w =
     (if (UpdateDep, (ns, dep_name d)) \<in> set (mem_refuses w) then (Inl ''refused'', w)
      else (Inr d, w\<lparr>mem_deps := (mem_deps w)((ns, dep_name d) \<mapsto> d)\<rparr>))"

definition mem_api :: "mem k8s_api" where
  "mem_api = \<lparr>get_cm = mem_get_cm, update_cm = mem_update_cm,
              get_dep = mem_get_dep, update_dep = mem_update_dep\<rparr>"

lemmas mem_calls = mem_api_def mem_get_cm_def mem_update_cm_def mem_get_dep_def mem_update_dep_def

lemma stored_same_cm: "stored_cm k c m (m(k \<mapsto> c))"
  unfolding stored_cm_def by (rule exI[of _ "cm_version c"]) simp

lemma stored_same_dep: "stored_dep k d m (m(k \<mapsto> d))"
  unfolding stored_dep_def by (rule exI[of _ "dep_version d"]) simp

lemma mem_api_documented: "api_documented mem_api mem_cms mem_deps"
  unfolding api_documented_def
  by (auto simp: mem_calls stored_same_cm stored_same_dep split: option.splits if_splits)

text \<open>One namespace with one ConfigMap, still on the primary, and one Deployment.\<close>

definition app_cm :: "gostring \<Rightarrow> configmap" where
  "app_cm v = \<lparr>cm_name = ''cfg'', cm_version = ''1'', cm_data = Some [(''conn'', v)]\<rparr>"

definition app_dep :: "gostring \<Rightarrow> deployment" where
  "app_dep v = \<lparr>dep_name = ''api'', dep_version = ''1'', dep_annotations = Some [(''observer/switched-to'', v)]\<rparr>"

definition app_mem :: "gostring \<Rightarrow> gostring \<Rightarrow> (verb \<times> obj_key) list \<Rightarrow> mem" where
  "app_mem cm dep refused =
     \<lparr>mem_cms = [(''a'', ''cfg'') \<mapsto> app_cm cm], mem_deps = [(''a'', ''api'') \<mapsto> app_dep dep],
      mem_refuses = refused\<rparr>"

definition app_config :: "bool \<Rightarrow> actuator_config" where
  "app_config dry = \<lparr>cfg_configmaps = [\<lparr>ref_namespace = ''a'', ref_name = ''cfg''\<rparr>], cfg_key = ''conn'',
     cfg_deployments = [\<lparr>ref_namespace = ''a'', ref_name = ''api''\<rparr>], cfg_secondary = ''dr'', cfg_dry_run = dry\<rparr>"

definition idle :: "'w \<Rightarrow> 'w proc" where
  "idle w = \<lparr>world = w, logs = [], metrics = []\<rparr>"

lemmas app_eval = app_cm_def app_dep_def app_mem_def app_config_def idle_def mem_calls k8s_switch_def
  patch_one_def roll_one_def outside_def key_of_def set_key_def add_key.simps empty_ledger_def fail_cm_def
  join_errors_def ann_switched_to_def ann_restarted_at_def on_secondary_def stamped_def rolled_now_def
  ref_key_def stamp_of_def restarted_at_def Let_def

lemma app_switch:
  "fst (k8s_switch mem_api (app_config False) ''t'' (idle (app_mem ''main'' [] []))) = (True, None)"
  by (simp add: app_eval log_event_def)

lemma app_switch_clean:
  "world p = app_mem ''main'' [] [] \<Longrightarrow> snd (fst (k8s_switch mem_api (app_config dry) ''t'' p)) = None"
  by (cases dry) (simp_all add: app_eval)

theorem switch_without_error_converged_witness:
  "\<exists>p'. k8s_switch mem_api (app_config False) ''t'' (idle (app_mem ''main'' [] [])) = ((True, None), p') \<and>
     (\<forall>r \<in> set (cfg_deployments (app_config False)). rolled_now (app_config False) ''t'' (mem_deps (world p')) r)"
proof -
  obtain p' where run: "k8s_switch mem_api (app_config False) ''t'' (idle (app_mem ''main'' [] [])) = ((True, None), p')"
    using app_switch by (metis prod.collapse)
  have "\<not> stamped (app_config False) (mem_deps (world (idle (app_mem ''main'' [] [])))) r"
    if "r \<in> set (cfg_deployments (app_config False))" for r
    using that by (simp add: app_eval)
  then show ?thesis
    using run switch_without_error_converged[OF mem_api_documented run] by (auto simp: app_config_def)
qed

lemma k8s_switch_run:
  "k8s_switch api cfg now p =
     ((fst (fst (k8s_switch api cfg now p)), snd (fst (k8s_switch api cfg now p))), snd (k8s_switch api cfg now p))"
  by simp

theorem switch_idempotent_witness:
  "mem_deps (world (snd (k8s_switch mem_api (app_config False) ''t'' (idle (app_mem ''dr'' ''dr'' []))))) =
     mem_deps (app_mem ''dr'' ''dr'' [])"
  using switch_idempotent[OF mem_api_documented k8s_switch_run, where cfg = "app_config False" and now = "''t''"
      and p = "idle (app_mem ''dr'' ''dr'' [])"]
  by (simp add: app_config_def app_mem_def app_cm_def app_dep_def idle_def on_secondary_def stamped_def
      ref_key_def key_of_def stamp_of_def ann_switched_to_def)

theorem dry_run_changes_nothing_witness:
  "mem_cms (world (snd (k8s_switch mem_api (app_config True) ''t'' (idle (app_mem ''main'' [] []))))) =
     mem_cms (app_mem ''main'' [] [])"
  using dry_run_changes_nothing[OF mem_api_documented k8s_switch_run, where cfg = "app_config True" and now = "''t''"
      and p = "idle (app_mem ''main'' [] [])"]
  by (simp add: app_config_def app_mem_def idle_def)


theorem switch_footprint_witness:
  "mem_cms (world (snd (k8s_switch mem_api (app_config False) ''t'' (idle (app_mem ''main'' [] [])))))
     (''b'', ''cfg'') = None"
  using switch_footprint[OF mem_api_documented surjective_pairing, where cfg = "app_config False" and now = "''t''"
      and p = "idle (app_mem ''main'' [] [])" and k = "(''b'', ''cfg'')"]
  by (simp add: app_config_def app_mem_def idle_def ref_key_def)

theorem switch_keeps_stamps_honest_witness:
  "stamps_honest (app_config False)
     (mem_cms (world (snd (k8s_switch mem_api (app_config False) ''t'' (idle (app_mem ''main'' [] [])))))) 
     (mem_deps (world (snd (k8s_switch mem_api (app_config False) ''t'' (idle (app_mem ''main'' [] []))))))"
  by (rule switch_keeps_stamps_honest[OF mem_api_documented surjective_pairing])
     (simp add: stamps_honest_def app_config_def app_mem_def app_dep_def idle_def stamped_def stamp_of_def
       ref_key_def key_of_def ann_switched_to_def)

theorem retried_switch_moves_witness:
  "\<exists>p'. retries (k8s_switch mem_api (app_config False) ''t'') 1 (idle (app_mem ''main'' [] [])) = (True, p') \<and>
     all_moved (app_config False) (mem_cms (world p')) (mem_deps (world p'))"
proof -
  obtain p' where "k8s_switch mem_api (app_config False) ''t'' (idle (app_mem ''main'' [] [])) = ((True, None), p')"
    using app_switch by (metis prod.collapse)
  then have one: "retries (k8s_switch mem_api (app_config False) ''t'') 1 (idle (app_mem ''main'' [] [])) = (True, p')"
    by simp
  have zero: "retries (k8s_switch mem_api (app_config False) ''t'') 0 p' = (False, p')" by simp
  show ?thesis
    using one retried_switch_moves[OF mem_api_documented _ one zero] by (simp add: app_config_def)
qed

section \<open>A stale stamp\<close>

text \<open>
  The stamp alone decides whether a Deployment in an unpatched namespace is rolled, so a stamp left
  over from an earlier failover hides a roll that failed. Here the ConfigMap is back on the primary
  while the Deployment still carries the secondary's stamp (dishonest stamps); the first switch
  patches the ConfigMap and its roll is refused; the second finds nothing to patch, skips the
  stamped Deployment and reports no error, although no call ever restarted it.
\<close>

theorem stale_stamp_hides_failed_roll:
  "let s0 = idle (app_mem ''main'' ''dr'' [(UpdateDep, (''a'', ''api''))]);
       s1 = snd (k8s_switch mem_api (app_config False) ''t1'' s0);
       retry = s1\<lparr>world := (world s1)\<lparr>mem_refuses := []\<rparr>\<rparr>;
       r2 = k8s_switch mem_api (app_config False) ''t2'' retry
   in snd (fst (k8s_switch mem_api (app_config False) ''t1'' s0)) \<noteq> None \<and>
      fst r2 = (False, None) \<and>
      mem_deps (world (snd r2)) (''a'', ''api'') = Some (app_dep ''dr'')"
  by (simp add: app_eval log_event_def)

end
