(* ===== verification/Rely_Guarantee.thy ===== *)
theory Rely_Guarantee
  imports Prelude
begin

text \<open>
  Processes that share one world. The observer, its replicas and the alarm function all act on the
  same cluster, and none of them takes a lock: each makes one call at a time, and the calls of the
  others fall in between. \<open>interleaved\<close> is that execution, for any kind of process; the locale
  \<open>rely_guarantee\<close> states what one kind owes the others for its own assertions to hold throughout.
  A process that crashes is one that makes no further step; a restart is a process that joins.
\<close>

section \<open>Interleaved execution\<close>

inductive interleaved ::
  "('l \<Rightarrow> bool) \<Rightarrow> ('l \<Rightarrow> 'w \<Rightarrow> 'l \<Rightarrow> 'w \<Rightarrow> bool) \<Rightarrow> ('w \<Rightarrow> 'w \<Rightarrow> bool) \<Rightarrow>
   'w \<times> 'l list \<Rightarrow> 'w \<times> 'l list \<Rightarrow> bool"
  for start :: "'l \<Rightarrow> bool" and move :: "'l \<Rightarrow> 'w \<Rightarrow> 'l \<Rightarrow> 'w \<Rightarrow> bool" and other :: "'w \<Rightarrow> 'w \<Rightarrow> bool"
where
  joins: "start l \<Longrightarrow> interleaved start move other (w, ls) (w, ls @ [l])"
| moves: "i < length ls \<Longrightarrow> move (ls ! i) w l w' \<Longrightarrow> interleaved start move other (w, ls) (w', ls[i := l])"
| others: "other w w' \<Longrightarrow> interleaved start move other (w, ls) (w', ls)"

inductive_cases interleavedE: "interleaved start move other s s'"

abbreviation execution ::
  "('l \<Rightarrow> bool) \<Rightarrow> ('l \<Rightarrow> 'w \<Rightarrow> 'l \<Rightarrow> 'w \<Rightarrow> bool) \<Rightarrow> ('w \<Rightarrow> 'w \<Rightarrow> bool) \<Rightarrow>
   'w \<times> 'l list \<Rightarrow> 'w \<times> 'l list \<Rightarrow> bool" where
  "execution start move other \<equiv> (interleaved start move other)\<^sup>*\<^sup>*"

section \<open>Rely and guarantee\<close>

text \<open>
  Every process guarantees \<open>keeps\<close> of each of its steps, the rest of the world guarantees it too, and
  the assertion \<open>ok\<close> a process makes of itself is stable under it.
\<close>

locale rely_guarantee =
  fixes start :: "'l \<Rightarrow> bool"
    and move :: "'l \<Rightarrow> 'w \<Rightarrow> 'l \<Rightarrow> 'w \<Rightarrow> bool"
    and other :: "'w \<Rightarrow> 'w \<Rightarrow> bool"
    and ok :: "'l \<Rightarrow> 'w \<Rightarrow> bool"
    and keeps :: "'w \<Rightarrow> 'w \<Rightarrow> bool"
  assumes start_ok: "start l \<Longrightarrow> ok l w"
    and move_ok: "ok l w \<Longrightarrow> move l w l' w' \<Longrightarrow> ok l' w'"
    and move_keeps: "ok l w \<Longrightarrow> move l w l' w' \<Longrightarrow> keeps w w'"
    and other_keeps: "other w w' \<Longrightarrow> keeps w w'"
    and stable: "ok l w \<Longrightarrow> keeps w w' \<Longrightarrow> ok l w'"
    and keeps_refl: "keeps w w"
    and keeps_trans: "keeps w w' \<Longrightarrow> keeps w' w'' \<Longrightarrow> keeps w w''"
begin

lemma step_ok:
  assumes "interleaved start move other s s'" and "\<forall>l \<in> set (snd s). ok l (fst s)"
  shows "(\<forall>l \<in> set (snd s'). ok l (fst s')) \<and> keeps (fst s) (fst s')"
  using assms
proof (cases rule: interleaved.cases)
  case (joins l w ls)
  then show ?thesis using assms(2) by (auto intro: start_ok keeps_refl)
next
  case (moves i ls w l w')
  then have "ok (ls ! i) w" using assms(2) by simp
  then have k: "keeps w w'" and l: "ok l w'" using moves(4) move_keeps move_ok by blast+
  have "ok x w'" if "x \<in> set (ls[i := l])" for x
    using set_update_subset_insert[of ls i l] that assms(2) moves(1) l stable[OF _ k] by auto
  then show ?thesis using moves k by simp
next
  case (others w w' ls)
  then show ?thesis using assms(2) other_keeps stable by auto
qed

lemma execution_ok:
  assumes "execution start move other s s'" and "\<forall>l \<in> set (snd s). ok l (fst s)"
  shows "(\<forall>l \<in> set (snd s'). ok l (fst s')) \<and> keeps (fst s) (fst s')"
  using assms(1)
proof (induction rule: rtranclp_induct)
  case base
  then show ?case using assms(2) keeps_refl by blast
next
  case (step s1 s2)
  then show ?case using step_ok[OF step(2)] keeps_trans by blast
qed

lemma all_ok:
  assumes "execution start move other (w0, []) (w, ls)"
  shows "l \<in> set ls \<Longrightarrow> ok l w" and "keeps w0 w"
  using execution_ok[OF assms] by auto

end

end
