(* ===== verification/Switch_Steps.thy ===== *)
theory Switch_Steps
  imports K8s_Switch Rely_Guarantee
begin

text \<open>
  \<open>K8sActuator.Switch\<close> one API call at a time. \<open>k8s_switch\<close> is the call as its caller sees it;
  here the same code is a program counter and one step per turn, so that other processes may act on
  the cluster between any two of its calls: a second replica of the observer, the alarm function,
  an operator. The first section shows that the steps, run without interruption, are \<open>k8s_switch\<close>; the
  second that a switch finishes after a number of its own steps that the configuration alone bounds,
  whatever the others do; the last that switches of one failover, interleaved in any order, do not
  undo or mislead each other.
\<close>

section \<open>The steps\<close>

text \<open>
  Where a switch stands: about to read or to update a ConfigMap (with the copy it read), about to
  read or to update a Deployment, or returned. The lists are the targets the loops have not reached.
\<close>

datatype switch_pc =
    PatchRead "ref list" patch_ledger
  | PatchWrite ref configmap "ref list" patch_ledger
  | RollRead "ref list" patch_ledger "nat \<times> switch_error list"
  | RollWrite ref deployment "ref list" patch_ledger "nat \<times> switch_error list"
  | Finished bool "switch_error list option"

definition switch_begin :: "actuator_config \<Rightarrow> switch_pc" where
  "switch_begin cfg =
     (if length (cfg_configmaps cfg) = 0 then Finished False (Some [NoConfigMapConfigured])
      else PatchRead (cfg_configmaps cfg) empty_ledger)"

fun switch_step ::
  "'w k8s_api \<Rightarrow> actuator_config \<Rightarrow> gostring \<Rightarrow> switch_pc \<Rightarrow> 'w proc \<Rightarrow> switch_pc \<times> 'w proc" where
  "switch_step api cfg now (PatchRead [] led) p =
     (if cfg_dry_run cfg then (Finished (pending led > 0) (join_errors (errs led)), p)
      else (RollRead (cfg_deployments cfg) led (0, []), p))"
| "switch_step api cfg now (PatchRead (r # rs) led) p =
     (case outside (get_cm api (ref_namespace r) (ref_name r)) p of
        (Inl e, p1) \<Rightarrow> (PatchRead rs (fail_cm r (GetConfigMapFailed r e) led), p1)
      | (Inr cm, p1) \<Rightarrow>
          if key_of (cm_data cm) (cfg_key cfg) = cfg_secondary cfg then (PatchRead rs led, p1)
          else
            (let led1 = led\<lparr>pending := pending led + 1\<rparr>
             in if cfg_dry_run cfg then (PatchRead rs led1, p1) else (PatchWrite r cm rs led1, p1)))"
| "switch_step api cfg now (PatchWrite r cm rs led) p =
     (let cur = key_of (cm_data cm) (cfg_key cfg);
          cm' = cm\<lparr>cm_data := set_key (cfg_key cfg) (cfg_secondary cfg) (cm_data cm)\<rparr>
      in case outside (update_cm api (ref_namespace r) cm') p of
           (Inl e, p1) \<Rightarrow> (PatchRead rs (fail_cm r (UpdateConfigMapFailed r e) led), p1)
         | (Inr _, p1) \<Rightarrow>
             (PatchRead rs (led\<lparr>patched_ns := add_key (ref_namespace r) (patched_ns led)\<rparr>),
              log_event LevelInfo ''configmap_patch''
                [(''configmap'', AStr (ref_name r)), (''namespace'', AStr (ref_namespace r)),
                 (''key'', AStr (cfg_key cfg)), (''from'', AStr cur), (''to'', AStr (cfg_secondary cfg))] p1))"
| "switch_step api cfg now (RollRead [] led (rolled, es)) p =
     (let p1 = (if pending led = 0 \<and> rolled > 0
                then log_event LevelInfo ''roll_only''
                       [(''rolled'', AInt (int rolled)), (''secondary'', AStr (cfg_secondary cfg))] p
                else p);
          err = join_errors (errs led @ es)
      in (Finished (err = None \<and> pending led > 0) err, p1))"
| "switch_step api cfg now (RollRead (r # rs) led (rolled, es)) p =
     (if ref_namespace r \<in> set (failed_ns led) then
        (RollRead rs led (rolled, es), log_event LevelWarn ''roll_skipped''
           [(''deployment'', AStr (ref_name r)), (''namespace'', AStr (ref_namespace r)),
            (''reason'', AStr ''configmap_failed'')] p)
      else
        (case outside (get_dep api (ref_namespace r) (ref_name r)) p of
           (Inl e, p1) \<Rightarrow> (RollRead rs led (rolled, es @ [GetDeploymentFailed r e]), p1)
         | (Inr dep, p1) \<Rightarrow>
             if ref_namespace r \<notin> set (patched_ns led) \<and>
                key_of (dep_annotations dep) ann_switched_to = cfg_secondary cfg
             then (RollRead rs led (rolled, es), p1)
             else (RollWrite r dep rs led (rolled, es), p1)))"
| "switch_step api cfg now (RollWrite r dep rs led (rolled, es)) p =
     (let dep' = dep\<lparr>dep_annotations := set_key ann_restarted_at now
                   (set_key ann_switched_to (cfg_secondary cfg) (dep_annotations dep))\<rparr>
      in case outside (update_dep api (ref_namespace r) dep') p of
           (Inl e, p1) \<Rightarrow> (RollRead rs led (rolled, es @ [RollDeploymentFailed r e]), p1)
         | (Inr _, p1) \<Rightarrow>
             (RollRead rs led (rolled + 1, es),
              log_event LevelInfo ''deployment_roll''
                [(''deployment'', AStr (ref_name r)), (''namespace'', AStr (ref_namespace r))] p1))"
| "switch_step api cfg now (Finished sw err) p = (Finished sw err, p)"

definition switch_turn ::
  "'w k8s_api \<Rightarrow> actuator_config \<Rightarrow> gostring \<Rightarrow> switch_pc \<times> 'w proc \<Rightarrow> switch_pc \<times> 'w proc" where
  "switch_turn api cfg now s = switch_step api cfg now (fst s) (snd s)"

section \<open>Termination\<close>

text \<open>An upper bound on the steps still to make.\<close>

fun steps_left :: "actuator_config \<Rightarrow> switch_pc \<Rightarrow> nat" where
  "steps_left cfg (PatchRead rs led) = 2 * length rs + 2 * length (cfg_deployments cfg) + 2"
| "steps_left cfg (PatchWrite r cm rs led) = 2 * length rs + 2 * length (cfg_deployments cfg) + 3"
| "steps_left cfg (RollRead rs led acc) = 2 * length rs + 1"
| "steps_left cfg (RollWrite r dep rs led acc) = 2 * length rs + 2"
| "steps_left cfg (Finished sw err) = 0"

definition switch_bound :: "actuator_config \<Rightarrow> nat" where
  "switch_bound cfg = 2 * length (cfg_configmaps cfg) + 2 * length (cfg_deployments cfg) + 2"

lemma steps_left_begin: "steps_left cfg (switch_begin cfg) \<le> switch_bound cfg"
  by (simp add: switch_begin_def switch_bound_def)

lemma steps_left_0: "steps_left cfg pc = 0 \<longleftrightarrow> (\<exists>sw err. pc = Finished sw err)"
  by (cases pc) auto

lemma step_decreases:
  "steps_left cfg (fst (switch_step api cfg now pc p)) \<le> steps_left cfg pc - 1"
  by (cases "(api, cfg, now, pc, p)" rule: switch_step.cases)
     (auto simp: Let_def split: prod.split sum.split)

text \<open>
  The steps of one switch in an interleaving: before each of them the others have left the world, and
  so the process, in any state at all.
\<close>

fun steps_among :: "'w k8s_api \<Rightarrow> actuator_config \<Rightarrow> gostring \<Rightarrow> 'w proc list \<Rightarrow> switch_pc \<Rightarrow> switch_pc" where
  "steps_among api cfg now [] pc = pc"
| "steps_among api cfg now (p # ps) pc = steps_among api cfg now ps (fst (switch_step api cfg now pc p))"

lemma steps_among_left: "steps_left cfg (steps_among api cfg now ps pc) \<le> steps_left cfg pc - length ps"
proof (induction ps arbitrary: pc)
  case (Cons p ps)
  have "steps_left cfg (steps_among api cfg now (p # ps) pc) \<le>
      steps_left cfg (fst (switch_step api cfg now pc p)) - length ps"
    using Cons.IH by simp
  also have "\<dots> \<le> steps_left cfg pc - length (p # ps)"
    using step_decreases[of cfg api now pc p] by simp
  finally show ?case .
qed simp

section \<open>The steps, uninterrupted\<close>

definition turns_to ::
  "'w k8s_api \<Rightarrow> actuator_config \<Rightarrow> gostring \<Rightarrow> switch_pc \<times> 'w proc \<Rightarrow> switch_pc \<times> 'w proc \<Rightarrow> bool" where
  "turns_to api cfg now s s' \<longleftrightarrow> (\<exists>n. (switch_turn api cfg now ^^ n) s = s')"

lemma turns_to_trans:
  assumes "turns_to api cfg now s s'" "turns_to api cfg now s' s''" shows "turns_to api cfg now s s''"
proof -
  obtain m n where "(switch_turn api cfg now ^^ m) s = s'" "(switch_turn api cfg now ^^ n) s' = s''"
    using assms by (auto simp: turns_to_def)
  then have "(switch_turn api cfg now ^^ (n + m)) s = s''" by (simp add: funpow_add)
  then show ?thesis unfolding turns_to_def by blast
qed

lemma turns_to_refl: "turns_to api cfg now s s"
  unfolding turns_to_def by (rule exI[of _ 0]) simp

lemma one_turn: "switch_step api cfg now pc p = s \<Longrightarrow> turns_to api cfg now (pc, p) s"
  unfolding turns_to_def by (rule exI[of _ 1]) (simp add: switch_turn_def)

lemma then_turns:
  "switch_step api cfg now pc p = s \<Longrightarrow> turns_to api cfg now s s' \<Longrightarrow> turns_to api cfg now (pc, p) s'"
  using one_turn turns_to_trans by blast

lemma patch_one_turns:
  assumes "patch_one api cfg r led p = (led', p')"
  shows "turns_to api cfg now (PatchRead (r # rs) led, p) (PatchRead rs led', p')"
proof -
  obtain g p1 where g: "outside (get_cm api (ref_namespace r) (ref_name r)) p = (g, p1)" by force
  show ?thesis
  proof (cases "\<exists>cm. g = Inr cm \<and> key_of (cm_data cm) (cfg_key cfg) \<noteq> cfg_secondary cfg \<and> \<not> cfg_dry_run cfg")
    case True
    then obtain cm where cm: "g = Inr cm" "key_of (cm_data cm) (cfg_key cfg) \<noteq> cfg_secondary cfg" "\<not> cfg_dry_run cfg"
      by blast
    show ?thesis
      by (rule then_turns[where s = "(PatchWrite r cm rs (led\<lparr>pending := pending led + 1\<rparr>), p1)"], simp add: g cm)
         (rule one_turn, use assms g cm in \<open>auto simp: patch_one_def Let_def split: prod.splits sum.splits\<close>)
  next
    case False
    then show ?thesis
      using assms g by (intro one_turn) (auto simp: patch_one_def Let_def split: prod.splits sum.splits if_splits)
  qed
qed

lemma patch_configmaps_turns:
  "patch_configmaps api cfg rs led p = (led', p') \<Longrightarrow>
   turns_to api cfg now (PatchRead rs led, p) (PatchRead [] led', p')"
proof (induction rs arbitrary: led p)
  case (Cons r rs)
  obtain led1 p1 where one: "patch_one api cfg r led p = (led1, p1)" by force
  then have "patch_configmaps api cfg rs led1 p1 = (led', p')" using Cons.prems by simp
  from Cons.IH[OF this] show ?case by (rule turns_to_trans[OF patch_one_turns[OF one]])
qed (simp add: turns_to_refl)

lemma roll_one_turns:
  assumes "roll_one api cfg led now r acc p = (acc', p')"
  shows "turns_to api cfg now (RollRead (r # rs) led acc, p) (RollRead rs led acc', p')"
proof -
  obtain rolled es where acc: "acc = (rolled, es)" by force
  obtain g p1 where g: "outside (get_dep api (ref_namespace r) (ref_name r)) p = (g, p1)" by force
  show ?thesis
  proof (cases "\<exists>d. g = Inr d \<and> ref_namespace r \<notin> set (failed_ns led) \<and>
      (ref_namespace r \<in> set (patched_ns led) \<or> key_of (dep_annotations d) ann_switched_to \<noteq> cfg_secondary cfg)")
    case True
    then obtain d where d: "g = Inr d" "ref_namespace r \<notin> set (failed_ns led)"
      "ref_namespace r \<in> set (patched_ns led) \<or> key_of (dep_annotations d) ann_switched_to \<noteq> cfg_secondary cfg"
      by blast
    have "switch_step api cfg now (RollRead (r # rs) led acc) p = (RollWrite r d rs led acc, p1)"
      using g d by (auto simp: acc)
    moreover have "switch_step api cfg now (RollWrite r d rs led acc) p1 = (RollRead rs led acc', p')"
      using assms g d by (auto simp: acc roll_one_def Let_def split: prod.splits sum.splits if_splits)
    ultimately show ?thesis using then_turns one_turn by metis
  next
    case False
    then show ?thesis
      using assms g by (intro one_turn) (auto simp: acc roll_one_def Let_def split: prod.splits sum.splits if_splits)
  qed
qed

lemma roll_deployments_turns:
  "roll_deployments api cfg led now rs acc p = (acc', p') \<Longrightarrow>
   turns_to api cfg now (RollRead rs led acc, p) (RollRead [] led acc', p')"
proof (induction rs arbitrary: acc p)
  case (Cons r rs)
  obtain acc1 p1 where one: "roll_one api cfg led now r acc p = (acc1, p1)"
    by (cases "roll_one api cfg led now r acc p") auto
  then have "roll_deployments api cfg led now rs acc1 p1 = (acc', p')" using Cons.prems by simp
  from Cons.IH[OF this] show ?case by (rule turns_to_trans[OF roll_one_turns[OF one]])
qed (simp add: turns_to_refl)

lemma k8s_switch_turns:
  assumes "k8s_switch api cfg now p = ((sw, err), p')"
  shows "turns_to api cfg now (switch_begin cfg, p) (Finished sw err, p')"
proof (cases "cfg_configmaps cfg = []")
  case True
  then show ?thesis using assms by (auto simp: k8s_switch_def switch_begin_def turns_to_refl)
next
  case False
  obtain led p1 where patch: "patch_configmaps api cfg (cfg_configmaps cfg) empty_ledger p = (led, p1)"
    by (cases "patch_configmaps api cfg (cfg_configmaps cfg) empty_ledger p") auto
  have start: "turns_to api cfg now (switch_begin cfg, p) (PatchRead [] led, p1)"
    using patch_configmaps_turns[OF patch] False by (simp add: switch_begin_def)
  show ?thesis
  proof (cases "cfg_dry_run cfg")
    case True
    then show ?thesis
      using assms False patch by (intro turns_to_trans[OF start] one_turn) (auto simp: k8s_switch_def)
  next
    case live: False
    obtain rolled res p2 where
      roll: "roll_deployments api cfg led now (cfg_deployments cfg) (0, []) p1 = ((rolled, res), p2)"
      by (cases "roll_deployments api cfg led now (cfg_deployments cfg) (0, []) p1") auto
    have phase: "turns_to api cfg now (PatchRead [] led, p1) (RollRead (cfg_deployments cfg) led (0, []), p1)"
      using live by (intro one_turn) simp
    have last: "switch_step api cfg now (RollRead [] led (rolled, res)) p2 = (Finished sw err, p')"
      using assms False live patch roll by (auto simp: k8s_switch_def Let_def)
    show ?thesis
      using start phase roll_deployments_turns[OF roll] one_turn[OF last] by (meson turns_to_trans)
  qed
qed

lemma finished_turns: "(switch_turn api cfg now ^^ n) (Finished sw err, p) = (Finished sw err, p)"
  by (induction n) (simp_all add: switch_turn_def)

lemma turns_left: "steps_left cfg (fst ((switch_turn api cfg now ^^ n) s)) \<le> steps_left cfg (fst s) - n"
proof (induction n)
  case (Suc n)
  have "steps_left cfg (fst ((switch_turn api cfg now ^^ Suc n) s)) \<le>
      steps_left cfg (fst ((switch_turn api cfg now ^^ n) s)) - 1"
    unfolding funpow.simps comp_def switch_turn_def by (rule step_decreases)
  then show ?case using Suc by linarith
qed simp

text \<open>A state that returned somewhere has returned, with the same answer, once the bound is spent.\<close>

lemma turns_to_finished:
  assumes "turns_to api cfg now s (Finished sw err, p')" and n: "steps_left cfg (fst s) \<le> n"
  shows "(switch_turn api cfg now ^^ n) s = (Finished sw err, p')"
proof -
  let ?f = "switch_turn api cfg now"
  obtain m where m: "(?f ^^ m) s = (Finished sw err, p')" using assms(1) by (auto simp: turns_to_def)
  have "steps_left cfg (fst ((?f ^^ n) s)) = 0" using turns_left[where cfg = cfg and api = api and now = now and n = n and s = s] n by simp
  then obtain sw' err' q where q: "(?f ^^ n) s = (Finished sw' err', q)"
    unfolding steps_left_0 by (metis prod.collapse)
  have "(?f ^^ (m + n)) s = (Finished sw' err', q)" by (simp add: funpow_add q finished_turns)
  moreover have "(?f ^^ (m + n)) s = (Finished sw err, p')"
    using funpow_add[of n m ?f] by (simp add: add.commute m finished_turns)
  ultimately show ?thesis using q by simp
qed

section \<open>What a switch knows, and what it owes the others\<close>

text \<open>
  What the steps of a failover keep of the cluster: a ConfigMap on the secondary stays there, a
  stamped Deployment stays stamped, and a Deployment is newly stamped only in a namespace whose
  ConfigMap targets are all on the secondary.
\<close>

definition keeps_failover ::
  "('w \<Rightarrow> obj_key \<Rightarrow> configmap option) \<Rightarrow> ('w \<Rightarrow> obj_key \<Rightarrow> deployment option) \<Rightarrow> actuator_config \<Rightarrow>
   'w \<Rightarrow> 'w \<Rightarrow> bool" where
  "keeps_failover cms deps cfg w w' \<longleftrightarrow>
     (\<forall>r. on_secondary cfg (cms w) r \<longrightarrow> on_secondary cfg (cms w') r) \<and>
     (\<forall>r. stamped cfg (deps w) r \<longrightarrow> stamped cfg (deps w') r) \<and>
     (\<forall>r. stamped cfg (deps w') r \<and> \<not> stamped cfg (deps w) r \<longrightarrow>
        (\<forall>c \<in> set (cfg_configmaps cfg). ref_namespace c = ref_namespace r \<longrightarrow> on_secondary cfg (cms w') c))"

lemma keeps_failover_refl [simp]: "keeps_failover cms deps cfg w w"
  by (simp add: keeps_failover_def)

lemma keeps_failover_trans:
  "keeps_failover cms deps cfg w w' \<Longrightarrow> keeps_failover cms deps cfg w' w'' \<Longrightarrow> keeps_failover cms deps cfg w w''"
  unfolding keeps_failover_def by blast

lemma keeps_failover_same:
  "cms w' = cms w \<Longrightarrow> deps w' = deps w \<Longrightarrow> keeps_failover cms deps cfg w w'"
  by (simp add: keeps_failover_def)

lemma keeps_failover_honest:
  assumes "keeps_failover cms deps cfg w w'" "stamps_honest cfg (cms w) (deps w)"
  shows "stamps_honest cfg (cms w') (deps w')"
  using assms unfolding keeps_failover_def stamps_honest_def by blast

text \<open>The targets behind the program counter are done, or accounted for.\<close>

definition patched_so_far ::
  "actuator_config \<Rightarrow> (obj_key \<Rightarrow> configmap option) \<Rightarrow> ref list \<Rightarrow> patch_ledger \<Rightarrow> bool" where
  "patched_so_far cfg m todo led \<longleftrightarrow> ledger_ok led \<and>
     (\<not> cfg_dry_run cfg \<longrightarrow> (\<forall>c \<in> set (cfg_configmaps cfg).
        c \<in> set todo \<or> on_secondary cfg m c \<or> ref_namespace c \<in> set (failed_ns led)))"

definition rolled_so_far ::
  "actuator_config \<Rightarrow> (obj_key \<Rightarrow> deployment option) \<Rightarrow> ref list \<Rightarrow> patch_ledger \<Rightarrow> switch_error list \<Rightarrow> bool" where
  "rolled_so_far cfg d todo led es \<longleftrightarrow> \<not> cfg_dry_run cfg \<and>
     (\<forall>r \<in> set (cfg_deployments cfg).
        r \<in> set todo \<or> stamped cfg d r \<or> es \<noteq> [] \<or> ref_namespace r \<in> set (failed_ns led))"

fun switch_ok ::
  "actuator_config \<Rightarrow> (obj_key \<Rightarrow> configmap option) \<Rightarrow> (obj_key \<Rightarrow> deployment option) \<Rightarrow> switch_pc \<Rightarrow> bool" where
  "switch_ok cfg m d (PatchRead rs led) \<longleftrightarrow> patched_so_far cfg m rs led"
| "switch_ok cfg m d (PatchWrite r cm rs led) \<longleftrightarrow>
     patched_so_far cfg m (r # rs) led \<and> \<not> cfg_dry_run cfg \<and> cm_name cm = ref_name r"
| "switch_ok cfg m d (RollRead rs led acc) \<longleftrightarrow>
     patched_so_far cfg m [] led \<and> rolled_so_far cfg d rs led (snd acc)"
| "switch_ok cfg m d (RollWrite r dep rs led acc) \<longleftrightarrow>
     patched_so_far cfg m [] led \<and> rolled_so_far cfg d (r # rs) led (snd acc) \<and>
     dep_name dep = ref_name r \<and> ref_namespace r \<notin> set (failed_ns led)"
| "switch_ok cfg m d (Finished sw err) \<longleftrightarrow> (err = None \<and> \<not> cfg_dry_run cfg \<longrightarrow> all_moved cfg m d)"

lemma switch_ok_begin: "switch_ok cfg m d (switch_begin cfg)"
  by (auto simp: switch_begin_def patched_so_far_def ledger_ok_empty)

lemma switch_ok_stable:
  assumes "switch_ok cfg (cms w) (deps w) pc" "keeps_failover cms deps cfg w w'"
  shows "switch_ok cfg (cms w') (deps w') pc"
  using assms
  by (cases pc) (auto simp: patched_so_far_def rolled_so_far_def all_moved_def keeps_failover_def; blast)+

lemma ledger_ok_fail:
  "ledger_ok led \<Longrightarrow> ledger_ok (fail_cm r (GetConfigMapFailed r e) led)"
  "ledger_ok led \<Longrightarrow> ledger_ok (fail_cm r (UpdateConfigMapFailed r e) led)"
  by (auto simp: ledger_ok_def)

lemma ledger_ok_counts [simp]:
  "ledger_ok (led\<lparr>pending := n\<rparr>) = ledger_ok led" "ledger_ok (led\<lparr>patched_ns := ns\<rparr>) = ledger_ok led"
  by (simp_all add: ledger_ok_def)

text \<open>A write stores a copy read earlier; the target is moved, and no other target is affected.\<close>

lemma stored_copy_cm:
  assumes "stored_cm (ref_key r) (set_cm cfg c) m m'"
  shows "on_secondary cfg m' r" "on_secondary cfg m r' \<Longrightarrow> on_secondary cfg m' r'"
  using assms by (auto simp: stored_cm_def on_secondary_def)

lemma stored_copy_dep:
  assumes "stored_dep (ref_key r) (set_dep cfg now d) m m'"
  shows "stamped cfg m' r" "stamped cfg m r' \<Longrightarrow> stamped cfg m' r'"
    "stamped cfg m' r' \<Longrightarrow> stamped cfg m r' \<or> ref_key r' = ref_key r"
  using assms by (auto simp: stored_dep_def stamped_def split: if_splits)

lemma patch_read_ok:
  assumes doc: "api_documented api cms deps"
    and step: "switch_step api cfg now (PatchRead rs led) p = (pc', p')"
    and ok: "patched_so_far cfg (cms (world p)) rs led"
  shows "switch_ok cfg (cms (world p')) (deps (world p')) pc' \<and> keeps_failover cms deps cfg (world p) (world p')"
proof (cases rs)
  case Nil
  then show ?thesis
    using step ok
    by (auto simp: patched_so_far_def rolled_so_far_def split: if_splits)
next
  case (Cons r rs')
  obtain g p1 where g: "outside (get_cm api (ref_namespace r) (ref_name r)) p = (g, p1)" by force
  note gdoc = get_cm_doc[OF doc g]
  have p': "p' = p1" using step g by (auto simp: Cons Let_def split: sum.splits if_splits)
  have "switch_ok cfg (cms (world p)) (deps (world p)) pc'"
  proof (cases g)
    case (Inl e)
    then show ?thesis
      using step g ok by (auto simp: Cons patched_so_far_def ledger_ok_fail)
  next
    case (Inr cm)
    with gdoc(3) have cm: "cms (world p) (ref_key r) = Some cm" "cm_name cm = ref_name r" by (auto simp: ref_key_def)
    then have "on_secondary cfg (cms (world p)) r \<longleftrightarrow> key_of (cm_data cm) (cfg_key cfg) = cfg_secondary cfg"
      by (simp add: on_secondary_def)
    then show ?thesis
      using step g Inr ok cm(2) by (auto simp: Cons patched_so_far_def Let_def split: if_splits)
  qed
  then show ?thesis using gdoc(1,2) keeps_failover_same[of cms "world p'" "world p" deps cfg] by (simp add: p')
qed

lemma patch_write_ok:
  assumes doc: "api_documented api cms deps"
    and step: "switch_step api cfg now (PatchWrite r cm rs led) p = (pc', p')"
    and ok: "patched_so_far cfg (cms (world p)) (r # rs) led" and name: "cm_name cm = ref_name r"
  shows "switch_ok cfg (cms (world p')) (deps (world p')) pc' \<and> keeps_failover cms deps cfg (world p) (world p')"
proof -
  obtain u p1 where u: "outside (update_cm api (ref_namespace r) (set_cm cfg cm)) p = (u, p1)" by force
  note udoc = update_cm_doc[OF doc u, unfolded set_cm_simps name ref_key_def[symmetric]]
  have w: "world p' = world p1" using step u by (auto simp: set_cm_def Let_def split: sum.splits)
  have keep: "keeps_failover cms deps cfg (world p) (world p1)"
    using udoc stored_copy_cm(2)[of r cfg cm "cms (world p)" "cms (world p1)"] by (auto simp: keeps_failover_def)
  have ok': "patched_so_far cfg (cms (world p1)) (r # rs) led"
    using switch_ok_stable[where pc = "PatchRead (r # rs) led", OF _ keep] ok by simp
  have "patched_so_far cfg (cms (world p1)) rs (fail_cm r (UpdateConfigMapFailed r e) led)" for e
    using ok' by (auto simp: patched_so_far_def ledger_ok_fail)
  moreover have "patched_so_far cfg (cms (world p1)) rs (led\<lparr>patched_ns := ns\<rparr>)" if "u = Inr c" for c ns
    using ok' udoc(2) that stored_copy_cm(1)[of r cfg cm "cms (world p)" "cms (world p1)"]
    by (auto simp: patched_so_far_def)
  ultimately have "switch_ok cfg (cms (world p1)) (deps (world p1)) pc'"
    using step u by (auto simp: set_cm_def Let_def split: sum.splits)
  then show ?thesis using keep by (simp add: w)
qed

lemma roll_read_ok:
  assumes doc: "api_documented api cms deps"
    and step: "switch_step api cfg now (RollRead rs led acc) p = (pc', p')"
    and ok: "patched_so_far cfg (cms (world p)) [] led" "rolled_so_far cfg (deps (world p)) rs led (snd acc)"
  shows "switch_ok cfg (cms (world p')) (deps (world p')) pc' \<and> keeps_failover cms deps cfg (world p) (world p')"
proof -
  obtain rolled es where acc: "acc = (rolled, es)" by force
  show ?thesis
  proof (cases rs)
    case Nil
    have w: "world p' = world p" using step by (auto simp: Nil acc Let_def split: if_splits)
    have "all_moved cfg (cms (world p)) (deps (world p))" if "errs led @ es = []"
      using ok that no_errors_no_failed[of led]
      by (auto simp: Nil acc patched_so_far_def rolled_so_far_def all_moved_def)
    then show ?thesis
      using step unfolding w by (auto simp: Nil acc Let_def)
  next
    case (Cons r rs')
    obtain g p1 where g: "outside (get_dep api (ref_namespace r) (ref_name r)) p = (g, p1)" by force
    note gdoc = get_dep_doc[OF doc g]
    have w: "cms (world p') = cms (world p) \<and> deps (world p') = deps (world p)"
      using step g gdoc(1,2) by (auto simp: Cons acc split: sum.splits if_splits)
    have stamped: "stamped cfg (deps (world p)) r \<longleftrightarrow> key_of (dep_annotations d) ann_switched_to = cfg_secondary cfg"
      "dep_name d = ref_name r" if "g = Inr d" for d
      using gdoc(3)[OF that] by (auto simp: stamped_def stamp_of_def ref_key_def)
    have "switch_ok cfg (cms (world p)) (deps (world p)) pc'"
      using step g ok stamped by (auto simp: Cons acc rolled_so_far_def split: sum.splits if_splits)
    then show ?thesis using w keeps_failover_same[of cms "world p'" "world p" deps cfg] by simp
  qed
qed

lemma roll_write_ok:
  assumes doc: "api_documented api cms deps"
    and step: "switch_step api cfg now (RollWrite r dep rs led acc) p = (pc', p')"
    and ok: "patched_so_far cfg (cms (world p)) [] led" "rolled_so_far cfg (deps (world p)) (r # rs) led (snd acc)"
    and r: "dep_name dep = ref_name r" "ref_namespace r \<notin> set (failed_ns led)"
  shows "switch_ok cfg (cms (world p')) (deps (world p')) pc' \<and> keeps_failover cms deps cfg (world p) (world p')"
proof -
  obtain rolled es where acc: "acc = (rolled, es)" by force
  obtain u p1 where u: "outside (update_dep api (ref_namespace r) (set_dep cfg now dep)) p = (u, p1)" by force
  note udoc = update_dep_doc[OF doc u, unfolded set_dep_simps r(1) ref_key_def[symmetric]]
  have w: "world p' = world p1" using step u by (auto simp: acc set_dep_def Let_def split: sum.splits)
  have ns: "on_secondary cfg (cms (world p1)) c" if "c \<in> set (cfg_configmaps cfg)" "ref_namespace c = ref_namespace r" for c
    using ok that r(2) udoc(1) by (auto simp: patched_so_far_def rolled_so_far_def)
  have keep: "keeps_failover cms deps cfg (world p) (world p1)"
    unfolding keeps_failover_def
  proof (intro conjI allI impI ballI)
    fix r' c
    assume s: "stamped cfg (deps (world p1)) r' \<and> \<not> stamped cfg (deps (world p)) r'"
      and c: "c \<in> set (cfg_configmaps cfg)" "ref_namespace c = ref_namespace r'"
    have "ref_namespace r' = ref_namespace r"
      using s udoc(2) stored_copy_dep(3)[of r cfg now dep "deps (world p)" "deps (world p1)" r']
      by (auto simp: ref_key_def)
    then show "on_secondary cfg (cms (world p1)) c" using ns c by simp
  qed (use udoc stored_copy_dep(2)[of r cfg now dep "deps (world p)" "deps (world p1)"] in auto)
  have ok': "patched_so_far cfg (cms (world p1)) [] led" "rolled_so_far cfg (deps (world p1)) (r # rs) led es"
    using switch_ok_stable[where pc = "RollRead (r # rs) led (rolled, es)", OF _ keep] ok by (auto simp: acc)
  have "rolled_so_far cfg (deps (world p1)) rs led (es @ [e])" for e
    using ok' by (auto simp: rolled_so_far_def)
  moreover have "rolled_so_far cfg (deps (world p1)) rs led es" if "u = Inr c" for c
    using ok' udoc(2) that stored_copy_dep(1)[of r cfg now dep "deps (world p)" "deps (world p1)"]
    by (auto simp: rolled_so_far_def)
  ultimately have "switch_ok cfg (cms (world p1)) (deps (world p1)) pc'"
    using step u ok' by (auto simp: acc set_dep_def Let_def split: sum.splits)
  then show ?thesis using keep by (simp add: w)
qed

lemma switch_step_ok:
  assumes "api_documented api cms deps" "switch_step api cfg now pc p = (pc', p')"
    and "switch_ok cfg (cms (world p)) (deps (world p)) pc"
  shows "switch_ok cfg (cms (world p')) (deps (world p')) pc' \<and> keeps_failover cms deps cfg (world p) (world p')"
  using assms
proof (cases pc)
  case (PatchRead rs led)
  then show ?thesis using patch_read_ok assms by fastforce
next
  case (PatchWrite r cm rs led)
  then show ?thesis using patch_write_ok assms by fastforce
next
  case (RollRead rs led acc)
  then show ?thesis using roll_read_ok assms by fastforce
next
  case (RollWrite r dep rs led acc)
  then show ?thesis using roll_write_ok assms by fastforce
qed (use assms in auto)

section \<open>Switches among others\<close>

text \<open>A \<open>K8sActuator\<close> whose \<open>Switch\<close> is running: its configuration, its instant and where it stands.\<close>

record switcher =
  sr_cfg :: actuator_config
  sr_now :: gostring
  sr_pc :: switch_pc

text \<open>
  Two configurations are of the same failover when they write the same string under the same key, and
  the second names at least the ConfigMaps of the first.
\<close>

definition same_failover :: "actuator_config \<Rightarrow> actuator_config \<Rightarrow> bool" where
  "same_failover cfg0 cfg \<longleftrightarrow> cfg_key cfg = cfg_key cfg0 \<and> cfg_secondary cfg = cfg_secondary cfg0 \<and>
     set (cfg_configmaps cfg0) \<subseteq> set (cfg_configmaps cfg)"

definition launched :: "actuator_config \<Rightarrow> switcher \<Rightarrow> bool" where
  "launched cfg0 s \<longleftrightarrow> same_failover cfg0 (sr_cfg s) \<and> sr_pc s = switch_begin (sr_cfg s)"

inductive switcher_moves :: "'w k8s_api \<Rightarrow> switcher \<Rightarrow> 'w \<Rightarrow> switcher \<Rightarrow> 'w \<Rightarrow> bool" for api where
  "switch_step api (sr_cfg s) (sr_now s) (sr_pc s) p = (pc, p') \<Longrightarrow>
   switcher_moves api s (world p) (s\<lparr>sr_pc := pc\<rparr>) (world p')"

inductive_cases switcher_movesE: "switcher_moves api s w s' w'"

text \<open>
  Any number of switches of one failover, started at any time and interleaved call by call, with
  anything else that keeps the failover.
\<close>

abbreviation switches_run ::
  "'w k8s_api \<Rightarrow> ('w \<Rightarrow> obj_key \<Rightarrow> configmap option) \<Rightarrow> ('w \<Rightarrow> obj_key \<Rightarrow> deployment option) \<Rightarrow>
   actuator_config \<Rightarrow> 'w \<times> switcher list \<Rightarrow> 'w \<times> switcher list \<Rightarrow> bool" where
  "switches_run api cms deps cfg0 \<equiv> execution (launched cfg0) (switcher_moves api) (keeps_failover cms deps cfg0)"

lemma same_failover_targets:
  assumes "same_failover cfg0 cfg"
  shows "on_secondary cfg = on_secondary cfg0" "stamped cfg = stamped cfg0"
  using assms by (auto simp: same_failover_def on_secondary_def stamped_def fun_eq_iff)

lemma same_failover_keeps:
  assumes "same_failover cfg0 cfg" "keeps_failover cms deps cfg w w'" shows "keeps_failover cms deps cfg0 w w'"
proof -
  have "set (cfg_configmaps cfg0) \<subseteq> set (cfg_configmaps cfg)" using assms(1) by (simp add: same_failover_def)
  then show ?thesis
    using assms(2) unfolding keeps_failover_def same_failover_targets[OF assms(1)] by blast
qed

lemma same_failover_stable:
  assumes "same_failover cfg0 cfg" "switch_ok cfg (cms w) (deps w) pc" "keeps_failover cms deps cfg0 w w'"
  shows "switch_ok cfg (cms w') (deps w') pc"
  using assms(2,3) same_failover_targets[OF assms(1)]
  by (cases pc) (auto simp: patched_so_far_def rolled_so_far_def all_moved_def keeps_failover_def; blast)+

definition switcher_ok ::
  "'w k8s_api \<Rightarrow> ('w \<Rightarrow> obj_key \<Rightarrow> configmap option) \<Rightarrow> ('w \<Rightarrow> obj_key \<Rightarrow> deployment option) \<Rightarrow>
   actuator_config \<Rightarrow> switcher \<Rightarrow> 'w \<Rightarrow> bool" where
  "switcher_ok api cms deps cfg0 s w \<longleftrightarrow>
     (api_documented api cms deps \<longrightarrow>
        same_failover cfg0 (sr_cfg s) \<and> switch_ok (sr_cfg s) (cms w) (deps w) (sr_pc s))"

lemma switcher_move:
  assumes "api_documented api cms deps" "switcher_ok api cms deps cfg0 s w" "switcher_moves api s w s' w'"
  shows "switcher_ok api cms deps cfg0 s' w' \<and> keeps_failover cms deps cfg0 w w'"
proof -
  obtain p pc p' where 1: "w = world p" "w' = world p'" "s' = s\<lparr>sr_pc := pc\<rparr>"
    "switch_step api (sr_cfg s) (sr_now s) (sr_pc s) p = (pc, p')"
    using assms(3) by (rule switcher_movesE)
  have ok: "same_failover cfg0 (sr_cfg s)" "switch_ok (sr_cfg s) (cms (world p)) (deps (world p)) (sr_pc s)"
    using assms(1,2) 1 by (simp_all add: switcher_ok_def)
  show ?thesis
    using switch_step_ok[OF assms(1) 1(4) ok(2)] same_failover_keeps[OF ok(1), of cms deps "world p" "world p'"] ok(1) 1
    by (auto simp: switcher_ok_def)
qed

interpretation switches: rely_guarantee "launched cfg0" "switcher_moves api" "keeps_failover cms deps cfg0"
    "switcher_ok api cms deps cfg0" "\<lambda>w w'. api_documented api cms deps \<longrightarrow> keeps_failover cms deps cfg0 w w'"
  for api :: "'w k8s_api" and cms deps cfg0
proof (unfold_locales, goal_cases)
  case (1 l w)
  then show ?case by (simp add: launched_def switcher_ok_def switch_ok_begin)
next
  case (2 l w l' w')
  then show ?case
    using switcher_move[of api cms deps cfg0 l w l' w'] unfolding switcher_ok_def[of _ _ _ _ l'] by blast
next
  case (3 l w l' w')
  then show ?case using switcher_move[of api cms deps cfg0 l w l' w'] by blast
next
  case (5 l w w')
  then show ?case
    using same_failover_stable[of cfg0 "sr_cfg l" cms w deps "sr_pc l" w'] unfolding switcher_ok_def by blast
qed (auto intro: keeps_failover_trans)

text \<open>One switch that runs for a while is an execution.\<close>

lemma turns_run:
  assumes "i < length ls" "(switch_turn api (sr_cfg (ls ! i)) (sr_now (ls ! i)) ^^ n) (sr_pc (ls ! i), p) = (pc, p')"
  shows "execution (launched cfg0) (switcher_moves api) other (world p, ls) (world p', ls[i := (ls ! i)\<lparr>sr_pc := pc\<rparr>])"
  using assms(2)
proof (induction n arbitrary: pc p')
  case 0
  then have "(ls ! i)\<lparr>sr_pc := pc\<rparr> = ls ! i" by (cases "ls ! i") auto
  then have same: "ls[i := (ls ! i)\<lparr>sr_pc := pc\<rparr>] = ls" by (simp only: list_update_id)
  from 0 have "p' = p" by simp
  then show ?case unfolding same by simp
next
  case (Suc n)
  obtain pc1 p1 where one: "(switch_turn api (sr_cfg (ls ! i)) (sr_now (ls ! i)) ^^ n) (sr_pc (ls ! i), p) = (pc1, p1)"
    by force
  let ?ls = "ls[i := (ls ! i)\<lparr>sr_pc := pc1\<rparr>]"
  have "switch_turn api (sr_cfg (ls ! i)) (sr_now (ls ! i)) (pc1, p1) = (pc, p')"
    using Suc.prems one by simp
  then have "switch_step api (sr_cfg (ls ! i)) (sr_now (ls ! i)) pc1 p1 = (pc, p')"
    by (simp add: switch_turn_def)
  then have "switcher_moves api (?ls ! i) (world p1) ((ls ! i)\<lparr>sr_pc := pc\<rparr>) (world p')"
    using switcher_moves.intros[of api "?ls ! i" p1 pc p'] assms(1) by simp
  with interleaved.moves[where i = i and ls = ?ls and move = "switcher_moves api"] assms(1)
  have "interleaved (launched cfg0) (switcher_moves api) other
      (world p1, ?ls) (world p', ?ls[i := (ls ! i)\<lparr>sr_pc := pc\<rparr>])" by simp
  then have "interleaved (launched cfg0) (switcher_moves api) other
      (world p1, ?ls) (world p', ls[i := (ls ! i)\<lparr>sr_pc := pc\<rparr>])" by simp
  then show ?case using Suc.IH[OF one] by (rule rtranclp.rtrancl_into_rtrancl[rotated])
qed

section \<open>Properties\<close>

lemma switch_bound_turns:
  assumes "switch_bound cfg \<le> n"
  shows "(switch_turn api cfg now ^^ n) (switch_begin cfg, p) =
     (case k8s_switch api cfg now p of ((sw, err), p') \<Rightarrow> (Finished sw err, p'))"
proof -
  obtain sw err p' where k: "k8s_switch api cfg now p = ((sw, err), p')" by (metis prod.collapse)
  show ?thesis
    using turns_to_finished[OF k8s_switch_turns[OF k], of n] steps_left_begin[of cfg] assms by (simp add: k)
qed


text \<open>
  C17: A switch is wait-free. Whatever the API answers and whatever the other processes make of the
  cluster between its calls, a switch has returned after at most two steps per target and two more,
  and returned is a state it stays in.
\<close>

theorem switch_wait_free:
  assumes "2 * length (cfg_configmaps cfg) + 2 * length (cfg_deployments cfg) + 2 \<le> length ps"
  shows "\<exists>sw err. steps_among api cfg now ps (switch_begin cfg) = Finished sw err \<and>
     (\<forall>p. switch_step api cfg now (Finished sw err) p = (Finished sw err, p))"
proof -
  have "steps_left cfg (steps_among api cfg now ps (switch_begin cfg)) = 0"
    using steps_among_left[of cfg api now ps "switch_begin cfg"] steps_left_begin[of cfg] assms
    by (simp add: switch_bound_def)
  then show ?thesis by (auto simp: steps_left_0)
qed

text \<open>
  C9: Concurrent switches converge. Take any number of switches of one failover, started at any time,
  each able to stop for good at any point, their API calls interleaved in any order with each other
  and with anything that keeps the failover. Then every switch that has returned a nil error outside
  dry-run has all its targets moved, from its return on; no ConfigMap leaves the secondary and no
  stamp is lost; and the stamps stay honest.
\<close>

theorem concurrent_switches_converge:
  assumes "api_documented api cms deps" and "switches_run api cms deps cfg0 (w0, []) (w, ss)"
  shows "(\<forall>s \<in> set ss. \<forall>sw. sr_pc s = Finished sw None \<and> \<not> cfg_dry_run (sr_cfg s) \<longrightarrow>
        all_moved (sr_cfg s) (cms w) (deps w)) \<and>
     (\<forall>r. on_secondary cfg0 (cms w0) r \<longrightarrow> on_secondary cfg0 (cms w) r) \<and>
     (\<forall>r. stamped cfg0 (deps w0) r \<longrightarrow> stamped cfg0 (deps w) r) \<and>
     (stamps_honest cfg0 (cms w0) (deps w0) \<longrightarrow> stamps_honest cfg0 (cms w) (deps w))"
proof -
  have keep: "keeps_failover cms deps cfg0 w0 w"
    using switches.all_ok(2)[OF assms(2)] assms(1) by blast
  have "all_moved (sr_cfg s) (cms w) (deps w)"
    if "s \<in> set ss" "sr_pc s = Finished sw None" "\<not> cfg_dry_run (sr_cfg s)" for s sw
    using switches.all_ok(1)[OF assms(2) that(1)] assms(1) that(2,3) by (simp add: switcher_ok_def)
  then show ?thesis
    using keep keeps_failover_honest[of cms deps cfg0, OF keep] unfolding keeps_failover_def by blast
qed

section \<open>Witnesses\<close>


theorem switch_wait_free_witness:
  "\<exists>sw err. steps_among mem_api (app_config False) ''t'' (replicate 6 (idle (app_mem ''main'' [] [])))
     (switch_begin (app_config False)) = Finished sw err"
  using switch_wait_free[of "app_config False" "replicate 6 (idle (app_mem ''main'' [] []))" mem_api "''t''"]
  by (auto simp: app_config_def)

definition app_switcher :: switcher where
  "app_switcher = \<lparr>sr_cfg = app_config False, sr_now = ''t'', sr_pc = switch_begin (app_config False)\<rparr>"

lemma app_switcher_simps [simp]:
  "sr_cfg app_switcher = app_config False" "sr_now app_switcher = ''t''"
  "sr_pc app_switcher = switch_begin (app_config False)" "\<not> cfg_dry_run (app_config False)"
  by (simp_all add: app_switcher_def app_config_def)

lemma idle_world: "world (idle w) = w"
  by (simp add: idle_def)

text \<open>Two switches: the second has read the ConfigMap when the first runs to its end.\<close>

lemma app_interleaving:
  "\<exists>pc w. switches_run mem_api mem_cms mem_deps (app_config False) (app_mem ''main'' [] [], [])
     (w, [app_switcher\<lparr>sr_pc := Finished True None\<rparr>, app_switcher\<lparr>sr_pc := pc\<rparr>])"
proof -
  let ?run = "switches_run mem_api mem_cms mem_deps (app_config False)"
  let ?w = "app_mem ''main'' [] []"
  let ?turn = "switch_turn mem_api (app_config False) ''t''"
  have l: "launched (app_config False) app_switcher"
    by (simp add: launched_def same_failover_def)
  have j1: "?run (?w, []) (?w, [app_switcher])"
    using interleaved.joins[where start = "launched (app_config False)" and ls = "[]", OF l]
    by (intro r_into_rtranclp) simp
  have j2: "?run (?w, [app_switcher]) (?w, [app_switcher, app_switcher])"
    using interleaved.joins[where start = "launched (app_config False)" and ls = "[app_switcher]", OF l]
    by (intro r_into_rtranclp) simp
  define pc where "pc = fst (switch_step mem_api (app_config False) ''t'' (switch_begin (app_config False)) (idle ?w))"
  have "snd (switch_step mem_api (app_config False) ''t'' (switch_begin (app_config False)) (idle ?w)) = idle ?w"
    by (simp add: switch_begin_def app_eval)
  then have "(?turn ^^ 1) (switch_begin (app_config False), idle ?w) = (pc, idle ?w)"
    by (simp add: switch_turn_def pc_def prod_eq_iff)
  then have "?run (world (idle ?w), [app_switcher, app_switcher])
      (world (idle ?w), [app_switcher, app_switcher][1 := ([app_switcher, app_switcher] ! 1)\<lparr>sr_pc := pc\<rparr>])"
    by (intro turns_run[where n = 1]) simp_all
  then have "?run (?w, [app_switcher, app_switcher]) (?w, [app_switcher, app_switcher\<lparr>sr_pc := pc\<rparr>])"
    by (simp only: idle_world) simp
  with j1 j2 have start: "?run (?w, []) (?w, [app_switcher, app_switcher\<lparr>sr_pc := pc\<rparr>])"
    by (meson rtranclp_trans)
  obtain p' where k: "k8s_switch mem_api (app_config False) ''t'' (idle ?w) = ((True, None), p')"
    using app_switch by (metis prod.collapse)
  have "(?turn ^^ switch_bound (app_config False)) (switch_begin (app_config False), idle ?w) = (Finished True None, p')"
    by (simp add: switch_bound_turns k)
  then have "?run (world (idle ?w), [app_switcher, app_switcher\<lparr>sr_pc := pc\<rparr>])
      (world p', [app_switcher, app_switcher\<lparr>sr_pc := pc\<rparr>]
         [0 := ([app_switcher, app_switcher\<lparr>sr_pc := pc\<rparr>] ! 0)\<lparr>sr_pc := Finished True None\<rparr>])"
    by (intro turns_run[where n = "switch_bound (app_config False)"]) simp_all
  then have "?run (?w, [app_switcher, app_switcher\<lparr>sr_pc := pc\<rparr>])
      (world p', [app_switcher\<lparr>sr_pc := Finished True None\<rparr>, app_switcher\<lparr>sr_pc := pc\<rparr>])"
    by (simp only: idle_world) simp
  from rtranclp_trans[OF start this] show ?thesis by (intro exI)
qed

theorem concurrent_switches_converge_witness:
  "\<exists>pc w. switches_run mem_api mem_cms mem_deps (app_config False) (app_mem ''main'' [] [], [])
     (w, [app_switcher\<lparr>sr_pc := Finished True None\<rparr>, app_switcher\<lparr>sr_pc := pc\<rparr>]) \<and>
     all_moved (app_config False) (mem_cms w) (mem_deps w)"
proof -
  obtain pc w where run: "switches_run mem_api mem_cms mem_deps (app_config False) (app_mem ''main'' [] [], [])
     (w, [app_switcher\<lparr>sr_pc := Finished True None\<rparr>, app_switcher\<lparr>sr_pc := pc\<rparr>])"
    using app_interleaving by blast
  then have "all_moved (app_config False) (mem_cms w) (mem_deps w)"
    using concurrent_switches_converge[OF mem_api_documented run] by (simp add: ex_bool_eq)
  with run show ?thesis by blast
qed

end
