(* ===== verification/Svc_Health.thy ===== *)
theory Svc_Health
  imports Go_Strings "HOL-Library.AList"
begin

text \<open>
  Package \<open>pkg/svchealth\<close>, the pure part: the rollup of endpoint probes into per-service and
  global health (\<open>health.go\<close>).

  A Go map filled by a loop is an association list with distinct keys; a map that leaves the
  function is listed in the order of its keys, which is what \<open>encoding/json\<close> and the sorted
  iterations of the code show of it. The abstract specification of the global verdict speaks of
  the probes alone (\<open>observed\<close>, \<open>svc_failing\<close>, \<open>spec_status\<close>).
\<close>

section \<open>Data\<close>

record probe =
  pr_service :: gostring
  pr_host :: gostring
  pr_ok :: bool

record service_health =
  sh_status :: gostring
  sh_reachable :: nat
  sh_unreachable :: "gostring list"

record report =
  rep_status :: gostring
  rep_critical :: "gostring list"
  rep_services :: "(gostring \<times> service_health) list"
  rep_reason :: gostring
  rep_checked_at :: gostring

record agg =
  agg_reachable :: nat
  agg_unreachable :: "gostring list"

abbreviation UP :: gostring where "UP \<equiv> ''UP''"
abbreviation DOWN :: gostring where "DOWN \<equiv> ''DOWN''"
abbreviation DEGRADED :: gostring where "DEGRADED \<equiv> ''DEGRADED''"

section \<open>Compute\<close>

definition empty_agg :: agg where
  "empty_agg = \<lparr>agg_reachable = 0, agg_unreachable = []\<rparr>"

text \<open>One iteration of the first loop: placeholders are skipped, a fresh key starts empty.\<close>

definition agg_of :: "(gostring \<times> agg) list \<Rightarrow> gostring \<Rightarrow> agg" where
  "agg_of m svc = (case map_of m svc of None \<Rightarrow> empty_agg | Some a \<Rightarrow> a)"

definition add_endpoint :: "probe \<Rightarrow> agg \<Rightarrow> agg" where
  "add_endpoint pr a =
     (if pr_ok pr then a\<lparr>agg_reachable := agg_reachable a + 1\<rparr>
      else a\<lparr>agg_unreachable := agg_unreachable a @ [pr_host pr]\<rparr>)"

fun by_service :: "(gostring \<times> agg) list \<Rightarrow> probe list \<Rightarrow> (gostring \<times> agg) list" where
  "by_service m [] = m"
| "by_service m (pr # prs) =
     (if pr_host pr = [] then by_service m prs
      else by_service (AList.update (pr_service pr) (add_endpoint pr (agg_of m (pr_service pr))) m) prs)"

definition rollup :: "agg \<Rightarrow> service_health" where
  "rollup a =
     (let us = sort (agg_unreachable a);
          status = (if length us > 0 \<or> agg_reachable a = 0 then DOWN else UP)
      in \<lparr>sh_status = status, sh_reachable = agg_reachable a, sh_unreachable = us\<rparr>)"

definition services_of :: "probe list \<Rightarrow> (gostring \<times> service_health) list" where
  "services_of prs = sort_key fst (map (\<lambda>(svc, a). (svc, rollup a)) (by_service [] prs))"

definition endpoints_reason :: "gostring \<Rightarrow> gostring \<Rightarrow> service_health \<Rightarrow> gostring" where
  "endpoints_reason what svc sh =
     what @ '' service '' @ go_quote svc @ '' has '' @ show_nat (length (sh_unreachable sh)) @ ''/'' @
     show_nat (sh_reachable sh + length (sh_unreachable sh)) @ '' endpoint(s) unreachable''"

definition not_observed_reason :: "gostring \<Rightarrow> gostring" where
  "not_observed_reason svc = ''critical service '' @ go_quote svc @ '' not observed''"

text \<open>The loop over the critical services, which stops at the first that is missing or down.\<close>

fun critical_verdict ::
  "(gostring \<times> service_health) list \<Rightarrow> gostring list \<Rightarrow> gostring \<times> gostring" where
  "critical_verdict services [] = (UP, ''all critical services reachable'')"
| "critical_verdict services (svc # rest) =
     (case map_of services svc of
        None \<Rightarrow> (DOWN, not_observed_reason svc)
      | Some sh \<Rightarrow>
          if sh_status sh = DOWN then (DOWN, endpoints_reason ''critical'' svc sh)
          else critical_verdict services rest)"

text \<open>The loop over the sorted service names, which stops at the first non-critical one that is down.\<close>

fun noncritical_verdict ::
  "gostring list \<Rightarrow> (gostring \<times> service_health) list \<Rightarrow> gostring \<times> gostring \<Rightarrow> gostring \<times> gostring" where
  "noncritical_verdict critical [] v = v"
| "noncritical_verdict critical ((name, sh) # rest) v =
     (if name \<in> set critical then noncritical_verdict critical rest v
      else if sh_status sh = DOWN then (DEGRADED, endpoints_reason ''non-critical'' name sh)
      else noncritical_verdict critical rest v)"

definition compute :: "probe list \<Rightarrow> gostring list \<Rightarrow> gostring \<Rightarrow> report" where
  "compute prs critical checked_at =
     (let services = services_of prs;
          v = critical_verdict services critical;
          (global, reason) = (if fst v = UP then noncritical_verdict critical services v else v)
      in \<lparr>rep_status = global, rep_critical = critical, rep_services = services,
          rep_reason = reason, rep_checked_at = checked_at\<rparr>)"

section \<open>What the first loop collects\<close>

definition relevant :: "gostring \<Rightarrow> probe \<Rightarrow> bool" where
  "relevant svc pr \<longleftrightarrow> pr_host pr \<noteq> [] \<and> pr_service pr = svc"

definition observed :: "probe list \<Rightarrow> gostring \<Rightarrow> bool" where
  "observed prs svc \<longleftrightarrow> (\<exists>pr \<in> set prs. relevant svc pr)"

definition svc_failing :: "probe list \<Rightarrow> gostring \<Rightarrow> bool" where
  "svc_failing prs svc \<longleftrightarrow> (\<exists>pr \<in> set prs. relevant svc pr \<and> \<not> pr_ok pr)"

definition ok_count :: "probe list \<Rightarrow> gostring \<Rightarrow> nat" where
  "ok_count prs svc = length (filter (\<lambda>pr. relevant svc pr \<and> pr_ok pr) prs)"

definition failing_hosts :: "probe list \<Rightarrow> gostring \<Rightarrow> gostring list" where
  "failing_hosts prs svc = map pr_host (filter (\<lambda>pr. relevant svc pr \<and> \<not> pr_ok pr) prs)"

lemma distinct_by_service: "distinct (map fst m) \<Longrightarrow> distinct (map fst (by_service m prs))"
  by (induction m prs rule: by_service.induct) (auto simp: distinct_update)

lemma agg_of_update:
  "agg_of (AList.update k a m) svc = (if k = svc then a else agg_of m svc)"
  by (simp add: agg_of_def update_conv)

lemma agg_of_by_service:
  "agg_of (by_service m prs) svc =
     \<lparr>agg_reachable = agg_reachable (agg_of m svc) + ok_count prs svc,
      agg_unreachable = agg_unreachable (agg_of m svc) @ failing_hosts prs svc\<rparr>"
  by (induction m prs rule: by_service.induct)
     (auto simp: agg_of_update ok_count_def failing_hosts_def relevant_def add_endpoint_def)

lemma keys_by_service:
  "map_of (by_service m prs) svc = None \<longleftrightarrow> map_of m svc = None \<and> \<not> observed prs svc"
  by (induction m prs rule: by_service.induct)
     (auto simp: observed_def relevant_def update_conv)

definition service_spec :: "probe list \<Rightarrow> gostring \<Rightarrow> service_health option" where
  "service_spec prs svc =
     (if observed prs svc
      then Some \<lparr>sh_status = (if svc_failing prs svc then DOWN else UP),
                 sh_reachable = ok_count prs svc, sh_unreachable = sort (failing_hosts prs svc)\<rparr>
      else None)"

lemma ok_count_zero_iff:
  "ok_count prs svc = 0 \<longleftrightarrow> \<not> (\<exists>pr \<in> set prs. relevant svc pr \<and> pr_ok pr)"
  by (auto simp: ok_count_def filter_empty_conv)

lemma failing_hosts_Nil_iff: "failing_hosts prs svc = [] \<longleftrightarrow> \<not> svc_failing prs svc"
  by (auto simp: failing_hosts_def svc_failing_def filter_empty_conv)

lemma svc_failing_observed: "svc_failing prs svc \<Longrightarrow> observed prs svc"
  by (auto simp: svc_failing_def observed_def)

lemma rollup_by_service:
  assumes "map_of (by_service [] prs) svc = Some a"
  shows "Some (rollup a) = service_spec prs svc"
proof -
  have "a = \<lparr>agg_reachable = ok_count prs svc, agg_unreachable = failing_hosts prs svc\<rparr>"
    using assms agg_of_by_service[of "[]" prs svc] by (simp add: agg_of_def empty_agg_def)
  then have a: "agg_reachable a = ok_count prs svc" "agg_unreachable a = failing_hosts prs svc"
    by auto
  have obs: "observed prs svc"
    using assms keys_by_service[of "[]" prs svc] by auto
  then have "ok_count prs svc = 0 \<Longrightarrow> svc_failing prs svc"
    by (auto simp: ok_count_zero_iff svc_failing_def observed_def)
  moreover have "sort (failing_hosts prs svc) = [] \<longleftrightarrow> \<not> svc_failing prs svc"
    by (metis failing_hosts_Nil_iff set_empty set_sort)
  ultimately show ?thesis
    using a obs by (auto simp: rollup_def service_spec_def Let_def)
qed

lemma distinct_services_of: "distinct (map fst (services_of prs))"
  using distinct_by_service[of "[]" prs] by (simp add: services_of_def comp_def case_prod_unfold)

lemma sorted_services_of: "sorted (map fst (services_of prs))"
  by (simp add: services_of_def)

lemma services_of_lookup: "map_of (services_of prs) svc = service_spec prs svc"
proof -
  have "map_of (services_of prs) svc = map_option rollup (map_of (by_service [] prs) svc)"
    using distinct_by_service[of "[]" prs]
    by (simp add: services_of_def map_of_sort_key_fst comp_def case_prod_unfold
        map_of_map_values)
  also have "\<dots> = service_spec prs svc"
    using keys_by_service[of "[]" prs svc] rollup_by_service[of prs svc]
    by (cases "map_of (by_service [] prs) svc") (auto simp: service_spec_def)
  finally show ?thesis .
qed

lemma services_of_mem:
  "(svc, sh) \<in> set (services_of prs) \<longleftrightarrow> service_spec prs svc = Some sh"
  using services_of_lookup[of prs svc] distinct_services_of[of prs]
  by (metis Some_eq_map_of_iff)

lemma services_of_names: "set (map fst (services_of prs)) = {svc. observed prs svc}"
proof -
  have "svc \<in> set (map fst (services_of prs)) \<longleftrightarrow> observed prs svc" for svc
    using map_of_eq_None_iff[of "services_of prs" svc]
    by (simp add: services_of_lookup service_spec_def split: if_splits)
  then show ?thesis by blast
qed

lemma services_of_cong:
  assumes "service_spec prs = service_spec qrs"
  shows "services_of prs = services_of qrs"
proof -
  have "sort_key fst (services_of prs) = sort_key fst (services_of qrs)"
    using assms
    by (intro sort_key_fst_eqI) (auto simp: distinct_services_of services_of_lookup)
  then show ?thesis
    by (simp add: sort_key_id_if_sorted sorted_services_of)
qed

section \<open>The global verdict\<close>

definition svc_up :: "probe list \<Rightarrow> gostring \<Rightarrow> bool" where
  "svc_up prs svc \<longleftrightarrow> observed prs svc \<and> \<not> svc_failing prs svc"

text \<open>The abstract contract: the verdict as a property of the probes.\<close>

definition spec_status :: "probe list \<Rightarrow> gostring list \<Rightarrow> gostring" where
  "spec_status prs critical =
     (if \<exists>svc \<in> set critical. \<not> svc_up prs svc then DOWN
      else if \<exists>pr \<in> set prs. pr_host pr \<noteq> [] \<and> \<not> pr_ok pr then DEGRADED
      else UP)"

lemma critical_verdict_spec:
  "critical_verdict (services_of prs) critical =
     (case find (\<lambda>svc. \<not> svc_up prs svc) critical of
        None \<Rightarrow> (UP, ''all critical services reachable'')
      | Some svc \<Rightarrow> (DOWN, (case service_spec prs svc of
            None \<Rightarrow> not_observed_reason svc | Some sh \<Rightarrow> endpoints_reason ''critical'' svc sh)))"
  by (induction critical)
     (auto simp: services_of_lookup service_spec_def svc_up_def svc_failing_observed)

lemma noncritical_verdict_spec:
  assumes "\<And>name sh. (name, sh) \<in> set svcs \<Longrightarrow> service_spec prs name = Some sh"
  shows "noncritical_verdict critical svcs v =
     (case find (\<lambda>name. name \<notin> set critical \<and> svc_failing prs name) (map fst svcs) of
        None \<Rightarrow> v
      | Some name \<Rightarrow> (DEGRADED, endpoints_reason ''non-critical'' name (the (service_spec prs name))))"
  using assms
proof (induction critical svcs v rule: noncritical_verdict.induct)
  case (2 critical name sh rest v)
  then have "service_spec prs name = Some sh" by simp
  then have "sh_status sh = DOWN \<longleftrightarrow> svc_failing prs name"
    by (auto simp: service_spec_def split: if_splits)
  with 2 show ?case by (simp add: \<open>service_spec prs name = Some sh\<close>)
qed simp

lemmas noncritical_of_services =
  noncritical_verdict_spec [OF services_of_mem [THEN iffD1]]

lemma compute_verdict:
  "compute prs critical t =
     \<lparr>rep_status =
        (if find (\<lambda>svc. \<not> svc_up prs svc) critical \<noteq> None then DOWN
         else if find (\<lambda>name. name \<notin> set critical \<and> svc_failing prs name)
                   (map fst (services_of prs)) \<noteq> None then DEGRADED
         else UP),
      rep_critical = critical, rep_services = services_of prs,
      rep_reason =
        (case find (\<lambda>svc. \<not> svc_up prs svc) critical of
           Some svc \<Rightarrow> (case service_spec prs svc of
               None \<Rightarrow> not_observed_reason svc | Some sh \<Rightarrow> endpoints_reason ''critical'' svc sh)
         | None \<Rightarrow>
             (case find (\<lambda>name. name \<notin> set critical \<and> svc_failing prs name)
                     (map fst (services_of prs)) of
                Some name \<Rightarrow> endpoints_reason ''non-critical'' name (the (service_spec prs name))
              | None \<Rightarrow> ''all critical services reachable'')),
      rep_checked_at = t\<rparr>"
  by (simp add: compute_def Let_def critical_verdict_spec noncritical_of_services
      split: option.splits)

lemma compute_simps [simp]:
  "rep_critical (compute prs critical t) = critical"
  "rep_services (compute prs critical t) = services_of prs"
  "rep_checked_at (compute prs critical t) = t"
  by (simp_all add: compute_verdict)

lemma failing_noncritical_iff:
  assumes "find (\<lambda>svc. \<not> svc_up prs svc) critical = None"
  shows "find (\<lambda>name. name \<notin> set critical \<and> svc_failing prs name) (map fst (services_of prs)) \<noteq> None
     \<longleftrightarrow> (\<exists>pr \<in> set prs. pr_host pr \<noteq> [] \<and> \<not> pr_ok pr)"
proof -
  have "(\<exists>name. observed prs name \<and> name \<notin> set critical \<and> svc_failing prs name) \<longleftrightarrow>
      (\<exists>name. svc_failing prs name)"
    using assms svc_failing_observed by (auto simp: find_None_iff_all svc_up_def)
  also have "\<dots> \<longleftrightarrow> (\<exists>pr \<in> set prs. pr_host pr \<noteq> [] \<and> \<not> pr_ok pr)"
    by (auto simp: svc_failing_def relevant_def)
  finally show ?thesis
    using services_of_names[of prs] by (simp add: find_None_iff_all)
qed

lemma compute_status_eq: "rep_status (compute prs critical t) = spec_status prs critical"
  using failing_noncritical_iff[of prs critical]
  by (auto simp: compute_verdict spec_status_def find_None_iff_all)

lemma compute_down_iff:
  "rep_status (compute prs critical t) = DOWN \<longleftrightarrow> (\<exists>svc \<in> set critical. \<not> svc_up prs svc)"
  by (auto simp: compute_status_eq spec_status_def)

lemma compute_status_range:
  "rep_status (compute prs critical t) \<in> {UP, DEGRADED, DOWN}"
  by (auto simp: compute_status_eq spec_status_def)

lemma compute_nothing_observed:
  "critical \<noteq> [] \<Longrightarrow> rep_status (compute [] critical t) = DOWN"
  by (cases critical) (auto simp: compute_down_iff svc_up_def observed_def)

section \<open>Order of the probes\<close>

lemma ok_count_mset: "mset prs = mset qrs \<Longrightarrow> ok_count prs svc = ok_count qrs svc"
  by (simp add: ok_count_def) (metis mset_filter size_mset)

lemma failing_hosts_mset:
  "mset prs = mset qrs \<Longrightarrow> sort (failing_hosts prs svc) = sort (failing_hosts qrs svc)"
  by (rule sort_eq_if_mset_eq) (simp add: failing_hosts_def)

lemma service_spec_mset:
  assumes "mset prs = mset qrs"
  shows "service_spec prs = service_spec qrs"
proof -
  have "set prs = set qrs" using assms by (rule mset_eq_setD)
  then show ?thesis
    using ok_count_mset[OF assms] failing_hosts_mset[OF assms]
    by (auto simp: service_spec_def observed_def svc_failing_def fun_eq_iff)
qed

lemma svc_up_mset: "mset prs = mset qrs \<Longrightarrow> svc_up prs = svc_up qrs"
  by (auto simp: svc_up_def observed_def svc_failing_def fun_eq_iff dest!: mset_eq_setD)

lemma svc_failing_mset: "mset prs = mset qrs \<Longrightarrow> svc_failing prs = svc_failing qrs"
  by (auto simp: svc_failing_def fun_eq_iff dest!: mset_eq_setD)

lemma compute_mset:
  assumes "mset prs = mset qrs"
  shows "compute prs critical t = compute qrs critical t"
  using services_of_cong[OF service_spec_mset[OF assms]] service_spec_mset[OF assms]
    svc_up_mset[OF assms] svc_failing_mset[OF assms]
  by (simp only: compute_verdict)

section \<open>Properties\<close>

text \<open>
  C5: The report of \<open>Compute\<close> against its contract. The global status is \<open>DOWN\<close> when some
  critical service is unobserved or has an unreachable endpoint, else \<open>DEGRADED\<close> when any
  endpoint is unreachable, else \<open>UP\<close>; the service map holds exactly the observed services, each
  once and in key order, with its status, its reachable count and its sorted failing hosts.
\<close>

theorem compute_contract:
  "rep_status (compute prs critical t) = spec_status prs critical \<and>
   (\<forall>svc. map_of (rep_services (compute prs critical t)) svc = service_spec prs svc) \<and>
   sorted (map fst (rep_services (compute prs critical t))) \<and>
   distinct (map fst (rep_services (compute prs critical t)))"
  by (simp add: compute_status_eq services_of_lookup sorted_services_of distinct_services_of)

text \<open>
  The report does not depend on the order in which the endpoint probes arrive (the prober
  walks a Go map, whose order is random): permuted rounds give the same report, reason included.
\<close>

theorem compute_order_independent:
  "mset prs = mset qrs \<Longrightarrow> compute prs critical t = compute qrs critical t"
  by (rule compute_mset)

theorem compute_order_independent_witness:
  "compute [\<lparr>pr_service = ''kv'', pr_host = ''n1'', pr_ok = False\<rparr>,
            \<lparr>pr_service = ''query'', pr_host = ''n2'', pr_ok = True\<rparr>] [''kv''] [] =
   compute [\<lparr>pr_service = ''query'', pr_host = ''n2'', pr_ok = True\<rparr>,
            \<lparr>pr_service = ''kv'', pr_host = ''n1'', pr_ok = False\<rparr>] [''kv''] []"
  by (rule compute_order_independent) simp

lemma compute_DOWN_cases:
  assumes "rep_status (compute prs critical t) = DOWN"
  obtains pre svc post where "critical = pre @ svc # post" "\<forall>c \<in> set pre. svc_up prs c"
    "\<not> svc_up prs svc"
    "rep_reason (compute prs critical t) =
       (case service_spec prs svc of
          None \<Rightarrow> not_observed_reason svc | Some sh \<Rightarrow> endpoints_reason ''critical'' svc sh)"
proof -
  from assms obtain svc where f: "find (\<lambda>svc. \<not> svc_up prs svc) critical = Some svc"
    by (auto simp: compute_verdict split: if_splits)
  have "rep_reason (compute prs critical t) =
      (case service_spec prs svc of
         None \<Rightarrow> not_observed_reason svc | Some sh \<Rightarrow> endpoints_reason ''critical'' svc sh)"
    by (simp add: compute_verdict f)
  with f show thesis
    by (elim find_SomeE) (rule that, auto)
qed

lemma compute_DEGRADED_cases:
  assumes "rep_status (compute prs critical t) = DEGRADED"
  obtains svc where "svc \<notin> set critical" "svc_failing prs svc"
    "\<And>s. s \<notin> set critical \<Longrightarrow> svc_failing prs s \<Longrightarrow> svc \<le> s"
    "rep_reason (compute prs critical t) =
       endpoints_reason ''non-critical'' svc (the (service_spec prs svc))"
proof -
  let ?P = "\<lambda>name. name \<notin> set critical \<and> svc_failing prs name"
  from assms obtain svc where up: "find (\<lambda>svc. \<not> svc_up prs svc) critical = None"
    and f: "find ?P (map fst (services_of prs)) = Some svc"
    by (auto simp: compute_verdict split: if_splits)
  from find_Some_mem[OF f] have "?P svc" by simp
  moreover have "svc \<le> s" if "s \<notin> set critical" "svc_failing prs s" for s
  proof -
    have "s \<in> set (map fst (services_of prs))"
      using services_of_names that(2) svc_failing_observed by auto
    then show ?thesis
      using find_sorted_least[OF f sorted_services_of] that by simp
  qed
  ultimately show thesis
    by (intro that) (auto simp: compute_verdict f up)
qed

text \<open>
  The reason names the culprit the code's loops stop at. A \<open>DOWN\<close> report names the first
  critical service, in configuration order, that is unobserved or has a failing endpoint, all
  critical services before it being up; a \<open>DEGRADED\<close> report names the alphabetically least
  failing non-critical service, with its count of failing endpoints.
\<close>

theorem compute_reason_names_culprit:
  assumes "rep_status (compute prs critical t) \<noteq> UP"
  shows "(\<exists>pre svc post. rep_status (compute prs critical t) = DOWN \<and>
            critical = pre @ svc # post \<and> (\<forall>c \<in> set pre. svc_up prs c) \<and> \<not> svc_up prs svc \<and>
            rep_reason (compute prs critical t) =
              (case service_spec prs svc of None \<Rightarrow> not_observed_reason svc
               | Some sh \<Rightarrow> endpoints_reason ''critical'' svc sh)) \<or>
         (\<exists>svc. rep_status (compute prs critical t) = DEGRADED \<and>
            svc \<notin> set critical \<and> svc_failing prs svc \<and>
            (\<forall>s. s \<notin> set critical \<and> svc_failing prs s \<longrightarrow> svc \<le> s) \<and>
            rep_reason (compute prs critical t) =
              endpoints_reason ''non-critical'' svc (the (service_spec prs svc)))"
proof -
  consider "rep_status (compute prs critical t) = DOWN" | "rep_status (compute prs critical t) = DEGRADED"
    using assms compute_status_range[of prs critical t] by auto
  then show ?thesis
  proof cases
    case 1
    then show ?thesis by (rule compute_DOWN_cases) (use 1 in blast)
  next
    case 2
    then show ?thesis by (rule compute_DEGRADED_cases) (use 2 in blast)
  qed
qed

theorem compute_reason_names_culprit_witness:
  "rep_reason (compute [\<lparr>pr_service = ''kv'', pr_host = ''n1'', pr_ok = True\<rparr>,
                        \<lparr>pr_service = ''query'', pr_host = ''n1'', pr_ok = False\<rparr>] [''kv''] []) =
   endpoints_reason ''non-critical'' ''query''
     \<lparr>sh_status = DOWN, sh_reachable = 0, sh_unreachable = [''n1'']\<rparr>"
proof -
  let ?prs = "[\<lparr>pr_service = ''kv'', pr_host = ''n1'', pr_ok = True\<rparr>,
               \<lparr>pr_service = ''query'', pr_host = ''n1'', pr_ok = False\<rparr>]"
  have st: "rep_status (compute ?prs [''kv''] []) = DEGRADED" by code_simp
  have q: "svc_failing ?prs s \<longleftrightarrow> s = ''query''" for s
    by (auto simp: svc_failing_def relevant_def)
  have "service_spec ?prs ''query'' =
      Some \<lparr>sh_status = DOWN, sh_reachable = 0, sh_unreachable = [''n1'']\<rparr>"
    by code_simp
  with compute_reason_names_culprit[of ?prs "[''kv'']" "[]"] st q show ?thesis by auto
qed

text \<open>How bad a verdict is.\<close>

definition severity :: "gostring \<Rightarrow> nat" where
  "severity s = (if s = DOWN then 2 else if s = DEGRADED then 1 else 0)"

definition worse_probe :: "probe \<Rightarrow> probe \<Rightarrow> bool" where
  "worse_probe p q \<longleftrightarrow>
     pr_service q = pr_service p \<and> pr_host q = pr_host p \<and> (pr_ok q \<longrightarrow> pr_ok p)"

lemma worse_observed:
  "list_all2 worse_probe prs qrs \<Longrightarrow> observed qrs svc \<longleftrightarrow> observed prs svc"
  by (induction rule: list_all2_induct) (auto simp: observed_def relevant_def worse_probe_def)

lemma worse_failing:
  "list_all2 worse_probe prs qrs \<Longrightarrow> svc_failing prs svc \<Longrightarrow> svc_failing qrs svc"
  by (induction rule: list_all2_induct) (auto simp: svc_failing_def relevant_def worse_probe_def)

lemma some_failing_iff:
  "(\<exists>pr \<in> set prs. pr_host pr \<noteq> [] \<and> \<not> pr_ok pr) \<longleftrightarrow> (\<exists>svc. svc_failing prs svc)"
  by (auto simp: svc_failing_def relevant_def)

text \<open>
  Losing endpoints never improves the verdict: when a round differs from another only in
  endpoints that became unreachable, its global status is at least as severe.
\<close>

theorem compute_monotone:
  assumes "list_all2 worse_probe prs qrs"
  shows "severity (rep_status (compute prs critical t)) \<le> severity (rep_status (compute qrs critical t))"
  using worse_observed[OF assms] worse_failing[OF assms]
  unfolding compute_status_eq spec_status_def some_failing_iff
  by (auto simp: severity_def svc_up_def)

theorem compute_monotone_witness:
  "severity (rep_status (compute [\<lparr>pr_service = ''kv'', pr_host = ''n1'', pr_ok = True\<rparr>] [''kv''] [])) \<le>
   severity (rep_status (compute [\<lparr>pr_service = ''kv'', pr_host = ''n1'', pr_ok = False\<rparr>] [''kv''] []))"
  by (rule compute_monotone) (simp add: worse_probe_def)

end
