(* ===== verification/Node_View.thy ===== *)
theory Node_View
  imports Svc_Health
begin

text \<open>
  The per-node view of \<open>pkg/svchealth/node.go\<close>: \<open>ByNode\<close> pivots a probe round by host,
  \<open>NodeSummary\<close> counts the healthy nodes, \<open>RenderNodes\<close> prints them, and \<open>HostSet\<close> with
  \<open>DiffHosts\<close> compares two rounds. A Go set of hosts is the list of its keys, without
  repetition; everything the code derives from one is sorted first.
\<close>

section \<open>ByNode\<close>

record node_health =
  nh_host :: gostring
  nh_reachable :: "gostring list"
  nh_unreachable :: "gostring list"

record node_agg =
  na_reachable :: "gostring list"
  na_unreachable :: "gostring list"

definition empty_node_agg :: node_agg where
  "empty_node_agg = \<lparr>na_reachable = [], na_unreachable = []\<rparr>"

definition node_agg_of :: "(gostring \<times> node_agg) list \<Rightarrow> gostring \<Rightarrow> node_agg" where
  "node_agg_of m h = (case map_of m h of None \<Rightarrow> empty_node_agg | Some a \<Rightarrow> a)"

definition add_service :: "probe \<Rightarrow> node_agg \<Rightarrow> node_agg" where
  "add_service pr a =
     (if pr_ok pr then a\<lparr>na_reachable := na_reachable a @ [pr_service pr]\<rparr>
      else a\<lparr>na_unreachable := na_unreachable a @ [pr_service pr]\<rparr>)"

fun by_host :: "(gostring \<times> node_agg) list \<Rightarrow> probe list \<Rightarrow> (gostring \<times> node_agg) list" where
  "by_host m [] = m"
| "by_host m (pr # prs) =
     (if pr_host pr = [] then by_host m prs
      else by_host (AList.update (pr_host pr) (add_service pr (node_agg_of m (pr_host pr))) m) prs)"

definition by_node :: "probe list \<Rightarrow> node_health list" where
  "by_node prs =
     (let m = by_host [] prs
      in map (\<lambda>h. let a = node_agg_of m h
                  in \<lparr>nh_host = h, nh_reachable = sort (na_reachable a),
                      nh_unreachable = sort (na_unreachable a)\<rparr>)
             (sort (map fst m)))"

fun count_healthy :: "nat \<Rightarrow> node_health list \<Rightarrow> nat" where
  "count_healthy healthy [] = healthy"
| "count_healthy healthy (n # ns) =
     count_healthy (if length (nh_unreachable n) = 0 then healthy + 1 else healthy) ns"

definition node_summary :: "node_health list \<Rightarrow> nat \<times> nat" where
  "node_summary ns = (count_healthy 0 ns, length ns)"

definition render_node :: "node_health \<Rightarrow> gostring" where
  "render_node n =
     (if length (nh_unreachable n) = 0
      then nh_host n @ '' UP('' @ join '' '' (nh_reachable n) @ '')''
      else nh_host n @ '' DOWN('' @ join '' '' (nh_unreachable n) @ '')'')"

definition render_nodes :: "node_health list \<Rightarrow> gostring" where
  "render_nodes ns = join '', '' (map render_node ns)"

definition services_on :: "bool \<Rightarrow> probe list \<Rightarrow> gostring \<Rightarrow> gostring list" where
  "services_on ok prs h =
     map pr_service (filter (\<lambda>pr. pr_host pr \<noteq> [] \<and> pr_host pr = h \<and> pr_ok pr = ok) prs)"

definition has_host :: "probe list \<Rightarrow> gostring \<Rightarrow> bool" where
  "has_host prs h \<longleftrightarrow> h \<noteq> [] \<and> (\<exists>pr \<in> set prs. pr_host pr = h)"

lemma distinct_by_host: "distinct (map fst m) \<Longrightarrow> distinct (map fst (by_host m prs))"
  by (induction m prs rule: by_host.induct) (auto simp: distinct_update)

lemma keys_by_host:
  "set (map fst (by_host m prs)) = set (map fst m) \<union> {h. has_host prs h}"
  by (induction m prs rule: by_host.induct) (auto simp: has_host_def dom_update)

lemma node_agg_of_by_host:
  "node_agg_of (by_host m prs) h =
     \<lparr>na_reachable = na_reachable (node_agg_of m h) @ services_on True prs h,
      na_unreachable = na_unreachable (node_agg_of m h) @ services_on False prs h\<rparr>"
  by (induction m prs rule: by_host.induct)
     (auto simp: node_agg_of_def update_conv services_on_def add_service_def)

lemma by_node_hosts:
  "sorted (map nh_host (by_node prs)) \<and> distinct (map nh_host (by_node prs)) \<and>
   set (map nh_host (by_node prs)) = {h. has_host prs h}"
proof -
  have "map nh_host (by_node prs) = sort (map fst (by_host [] prs))"
    by (simp add: by_node_def Let_def comp_def)
  moreover have "distinct (map fst (by_host [] prs))"
    by (rule distinct_by_host) simp
  ultimately show ?thesis
    using keys_by_host[of "[]" prs] by simp
qed

lemma by_node_entry:
  assumes "n \<in> set (by_node prs)"
  shows "nh_reachable n = sort (services_on True prs (nh_host n)) \<and>
         nh_unreachable n = sort (services_on False prs (nh_host n)) \<and> has_host prs (nh_host n)"
proof -
  have e: "node_agg_of [] h = empty_node_agg" for h
    by (simp add: node_agg_of_def)
  show ?thesis
    using assms keys_by_host[of "[]" prs]
    by (auto simp: by_node_def Let_def node_agg_of_by_host e empty_node_agg_def)
qed

lemma count_healthy_eq:
  "count_healthy k ns = k + length (filter (\<lambda>n. nh_unreachable n = []) ns)"
  by (induction k ns rule: count_healthy.induct) auto

lemma node_summary_eq:
  "node_summary ns = (length (filter (\<lambda>n. nh_unreachable n = []) ns), length ns)"
  by (simp add: node_summary_def count_healthy_eq)

definition host_healthy :: "probe list \<Rightarrow> gostring \<Rightarrow> bool" where
  "host_healthy prs h \<longleftrightarrow> (\<forall>pr \<in> set prs. pr_host pr = h \<longrightarrow> pr_ok pr)"

lemma unreachable_Nil_iff:
  "n \<in> set (by_node prs) \<Longrightarrow> nh_unreachable n = [] \<longleftrightarrow> host_healthy prs (nh_host n)"
  using by_node_entry[of n prs]
  by (auto simp: host_healthy_def services_on_def has_host_def filter_empty_conv
      simp flip: set_empty)

lemma card_filter_hosts:
  assumes "distinct (map f xs)"
  shows "length (filter P xs) = card (f ` {x \<in> set xs. P x})"
proof -
  have "distinct (map f (filter P xs))"
    using assms by (simp add: distinct_map_filter)
  then have "length (map f (filter P xs)) = card (set (map f (filter P xs)))"
    by (simp only: distinct_card)
  then show ?thesis by simp
qed

lemma node_summary_by_node:
  "node_summary (by_node prs) =
     (card {h. has_host prs h \<and> host_healthy prs h}, card {h. has_host prs h})"
proof -
  have dist: "distinct (map nh_host (by_node prs))"
    and hosts: "set (map nh_host (by_node prs)) = {h. has_host prs h}"
    using by_node_hosts by auto
  have "nh_host ` {n \<in> set (by_node prs). nh_unreachable n = []} =
      {h \<in> set (map nh_host (by_node prs)). host_healthy prs h}"
    using unreachable_Nil_iff[of _ prs] by (auto simp: image_iff)
  also have "\<dots> = {h. has_host prs h \<and> host_healthy prs h}"
    unfolding hosts by simp
  finally have "length (filter (\<lambda>n. nh_unreachable n = []) (by_node prs)) =
      card {h. has_host prs h \<and> host_healthy prs h}"
    using card_filter_hosts[OF dist] by (simp add: hosts)
  moreover have "length (by_node prs) = card {h. has_host prs h}"
    using distinct_card[OF dist] by (simp only: hosts length_map)
  ultimately show ?thesis by (simp add: node_summary_eq)
qed

section \<open>HostSet and DiffHosts\<close>

fun host_set_from :: "gostring gomap_keys \<Rightarrow> probe list \<Rightarrow> gostring gomap_keys" where
  "host_set_from hs [] = hs"
| "host_set_from hs (pr # prs) =
     host_set_from (if pr_host pr \<noteq> [] then add_key (pr_host pr) hs else hs) prs"

definition host_set :: "probe list \<Rightarrow> gostring gomap_keys" where
  "host_set prs = host_set_from [] prs"

definition diff_hosts ::
  "gostring gomap_keys \<Rightarrow> gostring gomap_keys \<Rightarrow> gostring list \<times> gostring list" where
  "diff_hosts prev cur =
     (sort (filter (\<lambda>h. h \<notin> set prev) cur), sort (filter (\<lambda>h. h \<notin> set cur) prev))"

text \<open>\<open>sortedHosts\<close> of \<open>cmd/svchealthcheck/main.go\<close>.\<close>

definition sorted_hosts :: "gostring gomap_keys \<Rightarrow> gostring" where
  "sorted_hosts hs = join '' '' (sort hs)"

lemma set_host_set_from: "set (host_set_from hs prs) = set hs \<union> {h. has_host prs h}"
  by (induction hs prs rule: host_set_from.induct) (auto simp: has_host_def)

lemma distinct_host_set_from: "distinct hs \<Longrightarrow> distinct (host_set_from hs prs)"
  by (induction hs prs rule: host_set_from.induct) auto

lemma set_host_set: "set (host_set prs) = {h. has_host prs h}"
  by (simp add: host_set_def set_host_set_from)

lemma distinct_host_set: "distinct (host_set prs)"
  by (simp add: host_set_def distinct_host_set_from)

lemma host_set_by_node: "sort (host_set prs) = map nh_host (by_node prs)"
  using by_node_hosts[of prs] distinct_host_set[of prs] set_host_set[of prs]
  by (intro sorted_distinct_set_eq) auto

section \<open>Properties\<close>

lemma svc_failing_host:
  "(\<exists>pr \<in> set prs. pr_host pr \<noteq> [] \<and> \<not> pr_ok pr) \<longleftrightarrow> (\<exists>h. has_host prs h \<and> \<not> host_healthy prs h)"
  unfolding has_host_def host_healthy_def by metis

lemma finite_hosts: "finite {h. has_host prs h}"
  by (simp flip: set_host_set)

lemma all_healthy_card:
  "card {h. has_host prs h \<and> host_healthy prs h} = card {h. has_host prs h} \<longleftrightarrow>
   \<not> (\<exists>h. has_host prs h \<and> \<not> host_healthy prs h)"
proof
  assume "card {h. has_host prs h \<and> host_healthy prs h} = card {h. has_host prs h}"
  then have "{h. has_host prs h \<and> host_healthy prs h} = {h. has_host prs h}"
    by (intro card_subset_eq finite_hosts) auto
  then show "\<not> (\<exists>h. has_host prs h \<and> \<not> host_healthy prs h)" by blast
next
  assume "\<not> (\<exists>h. has_host prs h \<and> \<not> host_healthy prs h)"
  then have "{h. has_host prs h \<and> host_healthy prs h} = {h. has_host prs h}" by blast
  then show "card {h. has_host prs h \<and> host_healthy prs h} = card {h. has_host prs h}" by simp
qed

text \<open>
  The two views of one probe round agree. The global status is \<open>UP\<close> exactly when the node
  summary counts every node as healthy and every critical service was observed; it is then the
  node count of the host set that both counters show.
\<close>

theorem node_summary_agrees:
  "(rep_status (compute prs critical t) = UP \<longleftrightarrow>
      fst (node_summary (by_node prs)) = snd (node_summary (by_node prs)) \<and>
      (\<forall>svc \<in> set critical. observed prs svc)) \<and>
   snd (node_summary (by_node prs)) = length (host_set prs)"
proof -
  have "length (host_set prs) = card {h. has_host prs h}"
    using distinct_card[OF distinct_host_set[of prs]] by (simp add: set_host_set)
  moreover have "spec_status prs critical = UP \<longleftrightarrow>
      (\<forall>svc \<in> set critical. observed prs svc) \<and> \<not> (\<exists>h. has_host prs h \<and> \<not> host_healthy prs h)"
    unfolding spec_status_def svc_failing_host[symmetric]
    by (auto simp: svc_up_def svc_failing_def relevant_def)
  ultimately show ?thesis
    by (auto simp: node_summary_by_node compute_status_eq all_healthy_card)
qed

theorem node_summary_agrees_witness:
  "node_summary (by_node [\<lparr>pr_service = ''kv'', pr_host = ''n1'', pr_ok = True\<rparr>,
                          \<lparr>pr_service = ''kv'', pr_host = ''n2'', pr_ok = False\<rparr>]) = (1, 2) \<and>
   rep_status (compute [\<lparr>pr_service = ''kv'', pr_host = ''n1'', pr_ok = True\<rparr>,
                        \<lparr>pr_service = ''kv'', pr_host = ''n2'', pr_ok = False\<rparr>] [''kv''] []) \<noteq> UP"
proof -
  let ?prs = "[\<lparr>pr_service = ''kv'', pr_host = ''n1'', pr_ok = True\<rparr>,
               \<lparr>pr_service = ''kv'', pr_host = ''n2'', pr_ok = False\<rparr>]"
  have "node_summary (by_node ?prs) = (1, 2)" by code_simp
  with node_summary_agrees[of ?prs "[''kv'']" "[]"] show ?thesis by auto
qed

text \<open>The probes of one node, as the triples the pivot must preserve.\<close>

definition node_probes :: "node_health \<Rightarrow> (gostring \<times> gostring \<times> bool) multiset" where
  "node_probes n =
     image_mset (\<lambda>s. (nh_host n, s, True)) (mset (nh_reachable n)) +
     image_mset (\<lambda>s. (nh_host n, s, False)) (mset (nh_unreachable n))"

definition probe_triple :: "probe \<Rightarrow> gostring \<times> gostring \<times> bool" where
  "probe_triple pr = (pr_host pr, pr_service pr, pr_ok pr)"

lemma triples_on:
  "image_mset (\<lambda>s. (h, s, True)) (mset (services_on True prs h)) +
   image_mset (\<lambda>s. (h, s, False)) (mset (services_on False prs h)) =
   image_mset probe_triple {#pr \<in># mset prs. pr_host pr \<noteq> [] \<and> pr_host pr = h#}"
  by (induction prs) (auto simp: services_on_def probe_triple_def)

lemma node_probes_eq:
  assumes "n \<in> set (by_node prs)"
  shows "node_probes n =
     image_mset probe_triple {#pr \<in># mset prs. pr_host pr \<noteq> [] \<and> pr_host pr = nh_host n#}"
  using by_node_entry[OF assms] triples_on[of "nh_host n" prs] by (simp add: node_probes_def)

lemma sum_list_partition:
  "distinct hs \<Longrightarrow>
   (\<Sum>h\<leftarrow>hs. image_mset f {#x \<in># M. P x \<and> g x = h#}) = image_mset f {#x \<in># M. P x \<and> g x \<in> set hs#}"
proof (induction hs)
  case (Cons h hs)
  then have "{#x \<in># M. P x \<and> g x \<in> set (h # hs)#} =
      {#x \<in># M. P x \<and> g x = h#} + {#x \<in># M. P x \<and> g x \<in> set hs#}"
    by (auto simp: multiset_eq_iff)
  with Cons show ?case by simp
qed simp

text \<open>
  \<open>ByNode\<close> loses nothing and invents nothing. Its hosts are listed once, in order, and the
  (host, service, reachable) triples of its nodes, with their multiplicity, are those of the
  probe round without the empty-host placeholders.
\<close>

theorem by_node_roundtrip:
  "(\<Sum>n\<leftarrow>by_node prs. node_probes n) =
      image_mset probe_triple {#pr \<in># mset prs. pr_host pr \<noteq> []#} \<and>
   sorted (map nh_host (by_node prs)) \<and> distinct (map nh_host (by_node prs))"
proof -
  let ?f = "\<lambda>h. image_mset probe_triple {#pr \<in># mset prs. pr_host pr \<noteq> [] \<and> pr_host pr = h#}"
  have "(\<Sum>n\<leftarrow>by_node prs. node_probes n) = (\<Sum>h\<leftarrow>map nh_host (by_node prs). ?f h)"
    by (simp add: comp_def node_probes_eq cong: map_cong)
  also have "\<dots> = image_mset probe_triple
      {#pr \<in># mset prs. pr_host pr \<noteq> [] \<and> pr_host pr \<in> set (map nh_host (by_node prs))#}"
    using by_node_hosts[of prs] by (intro sum_list_partition) simp
  also have "\<dots> = image_mset probe_triple {#pr \<in># mset prs. pr_host pr \<noteq> []#}"
    using by_node_hosts[of prs]
    by (intro arg_cong[where f = "image_mset probe_triple"] filter_mset_cong)
       (auto simp: has_host_def simp del: set_map)
  finally show ?thesis using by_node_hosts[of prs] by simp
qed

text \<open>
  \<open>DiffHosts\<close> between two probe rounds reports exactly the hosts that joined and left, each
  list sorted and without repetition, so that applying the reported change to the previous host
  set gives the current one; swapping the rounds swaps the two lists.
\<close>

theorem diff_hosts_exact:
  "case diff_hosts (host_set prev) (host_set cur) of (added, removed) \<Rightarrow>
     set added = {h. has_host cur h \<and> \<not> has_host prev h} \<and>
     set removed = {h. has_host prev h \<and> \<not> has_host cur h} \<and>
     sorted added \<and> sorted removed \<and> distinct added \<and> distinct removed \<and>
     sort (filter (\<lambda>h. h \<notin> set removed) (host_set prev) @ added) = sort (host_set cur) \<and>
     diff_hosts (host_set cur) (host_set prev) = (removed, added)"
proof -
  define added where "added = fst (diff_hosts (host_set prev) (host_set cur))"
  define removed where "removed = snd (diff_hosts (host_set prev) (host_set cur))"
  have sets: "set added = {h. has_host cur h \<and> \<not> has_host prev h}"
      "set removed = {h. has_host prev h \<and> \<not> has_host cur h}"
    and ord: "sorted added" "sorted removed" "distinct added" "distinct removed"
    by (auto simp: added_def removed_def diff_hosts_def set_host_set distinct_host_set)
  have "sort (filter (\<lambda>h. h \<notin> set removed) (host_set prev) @ added) = sort (host_set cur)"
    by (rule sort_distinct_eq) (auto simp: sets ord set_host_set distinct_host_set)
  with sets ord show ?thesis
    by (auto simp: added_def removed_def diff_hosts_def)
qed

end
