(* ===== verification/Failover_State.thy ===== *)
theory Failover_State
  imports Go_Time Svc_Health
begin

text \<open>
  Package \<open>pkg/state\<close>: the machine that turns the stream of global verdicts into a switch
  decision. The injected clock is the instant each observation is made at. The abstract view is
  the history of observations: \<open>down_window\<close> is its trailing run of \<open>DOWN\<close> verdicts, and the
  machine's two fields \<open>inDown\<close> and \<open>firstDownAt\<close> are shown to be a running summary of it.
\<close>

section \<open>The machine\<close>

record state_config =
  failover_delay :: duration
  already_switched :: bool

record machine =
  m_cfg :: state_config
  m_first_down_at :: instant
  m_in_down :: bool
  m_switched :: bool

record observe_result =
  res_status :: gostring
  res_switch_required :: bool
  res_failback_required :: bool

text \<open>The zero \<open>time.Time\<close>: January 1 of year 1, in nanoseconds from the Unix epoch.\<close>

definition zero_time :: instant where
  "zero_time = - 62135596800000000000"

definition new_machine :: "state_config \<Rightarrow> machine" where
  "new_machine cfg =
     \<lparr>m_cfg = cfg, m_first_down_at = zero_time, m_in_down = False, m_switched = already_switched cfg\<rparr>"

definition observe :: "instant \<Rightarrow> gostring \<Rightarrow> machine \<Rightarrow> observe_result \<times> machine" where
  "observe now status m =
     (let res = \<lparr>res_status = status, res_switch_required = False, res_failback_required = False\<rparr>
      in if status \<noteq> DOWN then (res, m\<lparr>m_in_down := False\<rparr>)
         else
           (let m' = (if \<not> m_in_down m then m\<lparr>m_in_down := True, m_first_down_at := now\<rparr> else m)
            in if \<not> m_switched m' \<and> time_sub now (m_first_down_at m') \<ge> failover_delay (m_cfg m')
               then (res\<lparr>res_switch_required := True\<rparr>, m')
               else (res, m')))"

definition mark_switched :: "machine \<Rightarrow> machine" where
  "mark_switched m = m\<lparr>m_switched := True\<rparr>"

definition down_for :: "instant \<Rightarrow> machine \<Rightarrow> duration" where
  "down_for now m = (if \<not> m_in_down m then 0 else time_sub now (m_first_down_at m))"

definition down_seconds :: "instant \<Rightarrow> machine \<Rightarrow> rat" where
  "down_seconds now m =
     (if \<not> m_in_down m then 0 else seconds (time_sub now (m_first_down_at m)))"

lemma observe_simps:
  "m_cfg (snd (observe now s m)) = m_cfg m"
  "m_switched (snd (observe now s m)) = m_switched m"
  "m_in_down (snd (observe now s m)) = (s = DOWN)"
  "m_first_down_at (snd (observe now s m)) =
     (if s = DOWN \<and> \<not> m_in_down m then now else m_first_down_at m)"
  "res_status (fst (observe now s m)) = s"
  "res_failback_required (fst (observe now s m)) = False"
  by (auto simp: observe_def Let_def)

lemma observe_required:
  "res_switch_required (fst (observe now s m)) \<longleftrightarrow>
     s = DOWN \<and> \<not> m_switched m \<and>
     failover_delay (m_cfg m) \<le> time_sub now (if m_in_down m then m_first_down_at m else now)"
  by (auto simp: observe_def Let_def)

lemma mark_switched_simps [simp]:
  "m_cfg (mark_switched m) = m_cfg m"
  "m_switched (mark_switched m) = True"
  "m_in_down (mark_switched m) = m_in_down m"
  "m_first_down_at (mark_switched m) = m_first_down_at m"
  by (simp_all add: mark_switched_def)

section \<open>Histories\<close>

datatype machine_event = Observed instant gostring | Marked

fun machine_step :: "machine \<Rightarrow> machine_event \<Rightarrow> machine" where
  "machine_step m (Observed now s) = snd (observe now s m)"
| "machine_step m Marked = mark_switched m"

definition machine_run :: "state_config \<Rightarrow> machine_event list \<Rightarrow> machine" where
  "machine_run cfg es = foldl machine_step (new_machine cfg) es"

fun observations :: "machine_event list \<Rightarrow> (instant \<times> gostring) list" where
  "observations [] = []"
| "observations (Observed now s # es) = (now, s) # observations es"
| "observations (Marked # es) = observations es"

lemma observations_append [simp]: "observations (es @ fs) = observations es @ observations fs"
  by (induction es rule: observations.induct) auto

text \<open>The trailing \<open>DOWN\<close> observations, latest first, and the instant the run started.\<close>

definition down_window :: "(instant \<times> gostring) list \<Rightarrow> (instant \<times> gostring) list" where
  "down_window obs = takeWhile (\<lambda>x. snd x = DOWN) (rev obs)"

definition window_start :: "(instant \<times> gostring) list \<Rightarrow> instant" where
  "window_start obs = fst (last (down_window obs))"

lemma down_window_snoc:
  "down_window (obs @ [(t, s)]) = (if s = DOWN then (t, s) # down_window obs else [])"
  by (simp add: down_window_def)

lemma window_start_snoc:
  "s = DOWN \<Longrightarrow> window_start (obs @ [(t, s)]) = (if down_window obs = [] then t else window_start obs)"
  by (simp add: window_start_def down_window_snoc)

lemma machine_run_snoc: "machine_run cfg (es @ [e]) = machine_step (machine_run cfg es) e"
  by (simp add: machine_run_def)

text \<open>The refinement between the machine's fields and the history.\<close>

lemma machine_run_refines:
  "m_cfg (machine_run cfg es) = cfg \<and>
   (m_switched (machine_run cfg es) \<longleftrightarrow> already_switched cfg \<or> Marked \<in> set es) \<and>
   (m_in_down (machine_run cfg es) \<longleftrightarrow> down_window (observations es) \<noteq> []) \<and>
   (m_in_down (machine_run cfg es) \<longrightarrow>
      m_first_down_at (machine_run cfg es) = window_start (observations es))"
proof (induction es rule: rev_induct)
  case Nil
  then show ?case by (simp add: machine_run_def new_machine_def down_window_def)
next
  case (snoc e es)
  show ?case
  proof (cases e)
    case (Observed t s)
    with snoc show ?thesis
      by (auto simp: machine_run_snoc observe_simps down_window_snoc window_start_snoc)
  next
    case Marked
    with snoc show ?thesis by (auto simp: machine_run_snoc)
  qed
qed

section \<open>Properties\<close>

text \<open>
  C1: The switch decision, as a function of the whole history. After any sequence of
  observations and latches, an observation asks for a switch exactly when its verdict is \<open>DOWN\<close>,
  no switch was latched (nor seeded at startup), and the current unbroken run of \<open>DOWN\<close> verdicts,
  this one included, started at least \<open>FailoverDelay\<close> ago. Failback is never requested.
\<close>

theorem switch_decision_exact:
  "(res_switch_required (fst (observe now s (machine_run cfg es))) \<longleftrightarrow>
      s = DOWN \<and> \<not> already_switched cfg \<and> Marked \<notin> set es \<and>
      failover_delay cfg \<le> time_sub now (window_start (observations es @ [(now, s)]))) \<and>
   \<not> res_failback_required (fst (observe now s (machine_run cfg es)))"
  using machine_run_refines[of cfg es]
  by (auto simp: observe_required observe_simps window_start_snoc)

definition clock_ordered :: "(instant \<times> gostring) list \<Rightarrow> bool" where
  "clock_ordered obs \<longleftrightarrow> sorted (map fst obs)"

lemma window_start_mem:
  "down_window obs \<noteq> [] \<Longrightarrow> (window_start obs, DOWN) \<in> set obs"
proof -
  assume "down_window obs \<noteq> []"
  then have "last (down_window obs) \<in> set (down_window obs)" by simp
  moreover have "set (down_window obs) \<subseteq> set obs"
    by (auto simp: down_window_def dest: set_takeWhileD)
  moreover have "\<forall>x \<in> set (down_window obs). snd x = DOWN"
    by (auto simp: down_window_def dest: set_takeWhileD)
  ultimately show ?thesis
    by (metis prod.collapse subsetD window_start_def)
qed

text \<open>With an ordered clock, everything observed after the window started is \<open>DOWN\<close>.\<close>

lemma after_window_start:
  assumes "clock_ordered obs" "down_window obs \<noteq> []" "(t, s) \<in> set obs" "window_start obs < t"
  shows "s = DOWN"
  using assms
proof (induction obs rule: rev_induct)
  case (snoc x obs)
  obtain u v where x: "x = (u, v)" by (cases x)
  with snoc.prems(2) have v: "v = DOWN" by (auto simp: down_window_snoc split: if_splits)
  show ?case
  proof (cases "down_window obs = []")
    case True
    with snoc.prems x v have "u < t \<or> s = DOWN" "t \<le> u"
      by (auto simp: window_start_snoc clock_ordered_def sorted_append)
    then show ?thesis by simp
  next
    case False
    with snoc x v show ?thesis
      by (auto simp: window_start_snoc clock_ordered_def sorted_append)
  qed
qed simp

text \<open>
  A transient outage never switches. If a switch is asked for at instant \<open>now\<close>, on a clock
  that does not run backwards, then the outage was observed at an instant at least
  \<open>FailoverDelay\<close> ago, and every verdict observed since then was \<open>DOWN\<close>.
\<close>

theorem switch_needs_sustained_outage:
  assumes "res_switch_required (fst (observe now s (machine_run cfg es)))"
    and "clock_ordered (observations es @ [(now, s)])"
    and "is_duration (failover_delay cfg)" and "0 \<le> failover_delay cfg"
  shows "\<exists>start. (start, DOWN) \<in> set (observations es @ [(now, s)]) \<and>
     start + failover_delay cfg \<le> now \<and>
     (\<forall>(t, v) \<in> set (observations es @ [(now, s)]). start < t \<longrightarrow> v = DOWN)"
proof -
  let ?obs = "observations es @ [(now, s)]"
  have req: "s = DOWN" "failover_delay cfg \<le> time_sub now (window_start ?obs)"
    using assms(1) machine_run_refines[of cfg es]
    by (auto simp: observe_required window_start_snoc)
  have ne: "down_window ?obs \<noteq> []"
    using req(1) by (simp add: down_window_snoc)
  have "window_start ?obs + failover_delay cfg \<le> now"
    using req(2) assms(3,4) sat64_ge_iff[of "failover_delay cfg" "now - window_start ?obs"]
    by (auto simp: time_sub_def min_duration_def)
  moreover have "(window_start ?obs, DOWN) \<in> set ?obs"
    by (rule window_start_mem) (rule ne)
  moreover have "\<forall>(t, v) \<in> set ?obs. window_start ?obs < t \<longrightarrow> v = DOWN"
    using after_window_start[OF assms(2) ne] by blast
  ultimately show ?thesis by blast
qed

theorem switch_needs_sustained_outage_witness:
  "\<exists>start. (start, DOWN) \<in> set [(0, UP), (10, DOWN), (20, DOWN)] \<and> start + 10 \<le> (20::int) \<and>
     (\<forall>(t, v) \<in> set [(0, UP), (10, DOWN), (20, DOWN)]. start < t \<longrightarrow> v = DOWN)"
  using switch_needs_sustained_outage[of 20 DOWN
      "\<lparr>failover_delay = 10, already_switched = False\<rparr>" "[Observed 0 UP, Observed 10 DOWN]"]
  by (simp add: machine_run_def new_machine_def observe_def time_sub_def sat64_def
      max_duration_def min_duration_def clock_ordered_def is_duration_def)

lemma down_window_suffix:
  "\<forall>x \<in> set downs. snd x = DOWN \<Longrightarrow> down_window (obs @ downs) = rev downs @ down_window obs"
  by (induction downs rule: rev_induct)
     (auto simp: down_window_def takeWhile_append2)

text \<open>
  A sustained outage is always acted on, and keeps being asked for. If the verdict has been
  \<open>DOWN\<close> at \<open>start\<close> and at every observation since, no switch was latched, and
  \<open>FailoverDelay\<close> has passed since \<open>start\<close> on an ordered clock, then a \<open>DOWN\<close> observation now
  asks for the switch, whatever happened before \<open>start\<close> and however often it was asked for already.
\<close>

theorem sustained_outage_requests_switch:
  assumes "observations es = before @ (start, DOWN) # downs"
    and "\<forall>x \<in> set downs. snd x = DOWN"
    and "\<not> already_switched cfg" and "Marked \<notin> set es"
    and "clock_ordered (observations es)"
    and "is_duration (failover_delay cfg)" and "start + failover_delay cfg \<le> now"
  shows "res_switch_required (fst (observe now DOWN (machine_run cfg es)))"
proof -
  let ?obs = "observations es"
  have w: "down_window ?obs = rev downs @ (start, DOWN) # down_window before"
    using assms(1,2) down_window_suffix[of downs "before @ [(start, DOWN)]"]
    by (simp add: down_window_snoc)
  have ne: "down_window ?obs \<noteq> []" by (simp add: w)
  have "window_start ?obs \<le> start"
  proof (cases "down_window before = []")
    case True
    then show ?thesis by (simp add: window_start_def w)
  next
    case False
    then have "window_start ?obs = window_start before" by (simp add: window_start_def w)
    moreover have "(window_start before, DOWN) \<in> set before"
      by (rule window_start_mem) (rule False)
    ultimately show ?thesis
      using assms(1,5) by (auto simp: clock_ordered_def sorted_append)
  qed
  then have "failover_delay cfg \<le> now - window_start ?obs" using assms(7) by simp
  then have "failover_delay cfg \<le> time_sub now (window_start ?obs)"
    using assms(6) by (simp add: time_sub_def sat64_ge_iff)
  then show ?thesis
    using ne assms(3,4) machine_run_refines[of cfg es] by (auto simp: observe_required)
qed

theorem sustained_outage_requests_switch_witness:
  "res_switch_required (fst (observe 25 DOWN
     (machine_run \<lparr>failover_delay = 10, already_switched = False\<rparr>
        [Observed 0 UP, Observed 10 DOWN, Observed 20 DOWN])))"
  by (rule sustained_outage_requests_switch[where before = "[(0, UP)]" and start = 10
        and downs = "[(20, DOWN)]"])
     (auto simp: clock_ordered_def is_duration_def min_duration_def max_duration_def)

text \<open>
  \<open>DownSeconds\<close> reports the length of the current unbroken run of \<open>DOWN\<close> verdicts, and 0
  after any healthy verdict, whatever the history and whether or not a switch was latched.
\<close>

theorem down_seconds_exact:
  "down_seconds now (machine_run cfg es) =
     (if down_window (observations es) = [] then 0
      else seconds (time_sub now (window_start (observations es))))"
  using machine_run_refines[of cfg es] by (auto simp: down_seconds_def)

end
