(* ===== verification/Probers.thy ===== *)
theory Probers
  imports Go_Time Svc_Health
begin

text \<open>
  The probers of \<open>pkg/svchealth\<close> (\<open>prober.go\<close>, \<open>prober_gocb.go\<close>, \<open>active.go\<close>) and the HTTP
  handler over them (\<open>api.go\<close>). The SDK's \<open>Ping\<close> is a parameter: a function of the ping options
  and of the world \<open>'w\<close>, which answers with an error or with the endpoint reports per service, in
  the order in which the Go map yields them. The locale \<open>prober\<close> is the \<open>Prober\<close> interface with
  the law its callers rely on; it is interpreted on the SDK prober and on the active prober.
\<close>

section \<open>The SDK's ping, as the code sees it\<close>

datatype service_type = KeyValue | Query | Search | Analytics | Management | OtherType nat

datatype ping_state = PingOk | PingTimeout | PingError

record endpoint_report =
  er_remote :: gostring
  er_state :: ping_state

type_synonym ping_result = "(service_type \<times> endpoint_report list) list"

record ping_options =
  po_services :: "service_type list"
  po_timeout :: duration

type_synonym ('w, 'e) ping = "ping_options \<Rightarrow> 'w \<Rightarrow> ('e + ping_result) \<times> 'w"

text \<open>A \<open>Prober\<close>: the probes and the error, which a Go function may return together.\<close>

type_synonym ('w, 'e) probe_fn = "'w \<Rightarrow> (probe list \<times> 'e option) \<times> 'w"

section \<open>The SDK prober\<close>

record ('w, 'e) gocb_prober =
  gp_cluster :: "('w, 'e) ping"
  gp_bucket :: "('w, 'e) ping option"
  gp_timeout :: duration

fun service_name :: "service_type \<Rightarrow> gostring" where
  "service_name KeyValue = ''kv''"
| "service_name Query = ''query''"
| "service_name Search = ''search''"
| "service_name Analytics = ''analytics''"
| "service_name Management = ''management''"
| "service_name (OtherType n) = ''other''"

definition host_only :: "gostring \<Rightarrow> gostring" where
  "host_only hostport =
     (let h = (case after_sub ''://'' hostport of None \<Rightarrow> hostport | Some rest \<Rightarrow> rest)
      in before_last (CHR '':'') h)"

definition report_probe :: "service_type \<Rightarrow> endpoint_report \<Rightarrow> probe" where
  "report_probe svc r =
     \<lparr>pr_service = service_name svc, pr_host = host_only (er_remote r), pr_ok = (er_state r = PingOk)\<rparr>"

fun map_reports :: "ping_result \<Rightarrow> probe list" where
  "map_reports [] = []"
| "map_reports ((svc, reports) # rest) = map (report_probe svc) reports @ map_reports rest"

definition kv_options :: "duration \<Rightarrow> ping_options" where
  "kv_options t = \<lparr>po_services = [KeyValue], po_timeout = t\<rparr>"

definition cluster_options :: "duration \<Rightarrow> ping_options" where
  "cluster_options t = \<lparr>po_services = [Query, Search, Analytics], po_timeout = t\<rparr>"

definition add_ping :: "('e + ping_result) \<Rightarrow> probe list \<Rightarrow> probe list" where
  "add_ping r probes = (case r of Inr pr \<Rightarrow> probes @ map_reports pr | Inl _ \<Rightarrow> probes)"

definition gocb_probe :: "('w, 'e) gocb_prober \<Rightarrow> ('w, 'e) probe_fn" where
  "gocb_probe g w =
     (let (probes, w1) =
            (case gp_bucket g of
               None \<Rightarrow> ([], w)
             | Some ping \<Rightarrow> (case ping (kv_options (gp_timeout g)) w of (r, w') \<Rightarrow> (add_ping r [], w')));
          (r, w2) = gp_cluster g (cluster_options (gp_timeout g)) w1
      in ((add_ping r probes, None), w2))"

section \<open>The canned and the active prober\<close>

record 'e mock_prober =
  mp_probes :: "probe list"
  mp_err :: "'e option"

definition mock_probe :: "'e mock_prober \<Rightarrow> ('w, 'e) probe_fn" where
  "mock_probe m w = ((mp_probes m, mp_err m), w)"

text \<open>The active prober holds one prober \<open>'p\<close> at a time, behind an atomic pointer.\<close>

record 'p active_prober =
  ap_target :: 'p

definition active_set :: "'p \<Rightarrow> 'p active_prober \<Rightarrow> 'p active_prober" where
  "active_set p a = a\<lparr>ap_target := p\<rparr>"

definition new_active_prober :: "'p \<Rightarrow> 'p active_prober" where
  "new_active_prober p = \<lparr>ap_target = p\<rparr>"

definition active_probe :: "('p \<Rightarrow> ('w, 'e) probe_fn) \<Rightarrow> 'p active_prober \<Rightarrow> ('w, 'e) probe_fn" where
  "active_probe probe a w = probe (ap_target a) w"

lemma active_probe_set [simp]: "active_probe probe (active_set p a) = probe p"
  by (rule ext) (simp add: active_probe_def active_set_def)

section \<open>The health handler\<close>

record response =
  rsp_code :: nat
  rsp_content_type :: gostring
  rsp_report :: report

text \<open>\<open>ServeHTTP\<close>, with the clock its timestamp is read from after the probe.\<close>

definition serve_health ::
  "('w, 'e) probe_fn \<Rightarrow> gostring list \<Rightarrow> ('w \<Rightarrow> gostring \<times> 'w) \<Rightarrow> 'w \<Rightarrow> response \<times> 'w" where
  "serve_health probe critical now w =
     (case probe w of ((prs, err), w1) \<Rightarrow>
      case now w1 of (checked_at, w') \<Rightarrow>
        let probes = (if err \<noteq> None then [] else prs);
            report = compute probes critical checked_at
        in (\<lparr>rsp_code = (if rep_status report = DOWN then 503 else 200),
             rsp_content_type = ''application/json'', rsp_report = report\<rparr>, w'))"

section \<open>The interface\<close>

text \<open>
  The law of a \<open>Prober\<close>: a failed probe carries no endpoints. The poll loop ignores the error and
  the handler drops the probes on an error, so the law is what makes their verdicts agree.
\<close>

locale prober =
  fixes probe :: "('w, 'e) probe_fn"
  assumes failed_is_empty: "probe w = ((prs, Some e), w') \<Longrightarrow> prs = []"
begin

lemma effective_probes:
  "probe w = ((prs, err), w') \<Longrightarrow> (if err \<noteq> None then [] else prs) = prs"
  using failed_is_empty by auto

lemma handler_verdict:
  assumes "probe w = ((prs, err), w1)" "now w1 = (t, w')"
  shows "serve_health probe critical now w =
     (\<lparr>rsp_code = (if rep_status (compute prs critical t) = DOWN then 503 else 200),
       rsp_content_type = ''application/json'', rsp_report = compute prs critical t\<rparr>, w')"
  using assms effective_probes[OF assms(1)] by (simp add: serve_health_def Let_def)

lemma failed_probe_is_down:
  assumes "probe w = ((prs, Some e), w')" "critical \<noteq> []"
  shows "rep_status (compute prs critical now) = DOWN"
  using failed_is_empty[OF assms(1)] assms(2) by (simp add: compute_nothing_observed)

end

lemma gocb_probe_no_error: "snd (fst (gocb_probe g w)) = None"
  by (simp add: gocb_probe_def Let_def split: prod.splits)

interpretation sdk: prober "gocb_probe g" for g :: "('w, 'e) gocb_prober"
  by unfold_locales (use gocb_probe_no_error[of g] in \<open>metis fst_conv option.distinct(1) snd_conv\<close>)

text \<open>An active prober over a family of lawful probers is lawful.\<close>

interpretation active_sdk: prober "active_probe gocb_probe a" for a :: "('w, 'e) gocb_prober active_prober"
  by unfold_locales (auto simp: active_probe_def intro: sdk.failed_is_empty)

section \<open>Properties\<close>

lemma before_last_host: "CHR '':'' \<notin> set host \<Longrightarrow> before_last (CHR '':'') host = host"
  by (rule before_last_no_sep)

lemma after_scheme_none:
  assumes "CHR '':'' \<notin> set host" "CHR '':'' \<notin> set port"  "CHR ''/'' \<notin> set port"
  shows "after_sub ''://'' (host @ CHR '':'' # port) = None"
  using assms
proof (induction host)
  case Nil
  then have "take (Suc (Suc 0)) port \<noteq> ''//''" by (cases port) auto
  moreover have "after_sub ''://'' port = None"
    using Nil by (intro after_sub_None_if_no_head) auto
  ultimately show ?case by simp
next
  case (Cons a host)
  then show ?case by auto
qed

text \<open>
  One node is one host, whichever service reported it. For a host name and a numeric port,
  the bare host, the key-value form \<open>host:port\<close> and the query form \<open>scheme://host:port\<close> all map
  to the host itself.
\<close>

theorem host_only_normalises:
  assumes "CHR '':'' \<notin> set host" and "CHR '':'' \<notin> set port" and "CHR ''/'' \<notin> set port"
    and "CHR '':'' \<notin> set scheme"
  shows "host_only host = host \<and>
     host_only (host @ '':'' @ port) = host \<and>
     host_only (scheme @ ''://'' @ host @ '':'' @ port) = host"
proof -
  have bare: "after_sub ''://'' host = None"
    using assms(1) by (intro after_sub_None_if_no_head) auto
  have url: "after_sub ''://'' (scheme @ ''://'' @ host @ '':'' @ port) = Some (host @ '':'' @ port)"
    using assms(4) by (intro after_sub_append) auto
  show ?thesis
    unfolding host_only_def Let_def bare url
    using assms after_scheme_none[OF assms(1-3)]
    by (simp add: before_last_no_sep before_last_append)
qed

theorem host_only_normalises_witness:
  "host_only ''172.19.0.3'' = ''172.19.0.3'' \<and>
   host_only (''172.19.0.3'' @ '':'' @ ''11210'') = ''172.19.0.3'' \<and>
   host_only (''http'' @ ''://'' @ ''172.19.0.3'' @ '':'' @ ''8093'') = ''172.19.0.3''"
proof -
  have "host_only ''172.19.0.3'' = ''172.19.0.3'' \<and>
     host_only (''172.19.0.3'' @ '':'' @ ''11210'') = ''172.19.0.3''"
    using host_only_normalises[of "''172.19.0.3''" "''11210''" "''http''"] by simp
  moreover have "host_only (''http'' @ ''://'' @ ''172.19.0.3'' @ '':'' @ ''8093'') = ''172.19.0.3''"
    using host_only_normalises[of "''172.19.0.3''" "''8093''" "''http''"] by simp
  ultimately show ?thesis by simp
qed

text \<open>
  The health endpoint and the poll loop never disagree, and a cluster that cannot be pinged
  at all is \<open>DOWN\<close>. On the active SDK prober the handler answers with the report the loop
  computes from the same round, 503 exactly when it is \<open>DOWN\<close>; when both pings fail the answer is
  503, provided some service is critical.
\<close>

theorem health_endpoint_agrees:
  assumes "active_probe gocb_probe a w = ((prs, err), w1)" and "now w1 = (t, w')"
  shows "serve_health (active_probe gocb_probe a) critical now w =
       (\<lparr>rsp_code = (if rep_status (compute prs critical t) = DOWN then 503 else 200),
         rsp_content_type = ''application/json'', rsp_report = compute prs critical t\<rparr>, w') \<and>
     (critical \<noteq> [] \<and> prs = [] \<longrightarrow>
        rsp_code (fst (serve_health (active_probe gocb_probe a) critical now w)) = 503)"
  using active_sdk.handler_verdict[where now = now, OF assms, of critical]
  by (auto simp: compute_nothing_observed)

definition refusing_ping :: "(unit, gostring) ping" where
  "refusing_ping opts w = (Inl ''timeout'', w)"

theorem health_endpoint_agrees_witness:
  "rsp_code (fst (serve_health
     (active_probe gocb_probe (new_active_prober
        \<lparr>gp_cluster = refusing_ping, gp_bucket = Some refusing_ping, gp_timeout = 2000000000\<rparr>))
     [''kv''] (\<lambda>w. (''now'', w)) ())) = 503"
  using health_endpoint_agrees[of "new_active_prober
        \<lparr>gp_cluster = refusing_ping, gp_bucket = Some refusing_ping, gp_timeout = 2000000000\<rparr>"
      "()" "[]" None "()" "\<lambda>w. (''now'', w)" "''now''" "()" "[''kv'']"]
  by (simp add: active_probe_def new_active_prober_def gocb_probe_def refusing_ping_def add_ping_def
      compute_nothing_observed)

text \<open>
  What the SDK documents: a ping with a positive timeout answers within it (0 asks for the SDK's
  default, which may block), with the services it was asked for.
\<close>

definition ping_within :: "('w \<Rightarrow> int) \<Rightarrow> ('w, 'e) ping \<Rightarrow> bool" where
  "ping_within clock ping \<longleftrightarrow>
     (\<forall>opts w. 0 < po_timeout opts \<longrightarrow>
        clock w \<le> clock (snd (ping opts w)) \<and> clock (snd (ping opts w)) \<le> clock w + po_timeout opts)"

definition ping_answers_asked :: "('w, 'e) ping \<Rightarrow> bool" where
  "ping_answers_asked ping \<longleftrightarrow>
     (\<forall>opts w pr. fst (ping opts w) = Inr pr \<longrightarrow> set (map fst pr) \<subseteq> set (po_services opts))"

definition gocb_pings :: "('w, 'e) gocb_prober \<Rightarrow> ('w, 'e) ping list" where
  "gocb_pings g = (case gp_bucket g of None \<Rightarrow> [] | Some p \<Rightarrow> [p]) @ [gp_cluster g]"

text \<open>
  C39: A probe with a positive timeout returns within one timeout per ping it makes: two timeouts for a prober
  with a bucket (the key-value ping, then the cluster ping), one without.
\<close>

theorem gocb_probe_bounded:
  assumes "\<forall>ping \<in> set (gocb_pings g). ping_within clock ping" and "0 < gp_timeout g"
  shows "clock w \<le> clock (snd (gocb_probe g w)) \<and>
     clock (snd (gocb_probe g w)) \<le> clock w + int (length (gocb_pings g)) * gp_timeout g"
proof (cases "gp_bucket g")
  case None
  then show ?thesis
    using assms
    by (auto simp: gocb_probe_def gocb_pings_def ping_within_def cluster_options_def
        split: prod.splits dest!: spec[of _ "cluster_options (gp_timeout g)"] spec[of _ w])
next
  case (Some ping)
  obtain r1 w1 where 1: "ping (kv_options (gp_timeout g)) w = (r1, w1)" by force
  obtain r2 w2 where 2: "gp_cluster g (cluster_options (gp_timeout g)) w1 = (r2, w2)" by force
  have "clock w \<le> clock w1 \<and> clock w1 \<le> clock w + gp_timeout g"
    using assms Some 1 unfolding gocb_pings_def ping_within_def kv_options_def
    by (auto dest!: spec[of _ "\<lparr>po_services = [KeyValue], po_timeout = gp_timeout g\<rparr>"] spec[of _ w])
  moreover have "clock w1 \<le> clock w2 \<and> clock w2 \<le> clock w1 + gp_timeout g"
    using assms Some 2 unfolding gocb_pings_def ping_within_def cluster_options_def
    by (auto dest!: spec[of _ "\<lparr>po_services = [Query, Search, Analytics], po_timeout = gp_timeout g\<rparr>"]
        spec[of _ w1])
  moreover have "snd (gocb_probe g w) = w2"
    by (simp add: gocb_probe_def Some 1 2)
  ultimately show ?thesis by (simp add: gocb_pings_def Some)
qed

theorem gocb_probe_bounded_witness:
  "snd (gocb_probe \<lparr>gp_cluster = \<lambda>opts w. (Inl ''timeout'', w + po_timeout opts),
      gp_bucket = Some (\<lambda>opts w. (Inl ''timeout'', w + po_timeout opts)), gp_timeout = 2\<rparr> (0::int)) \<le> 4"
  using gocb_probe_bounded[where clock = id and w = 0 and g = "\<lparr>gp_cluster = \<lambda>opts w. (Inl ''timeout'', w + po_timeout opts),
      gp_bucket = Some (\<lambda>opts w. (Inl ''timeout'', w + po_timeout opts)), gp_timeout = 2\<rparr>"]
  by (simp add: gocb_pings_def ping_within_def)

lemma map_reports_services:
  "pr \<in> set (map_reports res) \<Longrightarrow> \<exists>svc \<in> set (map fst res). pr_service pr = service_name svc"
  by (induction res rule: map_reports.induct) (auto simp: report_probe_def)

lemma add_ping_services:
  assumes "fst (ping opts w) = r" "ping_answers_asked ping" "pr \<in> set (add_ping r probes)"
  shows "pr \<in> set probes \<or> (\<exists>svc \<in> set (po_services opts). pr_service pr = service_name svc)"
  using assms map_reports_services[of pr]
  by (auto simp: add_ping_def ping_answers_asked_def split: sum.splits) blast

definition workload_services :: "gostring list" where
  "workload_services = [''kv'', ''query'', ''search'', ''analytics'']"

lemma gocb_probe_services:
  assumes "\<forall>ping \<in> set (gocb_pings g). ping_answers_asked ping"
    and "pr \<in> set (fst (fst (gocb_probe g w)))"
  shows "pr_service pr \<in> set workload_services"
proof -
  obtain probes w1 where 1: "(case gp_bucket g of None \<Rightarrow> ([], w)
      | Some ping \<Rightarrow> (case ping (kv_options (gp_timeout g)) w of (r, w') \<Rightarrow> (add_ping r [], w'))) = (probes, w1)"
    by force
  obtain r w2 where 2: "gp_cluster g (cluster_options (gp_timeout g)) w1 = (r, w2)" by force
  have "pr \<in> set (add_ping r probes)"
    using assms(2) by (simp add: gocb_probe_def 1 2)
  then have "pr \<in> set probes \<or> (\<exists>svc \<in> {Query, Search, Analytics}. pr_service pr = service_name svc)"
    using add_ping_services[of "gp_cluster g" "cluster_options (gp_timeout g)" w1 r pr probes] 2 assms(1)
    by (simp add: gocb_pings_def cluster_options_def)
  moreover have "pr_service pr = ''kv''" if "pr \<in> set probes"
  proof -
    from that 1 obtain ping where b: "gp_bucket g = Some ping" by (cases "gp_bucket g") auto
    then have "pr \<in> set (add_ping (fst (ping (kv_options (gp_timeout g)) w)) [])"
      using that 1 by (auto split: prod.splits)
    then show ?thesis
      using add_ping_services[of ping "kv_options (gp_timeout g)" w _ pr "[]"] b assms(1)
      by (simp add: gocb_pings_def kv_options_def)
  qed
  ultimately show ?thesis by (auto simp: workload_services_def)
qed

text \<open>
  C40: The probers report workload services only, never the management service; so a critical
  name that is not one of the four, such as one with a blank in front, keeps the global verdict
  \<open>DOWN\<close> at every round, however healthy the cluster is.
\<close>

theorem unknown_critical_always_down:
  assumes "\<forall>ping \<in> set (gocb_pings g). ping_answers_asked ping"
    and "svc \<in> set critical" and "svc \<notin> set workload_services"
  shows "rep_status (compute (fst (fst (gocb_probe g w))) critical now) = DOWN"
proof -
  have "\<not> svc_up (fst (fst (gocb_probe g w))) svc"
    using gocb_probe_services[OF assms(1)] assms(3)
    by (auto simp: svc_up_def observed_def relevant_def)
  with assms(2) show ?thesis by (auto simp: compute_down_iff)
qed

definition healthy_ping :: "(unit, gostring) ping" where
  "healthy_ping opts w =
     (Inr (map (\<lambda>s. (s, [\<lparr>er_remote = ''n1:8091'', er_state = PingOk\<rparr>])) (po_services opts)), w)"

theorem unknown_critical_always_down_witness:
  "rep_status (compute (fst (fst (gocb_probe
      \<lparr>gp_cluster = healthy_ping, gp_bucket = Some healthy_ping, gp_timeout = 1\<rparr> ())))
      (split_on (CHR '','') ''kv, query'') ''now'') = DOWN"
  by (rule unknown_critical_always_down[where svc = "'' query''"])
     (auto simp: gocb_pings_def ping_answers_asked_def healthy_ping_def workload_services_def)

end
