(* ===== verification/Cluster_Labels.thy ===== *)
theory Cluster_Labels
  imports Go_Strings
begin

text \<open>
  The names of clusters in logs, metrics and payloads: \<open>ClusterLabel\<close> and \<open>AddressList\<close> of
  \<open>pkg/obslog/human.go\<close>, with the part of \<open>net.ParseIP\<close> they use, which is whether the text is
  an IP address.
\<close>

section \<open>IP addresses\<close>

definition is_digit :: "char \<Rightarrow> bool" where
  "is_digit c \<longleftrightarrow> 48 \<le> (of_char c :: nat) \<and> (of_char c :: nat) \<le> 57"

definition is_hex :: "char \<Rightarrow> bool" where
  "is_hex c \<longleftrightarrow> is_digit c \<or> 97 \<le> (of_char c :: nat) \<and> (of_char c :: nat) \<le> 102 \<or>
     65 \<le> (of_char c :: nat) \<and> (of_char c :: nat) \<le> 70"

fun dec_value :: "nat \<Rightarrow> gostring \<Rightarrow> nat" where
  "dec_value acc [] = acc"
| "dec_value acc (c # s) = dec_value (10 * acc + (of_char c - 48)) s"

text \<open>One octet: decimal digits without a leading zero, at most 255.\<close>

definition is_octet :: "gostring \<Rightarrow> bool" where
  "is_octet s \<longleftrightarrow> s \<noteq> [] \<and> (\<forall>c \<in> set s. is_digit c) \<and> (length s = 1 \<or> hd s \<noteq> CHR ''0'') \<and>
     dec_value 0 s \<le> 255"

definition is_ipv4 :: "gostring \<Rightarrow> bool" where
  "is_ipv4 s \<longleftrightarrow> length (split_on (CHR ''.'') s) = 4 \<and> (\<forall>f \<in> set (split_on (CHR ''.'') s). is_octet f)"

text \<open>
  The fields of an IPv6 address from byte offset \<open>i\<close>; \<open>ell\<close> is whether an ellipsis was seen. A
  field has one to four hex digits; a dotted tail replaces the last two.
\<close>

function ipv6_fields :: "nat \<Rightarrow> bool \<Rightarrow> gostring \<Rightarrow> bool" where
  "ipv6_fields i ell s =
     (let digits = takeWhile is_hex s; rest = dropWhile is_hex s
      in if 16 \<le> i then s = [] \<and> \<not> ell
         else if digits = [] \<or> 4 < length digits then False
         else
           (case rest of
              [] \<Rightarrow> if i + 2 = 16 then \<not> ell else ell
            | c # t \<Rightarrow>
                if c = CHR ''.'' then
                  (ell \<or> i = 12) \<and> i + 4 \<le> 16 \<and> is_ipv4 s \<and> (if i + 4 = 16 then \<not> ell else ell)
                else if c \<noteq> CHR '':'' \<or> t = [] then False
                else if hd t = CHR '':'' then
                  \<not> ell \<and> (if tl t = [] then i + 2 < 16 else ipv6_fields (i + 2) True (tl t))
                else ipv6_fields (i + 2) ell t))"
  by pat_completeness auto
termination
proof (relation "measure (\<lambda>(i, ell, s). length s)", goal_cases)
  case 1
  show ?case by simp
next
  case (2 i ell s digits rest c t)
  then have "length (c # t) \<le> length s" by (metis length_dropWhile_le)
  moreover have "length (tl t) \<le> length t" by simp
  ultimately show ?case by simp
next
  case (3 i ell s digits rest c t)
  then have "length (c # t) \<le> length s" by (metis length_dropWhile_le)
  then show ?case by simp
qed

declare ipv6_fields.simps [simp del]

definition is_ipv6 :: "gostring \<Rightarrow> bool" where
  "is_ipv6 s \<longleftrightarrow>
     (if take 2 s = ''::'' then drop 2 s = [] \<or> ipv6_fields 0 True (drop 2 s) else ipv6_fields 0 False s)"

text \<open>
  Whether \<open>net.ParseIP\<close> returns an address: the first dot, colon or percent sign says which
  family is tried. An address with a zone is not accepted.
\<close>

definition parses_as_ip :: "gostring \<Rightarrow> bool" where
  "parses_as_ip s =
     (case find (\<lambda>c. c \<in> set ''.:%'') s of
        None \<Rightarrow> False
      | Some c \<Rightarrow>
          if c = CHR ''.'' then is_ipv4 s
          else if c = CHR '':'' then CHR ''%'' \<notin> set s \<and> is_ipv6 s
          else False)"

section \<open>Labels\<close>

definition strip_scheme :: "gostring \<Rightarrow> gostring" where
  "strip_scheme s = (case after_sub ''://'' s of None \<Rightarrow> s | Some t \<Rightarrow> t)"

definition cluster_label :: "gostring \<Rightarrow> gostring" where
  "cluster_label conn =
     (if conn = [] then ''none''
      else
        (let h = before_last (CHR '':'') (before_first (\<lambda>c. c \<in> set '',/?'') (strip_scheme conn))
         in if parses_as_ip h then h
            else trim_suffix (before_first (\<lambda>c. c = CHR ''.'') h) ''-srv''))"

definition address_list :: "gostring \<Rightarrow> gostring" where
  "address_list conn =
     (if conn = [] then ''none''
      else
        join '', ''
          (map (\<lambda>host. before_last (CHR '':'') (trim_space host))
             (split_on (CHR '','') (before_first (\<lambda>c. c \<in> set ''/?'') (strip_scheme conn)))))"

section \<open>Properties\<close>

text \<open>A byte that may occur in a host name or a port.\<close>

definition host_char :: "char \<Rightarrow> bool" where
  "host_char c \<longleftrightarrow> solid c \<and> c \<notin> set '':,/?%''"

definition host_text :: "gostring \<Rightarrow> bool" where
  "host_text s \<longleftrightarrow> s \<noteq> [] \<and> (\<forall>c \<in> set s. host_char c)"

text \<open>\<open>host:port\<close>.\<close>

definition at_port :: "gostring \<times> gostring \<Rightarrow> gostring" where
  "at_port hp = fst hp @ '':'' @ snd hp"

lemma strip_scheme_conn: "CHR '':'' \<notin> set scheme \<Longrightarrow> strip_scheme (scheme @ ''://'' @ s) = s"
  using after_sub_append[of "''://''" scheme s] by (simp add: strip_scheme_def)

lemma host_charD: "host_char c \<Longrightarrow> c \<notin> set '',/?'' \<and> c \<noteq> CHR '':'' \<and> solid c"
  by (simp add: host_char_def)

lemma digit_host_char: "is_digit c \<Longrightarrow> host_char c"
proof -
  assume d: "is_digit c"
  have "c \<noteq> x" if "\<not> is_digit x" for x using d that by blast
  then show ?thesis using d by (simp add: host_char_def solid_def is_digit_def)
qed

lemma ipv4_chars:
  assumes "is_ipv4 s" "c \<in> set s"
  shows "is_digit c \<or> c = CHR ''.''"
proof -
  have "set (join [x] xs) \<subseteq> insert x (\<Union> (set ` set xs))" for x xs
    by (induction "[x]" xs rule: join.induct) auto
  from this[of "CHR ''.''" "split_on (CHR ''.'') s"] show ?thesis
    using assms by (auto simp: join_split_on is_ipv4_def is_octet_def)
qed

lemma ipv4_host_text:
  assumes "is_ipv4 s"
  shows "host_text s"
proof -
  have "s \<noteq> []" using assms by (auto simp: is_ipv4_def)
  moreover have "host_char (CHR ''.'')" by (simp add: host_char_def solid_def)
  ultimately show ?thesis
    using ipv4_chars[OF assms] digit_host_char by (auto simp: host_text_def)
qed

lemma ipv4_dot: "is_ipv4 s \<Longrightarrow> CHR ''.'' \<in> set s"
  by (rule ccontr) (simp add: is_ipv4_def split_on_no_sep)

lemma ipv4_parses:
  assumes ip: "is_ipv4 s"
  shows "parses_as_ip s"
proof -
  obtain c where c: "find (\<lambda>c. c \<in> set ''.:%'') s = Some c"
    using ipv4_dot[OF ip] by (cases "find (\<lambda>c. c \<in> set ''.:%'') s") (auto simp: find_None_iff_all)
  have "c \<in> set s \<and> c \<in> set ''.:%''" using find_Some_mem[OF c] by simp
  moreover have "\<not> is_digit (CHR '':'')" "\<not> is_digit (CHR ''%'')" by (simp_all add: is_digit_def)
  ultimately have "c = CHR ''.''" using ipv4_chars[OF ip, of c] by auto
  with c ip show ?thesis by (simp add: parses_as_ip_def)
qed

lemma label_host:
  assumes "host_text host" "\<forall>c \<in> set port. host_char c" "rest = [] \<or> hd rest \<in> set '',/?''"
  shows "before_last (CHR '':'') (before_first (\<lambda>c. c \<in> set '',/?'') (at_port (host, port) @ rest)) = host"
proof -
  have "c \<notin> set '',/?''" if "c \<in> set (at_port (host, port))" for c
  proof -
    have "host_char c \<or> c = CHR '':''"
      using that assms(1,2) unfolding at_port_def host_text_def by auto
    then show ?thesis using host_charD by fastforce
  qed
  then have "before_first (\<lambda>c. c \<in> set '',/?'') (at_port (host, port) @ rest) = at_port (host, port)"
    using assms(3) by (cases rest) (auto simp: before_first_none before_first_append)
  moreover have "CHR '':'' \<notin> set port" using assms(2) by (auto dest: host_charD)
  ultimately show ?thesis by (simp add: at_port_def before_last_append)
qed

text \<open>
  The label of a cluster. A connection string whose first host is an IPv4 address is labelled
  with the whole address, and one whose first host is a DNS name with its first label, without the
  \<open>-srv\<close> suffix; further hosts, the port, the path and the parameters do not matter.
\<close>

theorem cluster_label_of_first_host:
  assumes "CHR '':'' \<notin> set scheme" and "\<forall>c \<in> set port. host_char c"
    and "rest = [] \<or> hd rest \<in> set '',/?''"
  shows "(is_ipv4 ip \<longrightarrow> cluster_label (scheme @ ''://'' @ at_port (ip, port) @ rest) = ip) \<and>
     (host_text label \<and> CHR ''.'' \<notin> set label \<and> host_text domain \<and>
        \<not> is_ipv4 (label @ ''.'' @ domain) \<longrightarrow>
      cluster_label (scheme @ ''://'' @ at_port (label @ ''.'' @ domain, port) @ rest) =
        trim_suffix label ''-srv'')"
proof (intro conjI impI)
  assume "is_ipv4 ip"
  then show "cluster_label (scheme @ ''://'' @ at_port (ip, port) @ rest) = ip"
    using label_host[OF ipv4_host_text assms(2,3)] ipv4_parses
    by (simp add: cluster_label_def strip_scheme_conn[OF assms(1), simplified] Let_def)
next
  assume dns: "host_text label \<and> CHR ''.'' \<notin> set label \<and> host_text domain \<and>
      \<not> is_ipv4 (label @ ''.'' @ domain)"
  let ?h = "label @ ''.'' @ domain"
  have host: "host_text ?h" using dns by (auto simp: host_text_def host_char_def solid_def)
  have "find (\<lambda>c. c \<in> set ''.:%'') label = None"
    using dns by (auto simp: find_None_iff_all host_text_def host_char_def)
  then have "find (\<lambda>c. c \<in> set ''.:%'') ?h = Some CHR ''.''"
    by (induction label) (auto split: if_splits)
  then have "\<not> parses_as_ip ?h" using dns by (simp add: parses_as_ip_def)
  moreover have "before_first (\<lambda>c. c = CHR ''.'') ?h = label"
    using dns by (auto intro: before_first_append)
  ultimately show "cluster_label (scheme @ ''://'' @ at_port (?h, port) @ rest) = trim_suffix label ''-srv''"
    using label_host[OF host assms(2,3)]
    by (simp add: cluster_label_def strip_scheme_conn[OF assms(1), simplified] Let_def)
qed

theorem cluster_label_of_first_host_witness:
  "cluster_label ''couchbase://10.0.1.5:11210,10.0.1.6:11210'' = ''10.0.1.5''"
  using cluster_label_of_first_host[of "''couchbase''" "''11210''" "'',10.0.1.6:11210''" "''10.0.1.5''"]
  by (simp add: host_char_def solid_def is_ipv4_def is_octet_def is_digit_def at_port_def)

lemma before_last_at_port:
  assumes "\<forall>c \<in> set (snd hp). host_char c"
  shows "before_last (CHR '':'') (at_port hp) = fst hp"
proof -
  have "CHR '':'' \<notin> set (snd hp)" using assms host_charD by blast
  then show ?thesis using before_last_append[of "CHR '':''" "snd hp" "fst hp"] by (simp add: at_port_def)
qed

lemma tight_at_port:
  assumes "host_text (fst hp)" "host_text (snd hp)"
  shows "tight (at_port hp)"
proof -
  have "hd (fst hp) \<in> set (fst hp)" "last (snd hp) \<in> set (snd hp)"
    using assms by (auto simp: host_text_def)
  then have "solid (hd (fst hp))" "solid (last (snd hp))"
    using assms by (auto simp: host_text_def host_char_def)
  moreover have "fst hp \<noteq> []" "snd hp \<noteq> []" using assms by (simp_all add: host_text_def)
  ultimately show ?thesis by (simp add: tight_def at_port_def)
qed

text \<open>
  The address list of a connection string names every seed host, in order, with the scheme,
  the ports, the path and the parameters stripped.
\<close>

theorem address_list_names_every_host:
  assumes "CHR '':'' \<notin> set scheme" and "hps \<noteq> []"
    and "\<forall>hp \<in> set hps. host_text (fst hp) \<and> host_text (snd hp)"
    and "rest = [] \<or> hd rest \<in> set ''/?''"
  shows "address_list (scheme @ ''://'' @ join '','' (map at_port hps) @ rest) = join '', '' (map fst hps)"
proof -
  have chars: "c \<noteq> CHR '','' \<and> c \<notin> set ''/?''" if "hp \<in> set hps" "c \<in> set (at_port hp)" for hp c
    using that assms(3) by (fastforce simp: at_port_def host_text_def host_char_def)
  have "set (join [x] xs) \<subseteq> insert x (\<Union> (set ` set xs))" for x :: char and xs
    by (induction "[x]" xs rule: join.induct) auto
  from this[of "CHR '',''" "map at_port hps"]
  have plain: "\<And>c. c \<in> set (join '','' (map at_port hps)) \<Longrightarrow> c \<notin> set ''/?''"
    using chars by fastforce
  have cutoff: "before_first (\<lambda>c. c \<in> set ''/?'') (join '','' (map at_port hps) @ rest) = join '','' (map at_port hps)"
  proof (cases rest)
    case Nil
    then show ?thesis using plain by (simp add: before_first_none)
  next
    case (Cons d t)
    then show ?thesis
      using before_first_append[of "join '','' (map at_port hps)" "\<lambda>c. c \<in> set ''/?''" d t] plain assms(4)
      by simp
  qed
  have pieces: "split_on (CHR '','') (join '','' (map at_port hps)) = map at_port hps"
    using chars assms(2) by (intro split_on_join) auto
  have "map (\<lambda>host. before_last (CHR '':'') (trim_space host)) (map at_port hps) = map fst hps"
    unfolding list.map_comp using assms(3)
    by (intro map_cong) (auto simp: tight_at_port before_last_at_port host_text_def)
  then show ?thesis
    using cutoff pieces strip_scheme_conn[OF assms(1)] by (simp only: address_list_def) simp
qed

theorem address_list_names_every_host_witness:
  "address_list ''couchbase://10.0.1.5:11210,n2:11210?x=y'' = ''10.0.1.5, n2''"
  using address_list_names_every_host[of "''couchbase''" "[(''10.0.1.5'', ''11210''), (''n2'', ''11210'')]" "''?x=y''"]
  by (simp add: host_text_def host_char_def solid_def at_port_def)

lemma label_examples:
  "cluster_label ''couchbase://region-a-srv.region-a.svc'' = ''region-a''"
  "cluster_label ''couchbase://a::b:c'' = ''a::b''"
  "cluster_label ''couchbase://[::1]:11210'' = ''[::1]''"
  "cluster_label [] = ''none''"
  by code_simp+

end
