(* ===== verification/Go_Json.thy ===== *)
theory Go_Json
  imports Cluster_Labels
begin

text \<open>
  The part of \<open>encoding/json\<close> the program uses: strings with their UTF-8 and HTML-safe escapes, and
  the syntax of a JSON document. The parser works on tokens with an explicit stack, as the scanner
  of the package does, so it is a structural recursion over the token list and always ends.
\<close>

section \<open>UTF-8\<close>

abbreviation byte :: "char \<Rightarrow> nat" where "byte c \<equiv> of_char c"

definition cont :: "nat \<Rightarrow> nat \<Rightarrow> char \<Rightarrow> bool" where
  "cont lo hi c \<longleftrightarrow> lo \<le> byte c \<and> byte c \<le> hi"

text \<open>The length of the valid encoding a string starts with; 0 when it starts with none.\<close>

fun utf8_len :: "gostring \<Rightarrow> nat" where
  "utf8_len [] = 0"
| "utf8_len (a # s) =
     (if byte a < 128 then 1
      else if cont 194 223 a then
        (case s of b # _ \<Rightarrow> if cont 128 191 b then 2 else 0 | [] \<Rightarrow> 0)
      else if cont 224 239 a then
        (case s of
           b # c # _ \<Rightarrow>
             if cont (if byte a = 224 then 160 else 128) (if byte a = 237 then 159 else 191) b \<and> cont 128 191 c
             then 3 else 0
         | _ \<Rightarrow> 0)
      else if cont 240 244 a then
        (case s of
           b # c # d # _ \<Rightarrow>
             if cont (if byte a = 240 then 144 else 128) (if byte a = 244 then 143 else 191) b \<and>
                cont 128 191 c \<and> cont 128 191 d
             then 4 else 0
         | _ \<Rightarrow> 0)
      else 0)"

definition utf8_encode :: "nat \<Rightarrow> gostring" where
  "utf8_encode r =
     (if r < 128 then [char_of r]
      else if r < 2048 then [char_of (192 + r div 64), char_of (128 + r mod 64)]
      else if r < 65536 then
        [char_of (224 + r div 4096), char_of (128 + r div 64 mod 64), char_of (128 + r mod 64)]
      else
        [char_of (240 + r div 262144), char_of (128 + r div 4096 mod 64), char_of (128 + r div 64 mod 64),
         char_of (128 + r mod 64)])"

definition replacement :: gostring where
  "replacement = [CHR 0xEF, CHR 0xBF, CHR 0xBD]"

section \<open>Encoding strings\<close>

definition json_esc_char :: "char \<Rightarrow> gostring" where
  "json_esc_char c =
     (if c = CHR 0x22 \<or> c = CHR 0x5C then [CHR 0x5C, c]
      else if c = CHR 0x08 then [CHR 0x5C, CHR ''b'']
      else if c = CHR 0x0C then [CHR 0x5C, CHR ''f'']
      else if c = CHR 0x0A then [CHR 0x5C, CHR ''n'']
      else if c = CHR 0x0D then [CHR 0x5C, CHR ''r'']
      else if c = CHR 0x09 then [CHR 0x5C, CHR ''t'']
      else if byte c < 32 \<or> c \<in> set ''<>&'' then
        [CHR 0x5C, CHR ''u'', CHR ''0'', CHR ''0'', hex_digit (byte c div 16), hex_digit (byte c mod 16)]
      else [c])"

function json_escape :: "gostring \<Rightarrow> gostring" where
  "json_escape s =
     (case s of
        [] \<Rightarrow> []
      | c # t \<Rightarrow>
          (let n = utf8_len s
           in if n = 0 then CHR 0x5C # ''ufffd'' @ json_escape t
              else if n = 1 then json_esc_char c @ json_escape t
              else if take 3 s = [CHR 0xE2, CHR 0x80, CHR 0xA8] then CHR 0x5C # ''u2028'' @ json_escape (drop 3 s)
              else if take 3 s = [CHR 0xE2, CHR 0x80, CHR 0xA9] then CHR 0x5C # ''u2029'' @ json_escape (drop 3 s)
              else take n s @ json_escape (drop n s)))"
  by pat_completeness auto
termination
  by (relation "measure length") auto

declare json_escape.simps [simp del]

definition json_string :: "gostring \<Rightarrow> gostring" where
  "json_string s = [CHR 0x22] @ json_escape s @ [CHR 0x22]"

section \<open>Documents\<close>

datatype json =
    JNull
  | JBool bool
  | JNum gostring
  | JStr gostring
  | JArr "json list"
  | JObj "(gostring \<times> json) list"

datatype json_token =
    LBrace | RBrace | LBracket | RBracket | Colon | Comma
  | Scalar json

section \<open>The lexer\<close>

definition four_hex :: "gostring \<Rightarrow> nat option" where
  "four_hex s =
     (if length (take 4 s) = 4 \<and> (\<forall>c \<in> set (take 4 s). is_hex c)
      then Some (foldl (\<lambda>n c. 16 * n + (let b = byte c in if b \<le> 57 then b - 48 else if b \<le> 70 then b - 55 else b - 87))
             0 (take 4 s))
      else None)"

text \<open>
  What an escape after its backslash stands for, and how many bytes it takes. A surrogate pair is one
  rune; a lone surrogate is the replacement rune.
\<close>

definition json_escape_value :: "gostring \<Rightarrow> (gostring \<times> nat) option" where
  "json_escape_value s =
     (case s of
        [] \<Rightarrow> None
      | c # t \<Rightarrow>
          if c = CHR 0x22 \<or> c = CHR 0x5C \<or> c = CHR ''/'' then Some ([c], 1)
          else if c = CHR ''b'' then Some ([CHR 0x08], 1)
          else if c = CHR ''f'' then Some ([CHR 0x0C], 1)
          else if c = CHR ''n'' then Some ([CHR 0x0A], 1)
          else if c = CHR ''r'' then Some ([CHR 0x0D], 1)
          else if c = CHR ''t'' then Some ([CHR 0x09], 1)
          else if c = CHR ''u'' then
            (case four_hex t of
               None \<Rightarrow> None
             | Some u \<Rightarrow>
                 if 55296 \<le> u \<and> u < 57344 then
                   (case (if take 2 (drop 4 t) = [CHR 0x5C, CHR ''u''] then four_hex (drop 6 t) else None) of
                      Some v \<Rightarrow>
                        if u < 56320 \<and> 56320 \<le> v \<and> v < 57344
                        then Some (utf8_encode (65536 + (u - 55296) * 1024 + (v - 56320)), 11)
                        else Some (replacement, 5)
                    | None \<Rightarrow> Some (replacement, 5))
                 else Some (utf8_encode u, 5))
          else None)"

function lex_string :: "gostring \<Rightarrow> gostring \<Rightarrow> (gostring \<times> gostring) option" where
  "lex_string acc s =
     (case s of
        [] \<Rightarrow> None
      | c # t \<Rightarrow>
          if c = CHR 0x22 then Some (acc, t)
          else if c = CHR 0x5C then
            (case json_escape_value t of
               None \<Rightarrow> None
             | Some (b, n) \<Rightarrow> lex_string (acc @ b) (drop n t))
          else if byte c < 32 then None
          else if utf8_len s = 0 then lex_string (acc @ replacement) t
          else lex_string (acc @ take (utf8_len s) s) (drop (utf8_len s) s))"
  by pat_completeness auto
termination
  by (relation "measure (\<lambda>(acc, s). length s)") auto

declare lex_string.simps [simp del]

lemma lex_string_shorter: "lex_string acc s = Some (x, r) \<Longrightarrow> length r < length s"
proof (induction acc s rule: lex_string.induct)
  case (1 acc s)
  show ?case
  proof (cases s)
    case Nil
    then show ?thesis using 1(4) by (simp add: lex_string.simps)
  next
    case (Cons c t)
    consider "c = CHR 0x22" | "c \<noteq> CHR 0x22" "c = CHR 0x5C"
      | "c \<noteq> CHR 0x22" "c \<noteq> CHR 0x5C" "byte c < 32"
      | "c \<noteq> CHR 0x22" "c \<noteq> CHR 0x5C" "\<not> byte c < 32" "utf8_len s = 0"
      | "c \<noteq> CHR 0x22" "c \<noteq> CHR 0x5C" "\<not> byte c < 32" "utf8_len s \<noteq> 0" by blast
    then show ?thesis
    proof cases
      case 1
      then show ?thesis using "1.prems" Cons by (simp add: lex_string.simps)
    next
      case 2
      then obtain b n where e: "json_escape_value t = Some (b, n)" "lex_string (acc @ b) (drop n t) = Some (x, r)"
        using "1.prems" Cons by (subst (asm) lex_string.simps) (auto split: option.splits)
      with 1(1)[OF Cons 2 e(1)] show ?thesis using Cons by simp
    next
      case 3
      then show ?thesis using "1.prems" Cons by (subst (asm) lex_string.simps) auto
    next
      case 4
      then have "lex_string (acc @ replacement) t = Some (x, r)"
        using "1.prems" Cons by (subst (asm) lex_string.simps) auto
      then show ?thesis using 1(2)[OF Cons 4] Cons by simp
    next
      case 5
      then have "lex_string (acc @ take (utf8_len s) s) (drop (utf8_len s) s) = Some (x, r)"
        using "1.prems" Cons by (subst (asm) lex_string.simps) auto
      then show ?thesis using 1(3)[OF Cons 5] by simp
    qed
  qed
qed

text \<open>The number grammar: an integer part, an optional fraction and an optional exponent.\<close>

definition digits_only :: "gostring \<Rightarrow> bool" where
  "digits_only s \<longleftrightarrow> s \<noteq> [] \<and> (\<forall>c \<in> set s. is_digit c)"

definition json_number :: "gostring \<Rightarrow> bool" where
  "json_number s =
     (let t = (if take 1 s = ''-'' then drop 1 s else s);
          ip = takeWhile is_digit t; r1 = dropWhile is_digit t;
          fr = (if take 1 r1 = ''.'' then takeWhile is_digit (drop 1 r1) else ''0'');
          r2 = (if take 1 r1 = ''.'' then dropWhile is_digit (drop 1 r1) else r1);
          ex = (if take 1 r2 = ''e'' \<or> take 1 r2 = ''E'' then drop 1 r2 else ''0'');
          ex' = (if take 1 ex = ''+'' \<or> take 1 ex = ''-'' then drop 1 ex else ex)
      in ip \<noteq> [] \<and> (hd ip = CHR ''0'' \<longrightarrow> length ip = 1) \<and> fr \<noteq> [] \<and> digits_only ex' \<and>
         (r2 = [] \<or> take 1 r2 = ''e'' \<or> take 1 r2 = ''E''))"

definition number_char :: "char \<Rightarrow> bool" where
  "number_char c \<longleftrightarrow> is_digit c \<or> c \<in> set ''+-.eE''"

definition json_space :: "char \<Rightarrow> bool" where
  "json_space c \<longleftrightarrow> c \<in> {CHR 0x20, CHR 0x09, CHR 0x0A, CHR 0x0D}"

definition punctuation :: "char \<Rightarrow> json_token option" where
  "punctuation c =
     (if c = CHR ''{'' then Some LBrace else if c = CHR ''}'' then Some RBrace
      else if c = CHR ''['' then Some LBracket else if c = CHR '']'' then Some RBracket
      else if c = CHR '':'' then Some Colon else if c = CHR '','' then Some Comma else None)"

text \<open>One token and the rest of the input.\<close>

definition lex_one :: "gostring \<Rightarrow> (json_token \<times> gostring) option" where
  "lex_one s =
     (case s of
        [] \<Rightarrow> None
      | c # t \<Rightarrow>
          (case punctuation c of
             Some k \<Rightarrow> Some (k, t)
           | None \<Rightarrow>
               if c = CHR 0x22 then map_option (\<lambda>(x, r). (Scalar (JStr x), r)) (lex_string [] t)
               else if take 4 s = ''true'' then Some (Scalar (JBool True), drop 4 s)
               else if take 5 s = ''false'' then Some (Scalar (JBool False), drop 5 s)
               else if take 4 s = ''null'' then Some (Scalar JNull, drop 4 s)
               else
                 (let n = takeWhile number_char s
                  in if json_number n then Some (Scalar (JNum n), dropWhile number_char s) else None)))"

lemma json_number_Nil: "\<not> json_number []"
  by (simp add: json_number_def)

lemma drop_number_shorter:
  assumes "json_number (takeWhile number_char s)"
  shows "length (dropWhile number_char s) < length s"
proof -
  have "takeWhile number_char s \<noteq> []" using assms json_number_Nil by metis
  then have "0 < length (takeWhile number_char s)" by simp
  moreover have "length s = length (takeWhile number_char s) + length (dropWhile number_char s)"
    by (metis length_append takeWhile_dropWhile_id)
  ultimately show ?thesis by linarith
qed

lemma lex_one_shorter:
  assumes one: "lex_one s = Some (k, r)"
  shows "length r < length s"
proof (cases s)
  case Nil
  with one show ?thesis by (simp add: lex_one_def)
next
  case (Cons c t)
  note def = one[unfolded lex_one_def Cons list.case Let_def]
  show ?thesis
  proof (cases "punctuation c")
    case None
    then show ?thesis
      using def lex_string_shorter[of "[]" t] drop_number_shorter[of "c # t"]
      by (simp add: Cons split: if_splits) fastforce+
  qed (use def in \<open>simp add: Cons\<close>)
qed

function lex_json :: "gostring \<Rightarrow> json_token list option" where
  "lex_json s =
     (let s' = dropWhile json_space s
      in if s' = [] then Some []
         else
           (case lex_one s' of
              None \<Rightarrow> None
            | Some (k, r) \<Rightarrow> map_option (\<lambda>ks. k # ks) (lex_json r)))"
  by pat_completeness auto
termination
proof (relation "measure length", goal_cases)
  case (2 s s' x k r)
  then have "length r < length s'" using lex_one_shorter by auto
  then show ?case using 2 length_dropWhile_le[of json_space s] by simp
qed simp

declare lex_json.simps [simp del]

section \<open>The parser\<close>

datatype json_frame = InArr "json list" | InObj "(gostring \<times> json) list" gostring

datatype json_state =
    NeedValue
  | NeedValueOrEnd
  | NeedKey "(gostring \<times> json) list"
  | NeedKeyOrEnd
  | NeedColon "(gostring \<times> json) list" gostring
  | Have json

definition max_depth :: nat where
  "max_depth = 10000"

text \<open>A value is expected and this token comes; \<open>None\<close> when it starts none.\<close>

fun start_value :: "json_token \<Rightarrow> json_frame list \<Rightarrow> (json_state \<times> json_frame list) option" where
  "start_value (Scalar v) st = Some (Have v, st)"
| "start_value LBracket st = (if max_depth \<le> length st then None else Some (NeedValueOrEnd, InArr [] # st))"
| "start_value LBrace st = (if max_depth \<le> length st then None else Some (NeedKeyOrEnd, st))"
| "start_value _ st = None"

fun json_step :: "json_token \<Rightarrow> json_state \<times> json_frame list \<Rightarrow> (json_state \<times> json_frame list) option" where
  "json_step k (NeedValue, st) = start_value k st"
| "json_step k (NeedValueOrEnd, st) =
     (case (k, st) of
        (RBracket, InArr vs # st') \<Rightarrow> Some (Have (JArr vs), st')
      | _ \<Rightarrow> start_value k st)"
| "json_step k (NeedKeyOrEnd, st) =
     (case k of
        RBrace \<Rightarrow> Some (Have (JObj []), st)
      | Scalar (JStr key) \<Rightarrow> Some (NeedColon [] key, st)
      | _ \<Rightarrow> None)"
| "json_step k (NeedKey ps, st) =
     (case k of Scalar (JStr key) \<Rightarrow> Some (NeedColon ps key, st) | _ \<Rightarrow> None)"
| "json_step k (NeedColon ps key, st) =
     (if k = Colon then Some (NeedValue, InObj ps key # st) else None)"
| "json_step k (Have v, st) =
     (case (st, k) of
        (InArr vs # st', Comma) \<Rightarrow> Some (NeedValue, InArr (vs @ [v]) # st')
      | (InArr vs # st', RBracket) \<Rightarrow> Some (Have (JArr (vs @ [v])), st')
      | (InObj ps key # st', Comma) \<Rightarrow> Some (NeedKey (ps @ [(key, v)]), st')
      | (InObj ps key # st', RBrace) \<Rightarrow> Some (Have (JObj (ps @ [(key, v)])), st')
      | _ \<Rightarrow> None)"

fun json_run :: "json_token list \<Rightarrow> json_state \<times> json_frame list \<Rightarrow> (json_state \<times> json_frame list) option" where
  "json_run [] c = Some c"
| "json_run (k # ks) c = (case json_step k c of None \<Rightarrow> None | Some c' \<Rightarrow> json_run ks c')"

definition parse_json :: "gostring \<Rightarrow> json option" where
  "parse_json s =
     (case lex_json s of
        None \<Rightarrow> None
      | Some ks \<Rightarrow>
          (case json_run ks (NeedValue, []) of
             Some (Have v, []) \<Rightarrow> Some v
           | _ \<Rightarrow> None))"

section \<open>Matching object keys\<close>

text \<open>\<open>foldName\<close>: keys match struct fields up to case; two non-ASCII runes fold to letters.\<close>

fun fold_name :: "gostring \<Rightarrow> gostring" where
  "fold_name [] = []"
| "fold_name (a # s) =
     (if a = CHR 0xC5 \<and> take 1 s = [CHR 0xBF] then CHR ''s'' # fold_name (drop 1 s)
      else if a = CHR 0xE2 \<and> take 2 s = [CHR 0x84, CHR 0xAA] then CHR ''k'' # fold_name (drop 2 s)
      else lower_char a # fold_name s)"

definition key_matches :: "gostring \<Rightarrow> gostring \<Rightarrow> bool" where
  "key_matches name key \<longleftrightarrow> fold_name key = fold_name name"

section \<open>A printed string reads back\<close>

function valid_utf8 :: "gostring \<Rightarrow> bool" where
  "valid_utf8 s =
     (if s = [] then True else if utf8_len s = 0 then False else valid_utf8 (drop (utf8_len s) s))"
  by pat_completeness auto
termination
  by (relation "measure length") auto

lemma valid_utf8_iff: "valid_utf8 s \<longleftrightarrow> s = [] \<or> utf8_len s \<noteq> 0 \<and> valid_utf8 (drop (utf8_len s) s)"
  by (subst valid_utf8.simps) simp

declare valid_utf8.simps [simp del]

lemma valid_utf8_Nil [simp]: "valid_utf8 []"
  by (simp add: valid_utf8.simps)

lemma utf8_len_one: "utf8_len (c # t) = 1 \<longleftrightarrow> byte c < 128"
  by (cases "byte c < 128") (simp_all split: list.split)

lemma utf8_len_pos: "s \<noteq> [] \<Longrightarrow> utf8_len s \<noteq> 1 \<Longrightarrow> 128 \<le> byte (hd s)"
  using utf8_len_one[of "hd s" "tl s"] by simp

lemma utf8_len_take:
  assumes "utf8_len s = n" "n \<noteq> 0"
  shows "n \<le> length s \<and> utf8_len (take n s @ y) = n"
proof (cases s)
  case Nil
  with assms show ?thesis by simp
next
  case (Cons a t)
  show ?thesis
  proof (cases t)
    case Nil
    with Cons assms show ?thesis by (auto split: if_splits)
  next
    case t: (Cons b u)
    show ?thesis
    proof (cases u)
      case Nil
      with Cons t assms show ?thesis by (auto split: if_splits)
    next
      case u: (Cons c v)
      then show ?thesis
        using Cons t assms by (cases v) (auto simp: numeral_eq_Suc split: if_splits)
    qed
  qed
qed

lemma valid_utf8_ascii: "\<forall>c \<in> set s. byte c < 128 \<Longrightarrow> valid_utf8 s"
proof (induction s)
  case (Cons c s)
  then have "utf8_len (c # s) = 1" by (simp add: utf8_len_one)
  with Cons show ?case by (subst valid_utf8_iff) simp
qed simp

lemma hex_digit_reads:
  assumes "d < 16"
  shows "is_hex (hex_digit d)"
    "(let b = byte (hex_digit d) in if b \<le> 57 then b - 48 else if b \<le> 70 then b - 55 else b - 87) = d"
  using assms by (simp_all add: hex_digit_def is_hex_def is_digit_def Let_def)

lemma four_hex_control:
  assumes "n < 128"
  shows "four_hex ([CHR ''0'', CHR ''0'', hex_digit (n div 16), hex_digit (n mod 16)] @ x) = Some n"
  using assms hex_digit_reads[of "n div 16"] hex_digit_reads[of "n mod 16"]
  by (simp add: four_hex_def is_hex_def[of "CHR ''0''"] is_digit_def[of "CHR ''0''"])

lemma lex_string_esc:
  "lex_string acc (CHR 0x5C # t) =
     (case json_escape_value t of None \<Rightarrow> None | Some (b, n) \<Rightarrow> lex_string (acc @ b) (drop n t))"
  by (subst lex_string.simps) simp

lemma lex_string_esc_char:
  assumes "byte c < 128"
  shows "lex_string acc (json_esc_char c @ x) = lex_string (acc @ [c]) x"
proof (cases "c \<in> {CHR 0x22, CHR 0x5C, CHR 0x08, CHR 0x0C, CHR 0x0A, CHR 0x0D, CHR 0x09}")
  case True
  then show ?thesis
    by (elim insertE emptyE) (simp_all add: json_esc_char_def lex_string_esc json_escape_value_def)
next
  case False
  show ?thesis
  proof (cases "byte c < 32 \<or> c \<in> set ''<>&''")
    case True
    have n: "four_hex (CHR ''0'' # CHR ''0'' # hex_digit (byte c div 16) # hex_digit (byte c mod 16) # x) = Some (byte c)"
      using four_hex_control[OF assms] by simp
    have "json_escape_value (CHR ''u'' # CHR ''0'' # CHR ''0'' # hex_digit (byte c div 16) # hex_digit (byte c mod 16) # x)
        = Some ([c], 5)"
      using assms by (simp add: json_escape_value_def n utf8_encode_def)
    moreover have "json_esc_char c = [CHR 0x5C, CHR ''u'', CHR ''0'', CHR ''0'', hex_digit (byte c div 16),
        hex_digit (byte c mod 16)]"
      using False True by (simp add: json_esc_char_def)
    ultimately show ?thesis by (simp add: lex_string_esc)
  next
    case plain: False
    then have "json_esc_char c = [c]" using False by (simp add: json_esc_char_def)
    moreover have "utf8_len (c # x) = 1" using assms by (simp add: utf8_len_one)
    ultimately show ?thesis using plain False by (subst lex_string.simps) simp
  qed
qed

lemma lex_string_multi:
  assumes "utf8_len s = n" "2 \<le> n"
  shows "lex_string acc (take n s @ x) = lex_string (acc @ take n s) x"
proof -
  have n: "n \<le> length s" "utf8_len (take n s @ x) = n" using utf8_len_take[of s n x] assms by auto
  then obtain c t where ct: "take n s @ x = c # t" using assms by (cases s; cases n) auto
  then have "128 \<le> byte c" using utf8_len_pos[of "take n s @ x"] n assms(2) by simp
  then have c: "c \<noteq> CHR 0x22" "c \<noteq> CHR 0x5C" "\<not> byte c < 32" by auto
  have "lex_string acc (c # t) = lex_string (acc @ take n (c # t)) (drop n (c # t))"
    using c n(2) ct assms(2) by (subst lex_string.simps) simp
  then show ?thesis using n(1) by (simp add: ct[symmetric])
qed

lemma separator_bytes:
  "char_of (226::nat) = CHR 0xE2" "char_of (128::nat) = CHR 0x80"
  "char_of (168::nat) = CHR 0xA8" "char_of (169::nat) = CHR 0xA9"
  by code_simp+

lemma lex_string_separators:
  "lex_string acc (CHR 0x5C # ''u2028'' @ x) = lex_string (acc @ [CHR 0xE2, CHR 0x80, CHR 0xA8]) x"
  "lex_string acc (CHR 0x5C # ''u2029'' @ x) = lex_string (acc @ [CHR 0xE2, CHR 0x80, CHR 0xA9]) x"
  by (simp_all add: lex_string_esc json_escape_value_def four_hex_def is_hex_def is_digit_def utf8_encode_def Let_def
      separator_bytes)

text \<open>Escaping is inverted by the lexer: nothing of a valid string is lost or misread.\<close>

lemma lex_string_json_escape:
  "valid_utf8 s \<Longrightarrow> lex_string acc (json_escape s @ CHR 0x22 # r) = Some (acc @ s, r)"
proof (induction s arbitrary: acc rule: json_escape.induct)
  case (1 s)
  show ?case
  proof (cases s)
    case Nil
    then show ?thesis by (subst json_escape.simps, subst lex_string.simps) simp
  next
    case (Cons c t)
    have n0: "utf8_len s \<noteq> 0" and rest: "valid_utf8 (drop (utf8_len s) s)"
      using "1.prems"[unfolded valid_utf8_iff[of s]] Cons by simp_all
    note esc = json_escape.simps[of s]
    consider "utf8_len s = 1" | "2 \<le> utf8_len s" "take 3 s = [CHR 0xE2, CHR 0x80, CHR 0xA8]"
      | "2 \<le> utf8_len s" "take 3 s = [CHR 0xE2, CHR 0x80, CHR 0xA9]"
      | "2 \<le> utf8_len s" "take 3 s \<noteq> [CHR 0xE2, CHR 0x80, CHR 0xA8]" "take 3 s \<noteq> [CHR 0xE2, CHR 0x80, CHR 0xA9]"
      using n0 by force
    then show ?thesis
    proof cases
      case 1
      then have "byte c < 128" using Cons utf8_len_one by blast
      moreover have "lex_string (acc @ [c]) (json_escape t @ CHR 0x22 # r) = Some ((acc @ [c]) @ t, r)"
        using "1.IH"(2)[OF Cons refl n0 1] rest 1 Cons by simp
      moreover have "json_escape s = json_esc_char c @ json_escape t" using esc 1 Cons by simp
      ultimately show ?thesis using Cons by (simp add: lex_string_esc_char)
    next
      case 2
      then have n: "utf8_len s \<noteq> 1" and l: "utf8_len s = 3"
        using Cons by (auto split: list.splits if_splits simp: cont_def numeral_eq_Suc)
      have "json_escape s = CHR 0x5C # ''u2028'' @ json_escape (drop 3 s)" using esc 2 n n0 Cons by simp
      moreover have "s = [CHR 0xE2, CHR 0x80, CHR 0xA8] @ drop 3 s" using 2(2) append_take_drop_id[of 3 s] by metis
      ultimately show ?thesis
        using "1.IH"(3)[OF Cons refl n0 n 2(2), of "acc @ [CHR 0xE2, CHR 0x80, CHR 0xA8]"] rest l
          lex_string_separators(1)[of acc "json_escape (drop 3 s) @ CHR 0x22 # r"] by simp
    next
      case 3
      then have n: "utf8_len s \<noteq> 1" and l: "utf8_len s = 3"
        using Cons by (auto split: list.splits if_splits simp: cont_def numeral_eq_Suc)
      have ne: "take 3 s \<noteq> [CHR 0xE2, CHR 0x80, CHR 0xA8]" using 3(2) by simp
      have "json_escape s = CHR 0x5C # ''u2029'' @ json_escape (drop 3 s)" using esc 3 ne n n0 Cons by simp
      moreover have "s = [CHR 0xE2, CHR 0x80, CHR 0xA9] @ drop 3 s" using 3(2) append_take_drop_id[of 3 s] by metis
      ultimately show ?thesis
        using "1.IH"(4)[OF Cons refl n0 n ne 3(2), of "acc @ [CHR 0xE2, CHR 0x80, CHR 0xA9]"] rest l
          lex_string_separators(2)[of acc "json_escape (drop 3 s) @ CHR 0x22 # r"] by simp
    next
      case 4
      then have n: "utf8_len s \<noteq> 1" by simp
      have "json_escape s = take (utf8_len s) s @ json_escape (drop (utf8_len s) s)"
        using esc 4 n n0 Cons by (simp only: list.case Let_def if_False) 
      then show ?thesis
        using "1.IH"(5)[OF Cons refl n0 n 4(2,3), of "acc @ take (utf8_len s) s"] rest
          lex_string_multi[OF refl 4(1)] by simp
    qed
  qed
qed

lemma utf8_len_append: "utf8_len a \<noteq> 0 \<Longrightarrow> utf8_len (a @ b) = utf8_len a"
  using utf8_len_take[of a "utf8_len a" "drop (utf8_len a) a @ b"]
  by (metis append.assoc append_take_drop_id)

lemma valid_utf8_append [simp]: "valid_utf8 a \<Longrightarrow> valid_utf8 b \<Longrightarrow> valid_utf8 (a @ b)"
proof (induction a rule: valid_utf8.induct)
  case (1 a)
  show ?case
  proof (cases "a = []")
    case False
    then have n: "utf8_len a \<noteq> 0" "valid_utf8 (drop (utf8_len a) a)"
      using "1.prems"(1) valid_utf8_iff[of a] by auto
    then have "valid_utf8 (drop (utf8_len a) a @ b)" using "1.IH" False "1.prems"(2) by blast
    moreover have "utf8_len a \<le> length a" using utf8_len_take[OF refl n(1)] by simp
    ultimately show ?thesis
      using n(1) by (subst valid_utf8_iff) (simp add: utf8_len_append)
  qed (use "1.prems" in simp)
qed

lemma valid_utf8_take_len: "utf8_len s \<noteq> 0 \<Longrightarrow> valid_utf8 (take (utf8_len s) s)"
  using utf8_len_take[of s "utf8_len s" "[]"] by (subst valid_utf8_iff) simp

lemma valid_utf8_esc_char: "byte c < 128 \<Longrightarrow> valid_utf8 (json_esc_char c)"
proof (rule valid_utf8_ascii)
  assume "byte c < 128"
  moreover have "byte (hex_digit d) < 128" if "d < 16" for d using that by (simp add: hex_digit_def)
  ultimately show "\<forall>x \<in> set (json_esc_char c). byte x < 128" by (simp add: json_esc_char_def)
qed

lemma valid_utf8_json_escape [simp]: "valid_utf8 (json_escape s)"
proof (induction s rule: json_escape.induct)
  case (1 s)
  show ?case
  proof (cases s)
    case Nil
    then show ?thesis by (subst json_escape.simps) simp
  next
    case (Cons c t)
    have ascii: "valid_utf8 (CHR 0x5C # x)" if "\<forall>c \<in> set x. byte c < 128" for x
      using that by (intro valid_utf8_ascii) simp
    have multi: "valid_utf8 (CHR 0x5C # x @ y)" if "\<forall>c \<in> set x. byte c < 128" "valid_utf8 y" for x y
      using valid_utf8_append[OF ascii[OF that(1)] that(2)] by simp
    have one: "utf8_len s = 1 \<Longrightarrow> valid_utf8 (json_esc_char c)"
      using valid_utf8_esc_char utf8_len_one Cons by blast
    note ih = "1.IH"[OF Cons refl]
    show ?thesis
      using ih one multi valid_utf8_take_len[of s] multi[of "''ufffd''"] multi[of "''u2028''"] multi[of "''u2029''"]
      by (subst json_escape.simps) (simp add: Cons Let_def del: utf8_len.simps)
  qed
qed

lemma valid_utf8_json_string [simp]: "valid_utf8 (json_string s)"
proof -
  have "valid_utf8 [CHR 0x22]" by (rule valid_utf8_ascii) simp
  then show ?thesis by (simp add: json_string_def del: append.simps)
qed

section \<open>Reading a document piece by piece\<close>

definition cons_token :: "json_token \<Rightarrow> json_token list option \<Rightarrow> json_token list option" where
  "cons_token k r = map_option (\<lambda>ks. k # ks) r"

lemma cons_token_Some [simp]: "cons_token k (Some ks) = Some (k # ks)"
  by (simp add: cons_token_def)

lemma lex_json_punctuation:
  assumes "punctuation c = Some k"
  shows "lex_json (c # s) = cons_token k (lex_json s)"
proof -
  have "\<not> json_space c" using assms by (auto simp: punctuation_def json_space_def)
  then show ?thesis using assms by (subst lex_json.simps) (simp add: lex_one_def cons_token_def)
qed

lemma lex_json_string:
  assumes "valid_utf8 x"
  shows "lex_json (json_string x @ s) = cons_token (Scalar (JStr x)) (lex_json s)"
proof -
  have "lex_one (CHR 0x22 # json_escape x @ CHR 0x22 # s) = Some (Scalar (JStr x), s)"
    using lex_string_json_escape[OF assms, of "[]" s] by (simp add: lex_one_def punctuation_def)
  then show ?thesis
    by (subst lex_json.simps) (simp add: json_string_def json_space_def cons_token_def)
qed

lemma lex_json_Nil [simp]: "lex_json [] = Some []"
  by (subst lex_json.simps) simp

lemmas lex_json_pieces =
  lex_json_string
  lex_json_punctuation[where c = "CHR ''{''" and k = LBrace]
  lex_json_punctuation[where c = "CHR ''}''" and k = RBrace]
  lex_json_punctuation[where c = "CHR ''[''" and k = LBracket]
  lex_json_punctuation[where c = "CHR '']''" and k = RBracket]
  lex_json_punctuation[where c = "CHR '':''" and k = Colon]
  lex_json_punctuation[where c = "CHR '',''" and k = Comma]

lemma json_examples:
  "parse_json ''{ }'' = Some (JObj [])"
  "parse_json ''[1, -2.5e3, {},[true,null]]'' =
     Some (JArr [JNum ''1'', JNum ''-2.5e3'', JObj [], JArr [JBool True, JNull]])"
  "parse_json ''[1,]'' = None"
  "parse_json ''01'' = None"
  by code_simp+

end
