(* ===== verification/Go_Net.thy ===== *)
theory Go_Net
  imports Cluster_Labels
begin

text \<open>
  The part of \<open>net/url\<close> and \<open>net/http\<close> the webhook client uses: \<open>url.Parse\<close> as far as the scheme,
  the host and the path (user information, query and fragment are checked and dropped), header keys
  and basic authentication. A bracketed host must hold an IPv6 address, and any other host at most
  one colon, as the toolchain of \<open>go.mod\<close> requires.
\<close>

section \<open>Escapes\<close>

definition is_letter :: "char \<Rightarrow> bool" where
  "is_letter c \<longleftrightarrow> 97 \<le> (of_char c :: nat) \<and> (of_char c :: nat) \<le> 122 \<or>
     65 \<le> (of_char c :: nat) \<and> (of_char c :: nat) \<le> 90"

definition hex_value :: "char \<Rightarrow> nat" where
  "hex_value c = (let n = of_char c :: nat in if n \<le> 57 then n - 48 else if n \<le> 70 then n - 55 else n - 87)"

text \<open>
  \<open>url.unescape\<close>: \<open>ok\<close> says which escaped byte is accepted and \<open>plain\<close> which byte may stand for
  itself.
\<close>

fun unescape :: "(nat \<Rightarrow> bool) \<Rightarrow> (char \<Rightarrow> bool) \<Rightarrow> gostring \<Rightarrow> gostring + gostring" where
  "unescape ok plain [] = Inr []"
| "unescape ok plain (c # s) =
     (if c = CHR ''%'' then
        (case s of
           a # b # t \<Rightarrow>
             if is_hex a \<and> is_hex b \<and> ok (16 * hex_value a + hex_value b) then
               bind_result (unescape ok plain t) (\<lambda>r. Inr (char_of (16 * hex_value a + hex_value b) # r))
             else Inl (''invalid URL escape '' @ go_quote (take 3 (c # s)))
         | _ \<Rightarrow> Inl (''invalid URL escape '' @ go_quote (c # s)))
      else if \<not> plain c then Inl (''invalid character '' @ go_quote [c] @ '' in host name'')
      else bind_result (unescape ok plain s) (\<lambda>r. Inr (c # r)))"

definition unreserved :: "char \<Rightarrow> bool" where
  "unreserved c \<longleftrightarrow> is_letter c \<or> is_digit c \<or> c \<in> set ''-_.~''"

definition host_plain :: "char \<Rightarrow> bool" where
  "host_plain c \<longleftrightarrow> unreserved c \<or> c \<in> set ''!$&()*+,;=:[]<>'' \<or> c = CHR 0x27 \<or> c = CHR 0x22 \<or>
     128 \<le> (of_char c :: nat)"

definition userinfo_char :: "char \<Rightarrow> bool" where
  "userinfo_char c \<longleftrightarrow> is_letter c \<or> is_digit c \<or> c \<in> set ''-._:~!$&()*+,;=%@'' \<or> c = CHR 0x27"

section \<open>Parsing a URL\<close>

record parsed_url =
  pu_scheme :: gostring
  pu_host :: gostring
  pu_path :: gostring

definition is_control :: "char \<Rightarrow> bool" where
  "is_control c \<longleftrightarrow> (of_char c :: nat) < 32 \<or> (of_char c :: nat) = 127"

text \<open>\<open>getScheme\<close>: the scheme and the rest; no scheme when a byte that cannot be in one comes first.\<close>

fun scan_scheme :: "gostring \<Rightarrow> gostring \<Rightarrow> (gostring \<times> gostring) option" where
  "scan_scheme acc [] = None"
| "scan_scheme acc (c # s) =
     (if is_letter c then scan_scheme (acc @ [c]) s
      else if is_digit c \<or> c \<in> set ''+-.'' then (if acc = [] then None else scan_scheme (acc @ [c]) s)
      else if c = CHR '':'' then Some (acc, s)
      else None)"

definition get_scheme :: "gostring \<Rightarrow> gostring + gostring \<times> gostring" where
  "get_scheme raw =
     (case scan_scheme [] raw of
        None \<Rightarrow> Inr ([], raw)
      | Some (sch, rest) \<Rightarrow> if sch = [] then Inl ''missing protocol scheme'' else Inr (sch, rest))"

definition valid_optional_port :: "gostring \<Rightarrow> bool" where
  "valid_optional_port p \<longleftrightarrow> p = [] \<or> hd p = CHR '':'' \<and> (\<forall>c \<in> set (tl p). is_digit c)"

definition after_last :: "char \<Rightarrow> gostring \<Rightarrow> gostring" where
  "after_last c s = drop (Suc (length (before_last c s))) s"

definition parse_host :: "gostring \<Rightarrow> gostring + gostring" where
  "parse_host host =
     (if take 1 host = ''['' then
        (if CHR '']'' \<notin> set host then Inl ''missing ']' in host''
         else
           (let inside = drop 1 (before_last (CHR '']'') host); port = after_last (CHR '']'') host
            in if \<not> valid_optional_port port then Inl (''invalid port '' @ go_quote port @ '' after host'')
               else if \<not> is_ipv6 (before_first (\<lambda>c. c = CHR ''%'') inside) then Inl ''invalid host''
               else unescape (\<lambda>_. True) host_plain host))
      else
        (let port = dropWhile (\<lambda>c. c \<noteq> CHR '':'') host
         in if \<not> valid_optional_port port then Inl (''invalid port '' @ go_quote port @ '' after host'')
            else unescape (\<lambda>n. 128 \<le> n \<or> n = 37) host_plain host))"

definition parse_authority :: "gostring \<Rightarrow> gostring + gostring" where
  "parse_authority authority =
     (if CHR ''@'' \<notin> set authority then parse_host authority
      else
        bind_result (parse_host (after_last (CHR ''@'') authority)) (\<lambda>host.
          let user = before_last (CHR ''@'') authority
          in if \<not> (\<forall>c \<in> set user. userinfo_char c) then Inl ''net/url: invalid userinfo''
             else bind_result (unescape (\<lambda>_. True) (\<lambda>_. True) user) (\<lambda>_. Inr host)))"

definition parse_rest :: "gostring \<Rightarrow> gostring \<Rightarrow> gostring + parsed_url" where
  "parse_rest scheme rest =
     (if scheme \<noteq> [] \<and> take 1 rest \<noteq> ''/'' then
        Inr \<lparr>pu_scheme = scheme, pu_host = [], pu_path = []\<rparr>
      else if take 1 rest \<noteq> ''/'' \<and> CHR '':'' \<in> set (before_first (\<lambda>c. c = CHR ''/'') rest) then
        Inl ''first path segment in URL cannot contain colon''
      else
        (let has_host = (scheme \<noteq> [] \<or> take 3 rest \<noteq> ''///'') \<and> take 2 rest = ''//'';
             authority = (if has_host then before_first (\<lambda>c. c = CHR ''/'') (drop 2 rest) else []);
             path = (if has_host then dropWhile (\<lambda>c. c \<noteq> CHR ''/'') (drop 2 rest) else rest)
         in bind_result (if has_host then parse_authority authority else Inr []) (\<lambda>host.
              bind_result (unescape (\<lambda>_. True) (\<lambda>_. True) path) (\<lambda>p.
                Inr \<lparr>pu_scheme = scheme, pu_host = host, pu_path = p\<rparr>))))"

text \<open>The URL without its fragment; a query is cut off whether or not it is empty.\<close>

definition parse_no_frag :: "gostring \<Rightarrow> gostring + parsed_url" where
  "parse_no_frag raw =
     (if \<exists>c \<in> set raw. is_control c then Inl ''net/url: invalid control character in URL''
      else if raw = ''*'' then Inr \<lparr>pu_scheme = [], pu_host = [], pu_path = ''*''\<rparr>
      else
        bind_result (get_scheme raw) (\<lambda>(sch, rest).
          parse_rest (to_lower sch) (before_first (\<lambda>c. c = CHR ''?'') rest)))"

definition url_parse :: "gostring \<Rightarrow> gostring + parsed_url" where
  "url_parse raw =
     (case cut (CHR ''#'') raw of (u, frag, _) \<Rightarrow>
        bind_result (parse_no_frag u) (\<lambda>p.
          bind_result (unescape (\<lambda>_. True) (\<lambda>_. True) frag) (\<lambda>_. Inr p)))"

section \<open>Header keys and basic authentication\<close>

definition token_char :: "char \<Rightarrow> bool" where
  "token_char c \<longleftrightarrow> is_letter c \<or> is_digit c \<or> c \<in> set ''!#$%&*+-.^_`|~'' \<or> c = CHR 0x27"

definition upper_char :: "char \<Rightarrow> char" where
  "upper_char c = (if 97 \<le> (of_char c :: nat) \<and> (of_char c :: nat) \<le> 122 then char_of (of_char c - 32 :: nat) else c)"

fun capitalise :: "bool \<Rightarrow> gostring \<Rightarrow> gostring" where
  "capitalise up [] = []"
| "capitalise up (c # s) = (if up then upper_char c else lower_char c) # capitalise (c = CHR ''-'') s"

text \<open>The canonical form of a header key; a key with a byte outside a token is kept as it is.\<close>

definition canonical_key :: "gostring \<Rightarrow> gostring" where
  "canonical_key k = (if \<forall>c \<in> set k. token_char c then capitalise True k else k)"

definition b64_char :: "nat \<Rightarrow> char" where
  "b64_char n =
     (if n < 26 then char_of (65 + n) else if n < 52 then char_of (71 + n)
      else if n < 62 then char_of (n - 4) else if n = 62 then CHR ''+'' else CHR ''/'')"

fun base64 :: "gostring \<Rightarrow> gostring" where
  "base64 [] = []"
| "base64 [a] = [b64_char (of_char a div 4), b64_char (of_char a mod 4 * 16), CHR ''='', CHR ''='']"
| "base64 [a, b] =
     [b64_char (of_char a div 4), b64_char (of_char a mod 4 * 16 + of_char b div 16),
      b64_char (of_char b mod 16 * 4), CHR ''='']"
| "base64 (a # b # c # s) =
     [b64_char (of_char a div 4), b64_char (of_char a mod 4 * 16 + of_char b div 16),
      b64_char (of_char b mod 16 * 4 + of_char c div 64), b64_char (of_char c mod 64)] @ base64 s"

definition basic_auth :: "gostring \<Rightarrow> gostring \<Rightarrow> gostring" where
  "basic_auth user pass = ''Basic '' @ base64 (user @ '':'' @ pass)"

section \<open>Facts\<close>

lemma scan_scheme_append:
  assumes "\<forall>c \<in> set s. is_letter c \<or> (is_digit c \<or> c \<in> set ''+-.'')" "acc \<noteq> [] \<or> s \<noteq> [] \<and> is_letter (hd s)"
  shows "scan_scheme acc (s @ CHR '':'' # t) = Some (acc @ s, t)"
  using assms
proof (induction s arbitrary: acc)
  case Nil
  then show ?case by (simp add: is_letter_def is_digit_def)
next
  case (Cons c s)
  then show ?case by auto
qed

definition scheme_text :: "gostring \<Rightarrow> bool" where
  "scheme_text s \<longleftrightarrow> s \<noteq> [] \<and> is_letter (hd s) \<and> (\<forall>c \<in> set s. is_letter c \<or> is_digit c \<or> c \<in> set ''+-.'')"

lemma get_scheme_conn: "scheme_text s \<Longrightarrow> get_scheme (s @ CHR '':'' # t) = Inr (s, t)"
  using scan_scheme_append[of s "[]" t] by (auto simp: get_scheme_def scheme_text_def)

lemma before_last_at: "c \<notin> set t \<Longrightarrow> before_last c (s @ c # t) = s \<and> after_last c (s @ c # t) = t"
  by (simp add: before_last_append after_last_def)

lemma unescape_plain: "\<forall>c \<in> set s. plain c \<and> c \<noteq> CHR ''%'' \<Longrightarrow> unescape ok plain s = Inr s"
  by (induction s) auto

lemma go_net_examples:
  "url_parse ''HTTP://u:p@h.example:80/a%20b?token=x#f'' =
     Inr \<lparr>pu_scheme = ''http'', pu_host = ''h.example:80'', pu_path = ''/a b''\<rparr>"
  "url_parse ''://x'' = Inl ''missing protocol scheme''"
  "canonical_key ''private-tOKEN'' = ''Private-Token''"
  "basic_auth ''Aladdin'' ''open sesame'' = ''Basic QWxhZGRpbjpvcGVuIHNlc2FtZQ==''"
  by code_simp+

end
