(* ===== verification/Webhook_Notify.thy ===== *)
theory Webhook_Notify
  imports Effects Go_Json Webhook_Client "HOL-Library.AList"
begin

text \<open>
  \<open>pkg/notify/event.go\<close> and \<open>pkg/notify/http.go\<close>: the payload, its JSON, and the delivery with its
  retries. Sending a request, waiting and the clock are a parameter (\<open>http_env\<close>) over the world, as
  is the text of a float (\<open>sf\<close>). A send answers with a status or with an error; the text of the error
  is that of the cause, without the URL the client wraps around it.
\<close>

section \<open>The payload\<close>

record endpoint =
  ep_role :: gostring
  ep_conn :: gostring
  ep_label :: gostring
  ep_nodes :: "gostring list"
  ep_status :: gostring

record event =
  ev_event :: gostring
  ev_sent_at :: gostring
  ev_attempt :: int
  ev_reason :: gostring
  ev_sustained_down_s :: rat
  ev_from :: endpoint
  ev_to :: endpoint
  ev_configmaps :: "gostring list"
  ev_deployments :: "gostring list"
  ev_actuators :: "gostring list"
  ev_dry_run :: bool

definition json_member :: "gostring \<Rightarrow> gostring \<Rightarrow> gostring" where
  "json_member k v = json_string k @ '':'' @ v"

definition json_object :: "gostring list \<Rightarrow> gostring" where
  "json_object ms = ''{'' @ join '','' ms @ ''}''"

text \<open>A slice of strings; the nil slice is null. \<open>omitempty\<close> drops an empty one with its key.\<close>

definition json_strings :: "gostring list \<Rightarrow> gostring" where
  "json_strings xs = (if xs = [] then ''null'' else ''['' @ join '','' (map json_string xs) @ '']'')"

definition omit_empty :: "gostring \<Rightarrow> gostring list \<Rightarrow> gostring list" where
  "omit_empty k xs = (if xs = [] then [] else [json_member k (json_strings xs)])"

definition encode_endpoint :: "endpoint \<Rightarrow> gostring" where
  "encode_endpoint ep = json_object
     ([json_member ''role'' (json_string (ep_role ep)), json_member ''conn'' (json_string (ep_conn ep)),
       json_member ''label'' (json_string (ep_label ep))] @
      omit_empty ''nodes'' (ep_nodes ep) @
      (if ep_status ep = [] then [] else [json_member ''status'' (json_string (ep_status ep))]))"

definition encode_event :: "(rat \<Rightarrow> gostring) \<Rightarrow> event \<Rightarrow> gostring" where
  "encode_event sf e = json_object
     ([json_member ''event'' (json_string (ev_event e)), json_member ''sent_at'' (json_string (ev_sent_at e)),
       json_member ''attempt'' (show_int (ev_attempt e)), json_member ''reason'' (json_string (ev_reason e)),
       json_member ''sustained_down_s'' (sf (ev_sustained_down_s e)),
       json_member ''from'' (encode_endpoint (ev_from e)), json_member ''to'' (encode_endpoint (ev_to e))] @
      omit_empty ''configmaps'' (ev_configmaps e) @ omit_empty ''deployments'' (ev_deployments e) @
      [json_member ''actuators'' (json_strings (ev_actuators e)), json_member ''dry_run'' (show_bool (ev_dry_run e))])"

section \<open>The client\<close>

record http_request =
  rq_url :: gostring
  rq_headers :: "(gostring \<times> gostring) list"
  rq_body :: gostring

text \<open>A send fails with a \<open>*url.Error\<close> around a cause, or with some other error.\<close>

datatype send_error = UrlError gostring gostring | OtherError gostring

fun cause :: "send_error \<Rightarrow> gostring" where
  "cause (UrlError url inner) = inner"
| "cause (OtherError msg) = msg"

text \<open>\<open>http_wait\<close> is the select on the context and the timer: the context's error if it ended first.\<close>

record 'w http_env =
  http_do :: "http_request \<Rightarrow> 'w \<Rightarrow> (send_error + int) \<times> 'w"
  http_wait :: "duration \<Rightarrow> 'w \<Rightarrow> gostring option \<times> 'w"
  http_now :: "'w \<Rightarrow> instant \<times> 'w"

record http_notifier =
  hn_url :: gostring
  hn_user :: gostring
  hn_pass :: gostring
  hn_headers :: "webhook_header list"
  hn_retries :: int
  hn_backoff :: "(int \<Rightarrow> duration) option"
  hn_dry_run :: bool

definition backoff_of :: "http_notifier \<Rightarrow> int \<Rightarrow> duration" where
  "backoff_of h attempt = (case hn_backoff h of Some b \<Rightarrow> b attempt | None \<Rightarrow> default_backoff attempt)"

definition retryable :: "int \<Rightarrow> bool \<Rightarrow> bool" where
  "retryable status failed =
     (if failed \<or> status = 0 then True else 500 \<le> status \<or> status = 429)"

definition set_header :: "gostring \<Rightarrow> gostring \<Rightarrow> (gostring \<times> gostring) list \<Rightarrow> (gostring \<times> gostring) list" where
  "set_header k v hs = AList.update (canonical_key k) v hs"

definition request_headers :: "http_notifier \<Rightarrow> (gostring \<times> gostring) list" where
  "request_headers h =
     (let hs = foldl (\<lambda>hs x. set_header (wh_key x) (wh_value x) hs)
                 (set_header ''Content-Type'' ''application/json'' []) (hn_headers h)
      in if hn_user h \<noteq> [] then set_header ''Authorization'' (basic_auth (hn_user h) (hn_pass h)) hs else hs)"

text \<open>One attempt: the status, 0 when nothing was answered, and the error.\<close>

definition post ::
  "(rat \<Rightarrow> gostring) \<Rightarrow> 'w http_env \<Rightarrow> http_notifier \<Rightarrow> event \<Rightarrow> int \<Rightarrow> 'w proc \<Rightarrow>
   (int \<times> gostring option) \<times> 'w proc" where
  "post sf env h e attempt p =
     (case outside (http_now env) p of (now, p1) \<Rightarrow>
        let body = encode_event sf (e\<lparr>ev_attempt := attempt, ev_sent_at := rfc3339 now\<rparr>)
        in case url_parse (hn_url h) of
             Inl err \<Rightarrow> ((0, Some (''build webhook request to '' @ redact_url (hn_url h) @ '': '' @ err)), p1)
           | Inr _ \<Rightarrow>
               let p2 = log_event LevelTrace ''webhook_body''
                          [(''url'', AStr (redact_url (hn_url h))), (''body'', AStr body)] p1
               in case outside (http_do env \<lparr>rq_url = hn_url h, rq_headers = request_headers h, rq_body = body\<rparr>) p2 of
                    (Inl err, p3) \<Rightarrow>
                      ((0, Some (''webhook post to '' @ redact_url (hn_url h) @ '': '' @ cause err)), p3)
                  | (Inr status, p3) \<Rightarrow>
                      if status < 200 \<or> 299 < status
                      then ((status, Some (''webhook post: unexpected status '' @ show_int status)), p3)
                      else ((status, None), p3))"

text \<open>The loop: \<open>n\<close> attempts are left, this one has number \<open>attempt\<close> of \<open>attempts\<close>.\<close>

fun attempts_from ::
  "(rat \<Rightarrow> gostring) \<Rightarrow> 'w http_env \<Rightarrow> http_notifier \<Rightarrow> event \<Rightarrow> int \<Rightarrow> nat \<Rightarrow> int \<Rightarrow> gostring option \<Rightarrow>
   'w proc \<Rightarrow> gostring option \<times> 'w proc" where
  "attempts_from sf env h e attempts 0 attempt last_err p = (last_err, p)"
| "attempts_from sf env h e attempts (Suc n) attempt last_err p =
     (case post sf env h e attempt p of
        ((status, None), p1) \<Rightarrow>
          (None, log_event LevelInfo ''webhook_called''
             [(''url'', AStr (redact_url (hn_url h))), (''status'', AInt status), (''attempt'', AInt attempt)] p1)
      | ((status, Some err), p1) \<Rightarrow>
          if \<not> retryable status False \<or> attempt = attempts then
            (Some err, log_event LevelError ''webhook_failed''
               [(''url'', AStr (redact_url (hn_url h))), (''attempts'', AInt attempt), (''err'', AStr err)] p1)
          else
            (let wait = backoff_of h attempt;
                 p2 = log_event LevelWarn ''webhook_retry''
                        [(''url'', AStr (redact_url (hn_url h))), (''attempt'', AInt attempt),
                         (''attempts'', AInt attempts), (''err'', AStr err), (''wait'', ADur wait)] p1
             in case outside (http_wait env wait) p2 of
                  (Some ctx_err, p3) \<Rightarrow>
                    (Some ctx_err, log_event LevelError ''webhook_failed''
                       [(''url'', AStr (redact_url (hn_url h))), (''attempts'', AInt attempt),
                        (''err'', AStr ctx_err)] p3)
                | (None, p3) \<Rightarrow> attempts_from sf env h e attempts n (attempt + 1) (Some err) p3))"

definition attempt_count :: "http_notifier \<Rightarrow> int" where
  "attempt_count h = max 1 (wrap64 (hn_retries h + 1))"

definition http_notify ::
  "(rat \<Rightarrow> gostring) \<Rightarrow> 'w http_env \<Rightarrow> http_notifier \<Rightarrow> event \<Rightarrow> 'w proc \<Rightarrow> gostring option \<times> 'w proc" where
  "http_notify sf env h e p =
     (if hn_dry_run h then
        (None, log_event LevelInfo ''webhook_dry_run''
           [(''url'', AStr (redact_url (hn_url h))), (''from'', AStr (ep_label (ev_from e))),
            (''to'', AStr (ep_label (ev_to e)))] p)
      else attempts_from sf env h e (attempt_count h) (nat (attempt_count h)) 1 None p)"

text \<open>\<open>Mock\<close>: records the calls and answers what it was given.\<close>

record mock_notifier =
  mn_calls :: "event list"
  mn_err :: "gostring option"

definition mock_notify :: "event \<Rightarrow> mock_notifier \<Rightarrow> gostring option \<times> mock_notifier" where
  "mock_notify e m = (mn_err m, m\<lparr>mn_calls := mn_calls m @ [e]\<rparr>)"

section \<open>One attempt\<close>

lemma post_cases:
  assumes "post sf env h e attempt p = ((status, err), p')"
  obtains
    (bad_url) msg now p1 where "url_parse (hn_url h) = Inl msg" "outside (http_now env) p = (now, p1)"
      "status = 0" "err = Some (''build webhook request to '' @ redact_url (hn_url h) @ '': '' @ msg)" "p' = p1"
  | (sent) u now p1 body r p2 where "url_parse (hn_url h) = Inr u" "outside (http_now env) p = (now, p1)"
      "body = encode_event sf (e\<lparr>ev_attempt := attempt, ev_sent_at := rfc3339 now\<rparr>)"
      "outside (http_do env \<lparr>rq_url = hn_url h, rq_headers = request_headers h, rq_body = body\<rparr>)
         (log_event LevelTrace ''webhook_body''
            [(''url'', AStr (redact_url (hn_url h))), (''body'', AStr body)] p1) = (r, p2)"
      "p' = p2" "status = (case r of Inl _ \<Rightarrow> 0 | Inr st \<Rightarrow> st)"
      "err = None \<longleftrightarrow> (\<exists>st. r = Inr st \<and> 200 \<le> st \<and> st \<le> 299)"
proof -
  obtain now p1 where n: "outside (http_now env) p = (now, p1)" by force
  show thesis
  proof (cases "url_parse (hn_url h)")
    case (Inl msg)
    then show ?thesis using assms n by (intro bad_url) (auto simp: post_def Let_def)
  next
    case (Inr u)
    define body where "body = encode_event sf (e\<lparr>ev_attempt := attempt, ev_sent_at := rfc3339 now\<rparr>)"
    obtain r p2 where d: "outside (http_do env \<lparr>rq_url = hn_url h, rq_headers = request_headers h, rq_body = body\<rparr>)
         (log_event LevelTrace ''webhook_body''
            [(''url'', AStr (redact_url (hn_url h))), (''body'', AStr body)] p1) = (r, p2)" by force
    show ?thesis
      using assms n d Inr
      by (intro sent[OF Inr n body_def d])
         (auto simp: post_def Let_def body_def[symmetric] split: sum.splits if_splits)
  qed
qed

section \<open>What a delivery costs\<close>

text \<open>
  A measure of the world (a clock, a count of requests): a send adds at most \<open>a\<close> to it, a wait of
  \<open>d\<close> at most \<open>c d\<close>, reading the clock nothing.
\<close>

definition env_costs :: "('w \<Rightarrow> int) \<Rightarrow> int \<Rightarrow> (duration \<Rightarrow> int) \<Rightarrow> 'w http_env \<Rightarrow> bool" where
  "env_costs \<mu> a c env \<longleftrightarrow>
     (\<forall>rq w. \<mu> w \<le> \<mu> (snd (http_do env rq w)) \<and> \<mu> (snd (http_do env rq w)) \<le> \<mu> w + a) \<and>
     (\<forall>d w. \<mu> w \<le> \<mu> (snd (http_wait env d w)) \<and> \<mu> (snd (http_wait env d w)) \<le> \<mu> w + c d) \<and>
     (\<forall>w. \<mu> (snd (http_now env w)) = \<mu> w)"

lemma outside_world: "outside f p = (x, q) \<Longrightarrow> world q = snd (f (world p))"
  and outside_answer: "outside f p = (x, q) \<Longrightarrow> x = fst (f (world p))"
  by (auto simp: outside_eq)

lemma post_cost:
  assumes "env_costs \<mu> a c env" "0 \<le> a" "post sf env h e attempt p = ((status, err), p')"
  shows "\<mu> (world p) \<le> \<mu> (world p') \<and> \<mu> (world p') \<le> \<mu> (world p) + a"
  using assms(3)
proof (cases rule: post_cases)
  case (bad_url msg now p1)
  then show ?thesis
    using assms(1,2) outside_world[OF bad_url(2)] by (simp add: env_costs_def)
next
  case (sent u now p1 body r p2)
  then show ?thesis
    using assms(1) outside_world[OF sent(2)] outside_world[OF sent(4)]
    by (metis env_costs_def log_event_frame(1))
qed

lemma attempts_cost:
  assumes "env_costs \<mu> a c env" "0 \<le> a" "\<And>i. 0 \<le> c (backoff_of h i)"
    and "attempts_from sf env h e attempts n attempt last_err p = (err, p')"
    and "attempt + int n = attempts + 1"
  shows "\<mu> (world p) \<le> \<mu> (world p') \<and>
     \<mu> (world p') \<le> \<mu> (world p) + int n * a + (\<Sum>i<n - 1. c (backoff_of h (attempt + int i)))"
  using assms(4,5)
proof (induction n arbitrary: attempt last_err p)
  case (Suc n)
  obtain status r p1 where one: "post sf env h e attempt p = ((status, r), p1)"
    by (metis prod.collapse)
  note cost = post_cost[OF assms(1,2) one]
  have more: "int (Suc n) * a = int n * a + a" by (simp add: algebra_simps)
  have sum: "0 \<le> (\<Sum>i<m. c (backoff_of h (k + int i)))" for m k using assms(3) by (intro sum_nonneg) simp
  show ?case
  proof (cases "r = None \<or> \<not> retryable status False \<or> attempt = attempts")
    case True
    then have "world p' = world p1"
      using Suc.prems(1) one by (auto split: option.splits if_splits)
    then have "\<mu> (world p') = \<mu> (world p1)" by simp
    moreover have "0 \<le> int n * a" using assms(2) by simp
    ultimately show ?thesis using cost sum[of attempt "Suc n - 1"] unfolding more by - (elim conjE, intro conjI; linarith)
  next
    case False
    then obtain msg where r: "r = Some msg" by auto
    then have n: "n \<noteq> 0" using False Suc.prems(2) by auto
    define wait where "wait = backoff_of h attempt"
    define p2 where "p2 = log_event LevelWarn ''webhook_retry''
        [(''url'', AStr (redact_url (hn_url h))), (''attempt'', AInt attempt),
         (''attempts'', AInt attempts), (''err'', AStr msg), (''wait'', ADur wait)] p1"
    obtain ctx p3 where w: "outside (http_wait env wait) p2 = (ctx, p3)" by force
    have p3: "\<mu> (world p1) \<le> \<mu> (world p3)" "\<mu> (world p3) \<le> \<mu> (world p1) + c wait"
      using outside_world[OF w] assms(1) by (auto simp: env_costs_def p2_def)
    have split: "(\<Sum>i<Suc n - 1. c (backoff_of h (attempt + int i))) =
        c wait + (\<Sum>i<n - 1. c (backoff_of h (attempt + 1 + int i)))"
      using n unfolding wait_def
      by (cases n) (simp_all del: sum.lessThan_Suc add: sum.lessThan_Suc_shift add.assoc)
    show ?thesis
    proof (cases ctx)
      case None
      then have "attempts_from sf env h e attempts n (attempt + 1) (Some msg) p3 = (err, p')"
        using Suc.prems(1) one False r w by (simp add: wait_def p2_def Let_def)
      from Suc.IH[OF this] Suc.prems(2)
      have ih: "\<mu> (world p3) \<le> \<mu> (world p')"
        "\<mu> (world p') \<le> \<mu> (world p3) + int n * a + (\<Sum>i<n - 1. c (backoff_of h (attempt + 1 + int i)))"
        by simp_all
      show ?thesis using ih p3 cost unfolding split more by - (elim conjE, intro conjI; linarith)
    next
      case (Some ctx_err)
      then have "world p' = world p3"
        using Suc.prems(1) one False r w by (auto simp: wait_def p2_def Let_def)
      then have "\<mu> (world p') = \<mu> (world p3)" by simp
      moreover have "0 \<le> int n * a" using assms(2) by simp
      ultimately show ?thesis using p3 cost sum[of "attempt + 1" "n - 1"] unfolding split more
        by - (elim conjE, intro conjI; linarith)
    qed
  qed
qed simp

lemma notify_cost:
  assumes "env_costs \<mu> a c env" "0 \<le> a" "\<And>i. 0 \<le> c (backoff_of h i)"
  shows "\<mu> (world p) \<le> \<mu> (world (snd (http_notify sf env h e p))) \<and>
     \<mu> (world (snd (http_notify sf env h e p))) \<le>
       \<mu> (world p) + attempt_count h * a + (\<Sum>i<nat (attempt_count h) - 1. c (backoff_of h (1 + int i)))"
proof (cases "hn_dry_run h")
  case True
  have "0 \<le> attempt_count h * a" using assms(2) by (simp add: attempt_count_def)
  moreover have "0 \<le> (\<Sum>i<nat (attempt_count h) - 1. c (backoff_of h (1 + int i)))"
    using assms(3) by (intro sum_nonneg) simp
  ultimately show ?thesis using True by (simp add: http_notify_def)
next
  case False
  have "int (nat (attempt_count h)) = attempt_count h" by (simp add: attempt_count_def)
  with False show ?thesis
    using attempts_cost[OF assms(1,2), of h sf e "attempt_count h" "nat (attempt_count h)" 1 None p
        "fst (http_notify sf env h e p)" "snd (http_notify sf env h e p)"] assms(3)
    by (simp add: http_notify_def)
qed

text \<open>A small event, for the examples.\<close>

definition sample_endpoint :: "gostring \<Rightarrow> endpoint" where
  "sample_endpoint role = \<lparr>ep_role = role, ep_conn = ''main'', ep_label = ''main'', ep_nodes = [], ep_status = []\<rparr>"

definition sample_event :: event where
  "sample_event = \<lparr>ev_event = ''switch_required'', ev_sent_at = [], ev_attempt = 0, ev_reason = [],
     ev_sustained_down_s = 0, ev_from = sample_endpoint ''primary'', ev_to = sample_endpoint ''secondary'',
     ev_configmaps = [], ev_deployments = [], ev_actuators = [''webhook''], ev_dry_run = False\<rparr>"

definition zero_text :: "rat \<Rightarrow> gostring" where
  "zero_text x = ''0''"

text \<open>
  Delivery is bounded. One \<open>Notify\<close> sends at most \<open>Retries + 1\<close> requests (one when \<open>Retries\<close>
  is negative), and none in dry-run.
\<close>

theorem notify_requests_bounded:
  assumes "env_costs requests 1 (\<lambda>_. 0) env"
  shows "requests (world p) \<le> requests (world (snd (http_notify sf env h e p))) \<and>
     requests (world (snd (http_notify sf env h e p))) \<le>
       requests (world p) + (if hn_dry_run h then 0 else attempt_count h)"
  using notify_cost[OF assms, where h = h and p = p and sf = sf and e = e]
  by (cases "hn_dry_run h") (simp_all add: http_notify_def)

definition counting_env :: "int list http_env" where
  "counting_env = \<lparr>http_do = \<lambda>rq w. (case w of [] \<Rightarrow> (Inl (OtherError ''closed''), []) | st # ss \<Rightarrow> (Inr st, ss)),
     http_wait = \<lambda>d w. (None, w), http_now = \<lambda>w. (0, w)\<rparr>"

definition hook :: "int \<Rightarrow> http_notifier" where
  "hook retries = \<lparr>hn_url = ''https://ci.example/hook'', hn_user = [], hn_pass = [], hn_headers = [],
     hn_retries = retries, hn_backoff = None, hn_dry_run = False\<rparr>"

theorem notify_requests_bounded_witness:
  "- int (length (world (snd (http_notify zero_text counting_env (hook 1) sample_event \<lparr>world = [500, 503, 200], logs = [], metrics = []\<rparr>)))) \<le> - 1"
proof -
  have "env_costs (\<lambda>w. - int (length w)) 1 (\<lambda>_. 0) counting_env"
    by (auto simp: env_costs_def counting_env_def split: list.splits)
  from notify_requests_bounded[OF this, where p = "\<lparr>world = [500, 503, 200], logs = [], metrics = []\<rparr>"
      and sf = zero_text and h = "hook 1" and e = sample_event]
  show ?thesis by (simp add: hook_def attempt_count_def wrap64_def)
qed

text \<open>The default backoffs of a delivery, added up without overflow.\<close>

lemma default_backoff_exact:
  assumes "is_duration (second * k)"
  shows "default_backoff k = second * k"
  using assms by (simp add: default_backoff_def dur_mul_def wrap64_id mult.commute)

lemma backoff_term_bound:
  assumes "i < n" "0 \<le> rest" "is_duration (rest + second * (\<Sum>i<n. 1 + int i))"
  shows "is_duration (second * (1 + int i))"
proof -
  have "(1 + int i) \<le> (\<Sum>i<n. 1 + int i)"
    using assms(1) by (intro member_le_sum) auto
  then have "second * (1 + int i) \<le> second * (\<Sum>i<n. 1 + int i)" by (simp add: second_def)
  moreover have "0 \<le> second * (1 + int i)" by (simp add: second_def)
  ultimately show ?thesis using assms(2,3) by (simp add: is_duration_def min_duration_def)
qed


definition slow_env :: "int http_env" where
  "slow_env = \<lparr>http_do = \<lambda>rq w. (Inl (OtherError ''timeout''), w + 3 * second),
     http_wait = \<lambda>d w. (None, w + max 0 d), http_now = \<lambda>w. (0, w)\<rparr>"


text \<open>A negative retry count is budgeted as no request at all, although one is sent.\<close>

theorem negative_retries_unbudgeted:
  "webhook_worst_case (3 * second) (- 1) = 0 \<and> attempt_count (hook (- 1)) = 1"
  by (simp add: hook_def attempt_count_def) code_simp

section \<open>What a nil error means\<close>

lemma post_ok:
  assumes "post sf env h e attempt p = ((status, None), p')"
  shows "\<exists>rq w. http_do env rq w = (Inr status, world p') \<and> 200 \<le> status \<and> status \<le> 299 \<and>
     rq_url rq = hn_url h \<and> rq_headers rq = request_headers h \<and>
     (\<exists>t. rq_body rq = encode_event sf (e\<lparr>ev_attempt := attempt, ev_sent_at := rfc3339 t\<rparr>))"
  using assms
proof (cases rule: post_cases)
  case (sent u now p1 body r p2)
  then obtain st where r: "r = Inr st" "200 \<le> st" "st \<le> 299" by auto
  with sent(4,5,6) show ?thesis
    unfolding outside_eq sent(3)
    by (intro exI[of _ "\<lparr>rq_url = hn_url h, rq_headers = request_headers h,
        rq_body = encode_event sf (e\<lparr>ev_attempt := attempt, ev_sent_at := rfc3339 now\<rparr>)\<rparr>"]
        exI[of _ "world p1"]) auto
qed simp

lemma attempts_ok:
  assumes "attempts_from sf env h e attempts n attempt (Some le) p = (None, p') \<or>
     0 < n \<and> attempts_from sf env h e attempts n attempt last_err p = (None, p')"
  shows "\<exists>k q. attempt \<le> k \<and> k < attempt + int n \<and>
     (\<exists>status. \<exists>q'. post sf env h e k q = ((status, None), q') \<and> world p' = world q')"
  using assms
proof (induction n arbitrary: attempt last_err le p)
  case (Suc n)
  obtain status r p1 where one: "post sf env h e attempt p = ((status, r), p1)" by (metis prod.collapse)
  show ?case
  proof (cases r)
    case None
    then have "world p' = world p1" using Suc.prems one by auto
    with one None show ?thesis by (intro exI[of _ attempt] exI[of _ p]) auto
  next
    case (Some err)
    then obtain q where "attempts_from sf env h e attempts n (attempt + 1) (Some err) q = (None, p')"
      using Suc.prems one by (auto simp: Let_def split: prod.splits option.splits if_splits)
    then obtain k q where "attempt + 1 \<le> k" "k < attempt + 1 + int n"
      "\<exists>status. \<exists>q'. post sf env h e k q = ((status, None), q') \<and> world p' = world q'"
      using Suc.IH[of "attempt + 1" err q] by blast
    then show ?thesis by (intro exI[of _ k] exI[of _ q]) auto
  qed
qed simp

text \<open>
  A nil error is a delivery. When \<open>Notify\<close> returns nil outside dry-run, the last thing it did
  was a request to the configured URL, with the configured headers and the event as its JSON body,
  numbered with an attempt between 1 and \<open>Retries + 1\<close>, that was answered with a 2xx status.
\<close>

theorem notify_nil_is_delivered:
  assumes "http_notify sf env h e p = (None, p')" and "\<not> hn_dry_run h"
  shows "\<exists>k t rq w status. 1 \<le> k \<and> k \<le> attempt_count h \<and> http_do env rq w = (Inr status, world p') \<and>
     200 \<le> status \<and> status \<le> 299 \<and> rq_url rq = hn_url h \<and> rq_headers rq = request_headers h \<and>
     rq_body rq = encode_event sf (e\<lparr>ev_attempt := k, ev_sent_at := rfc3339 t\<rparr>)"
proof -
  have pos: "0 < nat (attempt_count h)" by (simp add: attempt_count_def)
  have "attempts_from sf env h e (attempt_count h) (nat (attempt_count h)) 1 None p = (None, p')"
    using assms by (simp add: http_notify_def)
  with pos attempts_ok[of sf env h e "attempt_count h" "nat (attempt_count h)" 1 "[]" p p' None]
  obtain k q status q' where k: "1 \<le> k" "k < 1 + int (nat (attempt_count h))"
    "post sf env h e k q = ((status, None), q')" "world p' = world q'" by blast
  from post_ok[OF k(3)] obtain rq w t where
    "http_do env rq w = (Inr status, world q') \<and> 200 \<le> status \<and> status \<le> 299 \<and> rq_url rq = hn_url h \<and>
     rq_headers rq = request_headers h \<and>
     rq_body rq = encode_event sf (e\<lparr>ev_attempt := k, ev_sent_at := rfc3339 t\<rparr>)" by blast
  moreover have "k \<le> attempt_count h" using k(2) pos by simp
  ultimately show ?thesis using k(1,4) by metis
qed

theorem notify_nil_is_delivered_witness:
  "\<exists>p'. http_notify zero_text counting_env (hook 1) sample_event \<lparr>world = [500, 204], logs = [], metrics = []\<rparr> = (None, p') \<and>
     (\<exists>rq w. http_do counting_env rq w = (Inr 204, world p'))"
proof -
  have u: "url_parse ''https://ci.example/hook'' =
      Inr \<lparr>pu_scheme = ''https'', pu_host = ''ci.example'', pu_path = ''/hook''\<rparr>" by code_simp
  have "fst (http_notify zero_text counting_env (hook 1) sample_event \<lparr>world = [500, 204], logs = [], metrics = []\<rparr>) = None \<and>
      world (snd (http_notify zero_text counting_env (hook 1) sample_event \<lparr>world = [500, 204], logs = [], metrics = []\<rparr>)) = []"
    by (simp add: http_notify_def hook_def attempt_count_def wrap64_def numeral_eq_Suc post_def u counting_env_def
        outside_def log_event_def retryable_def Let_def)
  then obtain p' where run: "http_notify zero_text counting_env (hook 1) sample_event \<lparr>world = [500, 204], logs = [], metrics = []\<rparr> = (None, p')"
    and w: "world p' = []"
    by (metis prod.collapse)
  obtain status rq w where "http_do counting_env rq w = (Inr status, world p')"
    using notify_nil_is_delivered[OF run] by (auto simp: hook_def)
  then have "http_do counting_env rq [204] = (Inr 204, world p')" using w by (simp add: counting_env_def)
  with run show ?thesis by blast
qed

section \<open>The outcome of a delivery\<close>

text \<open>
  The reference: \<open>n\<close> attempts are allowed and the server answers with these statuses in turn (0 when
  nothing is answered). The first 2xx delivers; an answer that is not worth retrying, or the
  last attempt, gives up. The result is whether it was delivered and the answers not yet used.
\<close>

fun deliver :: "nat \<Rightarrow> int list \<Rightarrow> bool \<times> int list" where
  "deliver 0 ss = (False, ss)"
| "deliver (Suc n) [] = (False, [])"
| "deliver (Suc n) (s # ss) =
     (if 200 \<le> s \<and> s \<le> 299 then (True, ss)
      else if n = 0 \<or> (s \<noteq> 0 \<and> s < 500 \<and> s \<noteq> 429) then (False, ss)
      else deliver n ss)"

definition answers_in_turn :: "('w \<Rightarrow> int list) \<Rightarrow> 'w http_env \<Rightarrow> bool" where
  "answers_in_turn answers env \<longleftrightarrow>
     (\<forall>rq w. answers w \<noteq> [] \<longrightarrow> answers (snd (http_do env rq w)) = tl (answers w) \<and>
        (case fst (http_do env rq w) of Inl _ \<Rightarrow> 0 | Inr st \<Rightarrow> st) = hd (answers w)) \<and>
     (\<forall>d w. fst (http_wait env d w) = None \<and> answers (snd (http_wait env d w)) = answers w) \<and>
     (\<forall>w. answers (snd (http_now env w)) = answers w)"

lemma post_answer:
  assumes "answers_in_turn answers env" "url_parse (hn_url h) = Inr u" "answers (world p) = s # ss"
    and "post sf env h e attempt p = ((status, err), p')"
  shows "answers (world p') = ss \<and> status = s \<and> (err = None \<longleftrightarrow> 200 \<le> s \<and> s \<le> 299)"
  using assms(4)
proof (cases rule: post_cases)
  case (sent u' now p1 body r p2)
  have "answers (world p1) = s # ss"
    using assms(1,3) outside_world[OF sent(2)] by (simp add: answers_in_turn_def)
  then have "answers (world p2) = ss \<and> (case r of Inl _ \<Rightarrow> 0 | Inr st \<Rightarrow> st) = s"
    using assms(1) outside_world[OF sent(4)] outside_answer[OF sent(4)] by (simp add: answers_in_turn_def)
  then show ?thesis using sent(5,6,7) by (auto split: sum.splits)
qed (use assms(2) in simp)

lemma attempts_outcome:
  assumes "answers_in_turn answers env" "url_parse (hn_url h) = Inr u"
    and "attempts_from sf env h e attempts n attempt last_err p = (err, p')"
    and "attempt + int n = attempts + 1" "0 < n" "n \<le> length (answers (world p))"
  shows "(err = None, answers (world p')) = deliver n (answers (world p))"
  using assms(3-)
proof (induction n arbitrary: attempt last_err p)
  case (Suc n)
  obtain s ss where ss: "answers (world p) = s # ss" using Suc.prems(4) by (cases "answers (world p)") auto
  obtain status r p1 where one: "post sf env h e attempt p = ((status, r), p1)" by (metis prod.collapse)
  note ans = post_answer[OF assms(1,2) ss one]
  show ?case
  proof (cases r)
    case None
    then show ?thesis using Suc.prems(1) one ans ss by auto
  next
    case (Some msg)
    then have fail: "\<not> (200 \<le> s \<and> s \<le> 299)" using ans by simp
    show ?thesis
    proof (cases "n = 0 \<or> (s \<noteq> 0 \<and> s < 500 \<and> s \<noteq> 429)")
      case True
      then have "\<not> retryable status False \<or> attempt = attempts"
        using ans Suc.prems(2) by (auto simp: retryable_def)
      then show ?thesis using Suc.prems(1) one Some ans ss fail True by auto
    next
      case False
      then have go: "retryable status False" "attempt \<noteq> attempts"
        using ans Suc.prems(2) by (auto simp: retryable_def)
      obtain ctx p3 where w: "outside (http_wait env (backoff_of h attempt)) (log_event LevelWarn ''webhook_retry''
          [(''url'', AStr (redact_url (hn_url h))), (''attempt'', AInt attempt), (''attempts'', AInt attempts),
           (''err'', AStr msg), (''wait'', ADur (backoff_of h attempt))] p1) = (ctx, p3)" by force
      have ctx: "ctx = None" "answers (world p3) = ss"
        using assms(1) outside_world[OF w] outside_answer[OF w] ans by (simp_all add: answers_in_turn_def)
      then have "attempts_from sf env h e attempts n (attempt + 1) (Some msg) p3 = (err, p')"
        using Suc.prems(1) one Some go w by (simp add: Let_def)
      from Suc.IH[OF this] have "(err = None, answers (world p')) = deliver n ss"
        using Suc.prems(2,4) False ctx ss by simp
      moreover have "deliver (Suc n) (s # ss) = deliver n ss" using False fail by auto
      ultimately show ?thesis unfolding ss by simp
    qed
  qed
qed simp



section \<open>Credentials\<close>

definition with_credentials ::
  "gostring \<Rightarrow> gostring \<Rightarrow> webhook_header list \<Rightarrow> http_notifier \<Rightarrow> http_notifier" where
  "with_credentials user pass hs h = h\<lparr>hn_user := user, hn_pass := pass, hn_headers := hs\<rparr>"

lemma with_credentials_simps [simp]:
  "hn_url (with_credentials u x hs h) = hn_url h" "hn_retries (with_credentials u x hs h) = hn_retries h"
  "hn_backoff (with_credentials u x hs h) = hn_backoff h" "hn_dry_run (with_credentials u x hs h) = hn_dry_run h"
  "backoff_of (with_credentials u x hs h) = backoff_of h" "attempt_count (with_credentials u x hs h) = attempt_count h"
  by (simp_all add: with_credentials_def backoff_of_def attempt_count_def fun_eq_iff)

definition ignores_headers :: "'w http_env \<Rightarrow> bool" where
  "ignores_headers env \<longleftrightarrow>
     (\<forall>rq rq'. rq_url rq = rq_url rq' \<and> rq_body rq = rq_body rq' \<longrightarrow> http_do env rq = http_do env rq')"

lemma post_credentials:
  assumes "ignores_headers env"
  shows "post sf env (with_credentials u x hs h) e attempt p = post sf env h e attempt p"
proof -
  have "http_do env \<lparr>rq_url = hn_url h, rq_headers = request_headers (with_credentials u x hs h), rq_body = b\<rparr> =
      http_do env \<lparr>rq_url = hn_url h, rq_headers = request_headers h, rq_body = b\<rparr>" for b
    using assms by (auto simp: ignores_headers_def)
  then show ?thesis unfolding post_def with_credentials_simps by presburger
qed

lemma attempts_credentials:
  assumes "ignores_headers env"
  shows "attempts_from sf env (with_credentials u x hs h) e attempts n attempt last_err p =
     attempts_from sf env h e attempts n attempt last_err p"
  by (induction n arbitrary: attempt last_err p)
     (simp_all add: post_credentials[OF assms] Let_def split: prod.splits option.splits)

text \<open>
  C32: Credentials never leak. The user, the password and the header values reach nothing but the
  request: if the server does not react to them, a delivery with other credentials has the same
  result, error text and retries included, and writes the same log.
\<close>

theorem credentials_never_logged:
  assumes "ignores_headers env"
  shows "http_notify sf env (with_credentials user pass hs h) e p = http_notify sf env h e p"
  using attempts_credentials[OF assms] by (simp add: http_notify_def)

theorem credentials_never_logged_witness:
  "logs (snd (http_notify zero_text counting_env (with_credentials ''u'' ''hunter2'' [] (hook 1)) sample_event \<lparr>world = [500, 404], logs = [], metrics = []\<rparr>)) =
   logs (snd (http_notify zero_text counting_env (hook 1) sample_event \<lparr>world = [500, 404], logs = [], metrics = []\<rparr>))"
proof -
  have "ignores_headers counting_env" by (simp add: ignores_headers_def counting_env_def)
  from credentials_never_logged[OF this, of zero_text "''u''" "''hunter2''" "[]" "hook 1"] show ?thesis by simp
qed

section \<open>The interface\<close>

text \<open>
  \<open>Notifier\<close>: what the caller relies on is that a nil error means the event was delivered, in the
  sense of the implementation.
\<close>

locale notifier =
  fixes notify :: "event \<Rightarrow> 's \<Rightarrow> gostring option \<times> 's"
    and delivered :: "event \<Rightarrow> 's \<Rightarrow> bool"
  assumes nil_error_delivered: "notify e s = (None, s') \<Longrightarrow> delivered e s'"
begin

lemma undelivered_is_error: "\<not> delivered e (snd (notify e s)) \<Longrightarrow> fst (notify e s) \<noteq> None"
  using nil_error_delivered[of e s "snd (notify e s)"] by (cases "notify e s") auto

end

definition http_delivered :: "(rat \<Rightarrow> gostring) \<Rightarrow> 'w http_env \<Rightarrow> http_notifier \<Rightarrow> event \<Rightarrow> 'w proc \<Rightarrow> bool" where
  "http_delivered sf env h e p \<longleftrightarrow> hn_dry_run h \<or>
     (\<exists>k t rq w status. http_do env rq w = (Inr status, world p) \<and> 200 \<le> status \<and> status \<le> 299 \<and>
        rq_url rq = hn_url h \<and> rq_body rq = encode_event sf (e\<lparr>ev_attempt := k, ev_sent_at := rfc3339 t\<rparr>))"

lemma http_nil_delivered:
  assumes "http_notify sf env h e p = (None, p')"
  shows "http_delivered sf env h e p'"
proof (cases "hn_dry_run h")
  case False
  have pos: "0 < nat (attempt_count h)" by (simp add: attempt_count_def)
  have "attempts_from sf env h e (attempt_count h) (nat (attempt_count h)) 1 None p = (None, p')"
    using assms False by (simp add: http_notify_def)
  with pos attempts_ok[of sf env h e "attempt_count h" "nat (attempt_count h)" 1 "[]" p p' None]
  obtain k q status q' where k: "post sf env h e k q = ((status, None), q')" "world p' = world q'" by blast
  from post_ok[OF k(1)] k(2) show ?thesis unfolding http_delivered_def by metis
qed (simp add: http_delivered_def)

interpretation hook: notifier "http_notify sf env h" "http_delivered sf env h"
  for sf and env :: "'w http_env" and h
  by unfold_locales (rule http_nil_delivered)

interpretation mock_hook: notifier mock_notify "\<lambda>e m. e \<in> set (mn_calls m)"
  by unfold_locales (auto simp: mock_notify_def)

end
