(* ===== verification/Human_Log.thy ===== *)
theory Human_Log
  imports Effects Cluster_Labels "HOL-Library.AList"
begin

text \<open>
  \<open>pkg/obslog\<close> and \<open>cmd/svchealthcheck/loglevel.go\<close>: the level names, the threshold of the
  logger and the human-readable line of each event. The switch of \<open>renderEvent\<close> is a table with
  one row per case (\<open>templates\<close>), looked up by event name; an event without a row falls back to its
  name and raw fields. How a float field prints is a parameter (\<open>sf\<close>): it shows only in
  the fallback.
\<close>

section \<open>Levels\<close>

definition parse_level :: "gostring \<Rightarrow> gostring + int" where
  "parse_level s =
     (let n = to_lower (trim_space s)
      in if n = ''trace'' then Inr LevelTrace
         else if n = ''debug'' then Inr LevelDebug
         else if n = ''info'' then Inr LevelInfo
         else if n = ''warn'' \<or> n = ''warning'' then Inr LevelWarn
         else if n = ''error'' then Inr LevelError
         else Inl (''unknown log level '' @ go_quote s @ '' (want trace|debug|info|warn|error)''))"

definition level_label :: "int \<Rightarrow> gostring" where
  "level_label l =
     (if l < LevelDebug then ''TRACE'' else if l < LevelInfo then ''DEBUG''
      else if l < LevelWarn then ''INFO'' else if l < LevelError then ''WARN'' else ''ERROR'')"

text \<open>How the text handler of \<open>New\<close> prints a level: only the custom one is renamed.\<close>

definition replace_level :: "(int \<Rightarrow> gostring) \<Rightarrow> int \<Rightarrow> gostring" where
  "replace_level slog_name l = (if l = LevelTrace then ''TRACE'' else slog_name l)"

definition health_level :: "bool \<Rightarrow> int" where
  "health_level changed = (if changed then LevelInfo else LevelDebug)"

definition enabled :: "int \<Rightarrow> int \<Rightarrow> bool" where
  "enabled threshold l \<longleftrightarrow> threshold \<le> l"

section \<open>How a value prints\<close>

definition drop_zeros :: "gostring \<Rightarrow> gostring" where
  "drop_zeros s = rev (dropWhile (\<lambda>c. c = CHR ''0'') (rev s))"

definition pad_zeros :: "nat \<Rightarrow> gostring \<Rightarrow> gostring" where
  "pad_zeros n s = replicate (n - length s) (CHR ''0'') @ s"

definition show_frac :: "nat \<Rightarrow> nat \<Rightarrow> gostring" where
  "show_frac prec v =
     (let t = drop_zeros (pad_zeros prec (show_nat (v mod 10 ^ prec)))
      in if prec = 0 \<or> t = [] then [] else ''.'' @ t)"

text \<open>\<open>Duration.String\<close>; the unit of microseconds is spelled with the UTF-8 micro sign.\<close>

definition show_duration :: "duration \<Rightarrow> gostring" where
  "show_duration d =
     (let u = nat \<bar>d\<bar>;
          body =
            (if u = 0 then ''0s''
             else if u < 1000 then show_nat u @ ''ns''
             else if u < 1000000 then show_nat (u div 1000) @ show_frac 3 u @ [CHR 0xC2, CHR 0xB5, CHR ''s'']
             else if u < 1000000000 then show_nat (u div 1000000) @ show_frac 6 u @ ''ms''
             else
               (let s = u div 1000000000; m = s div 60; h = m div 60
                in (if m = 0 then [] else (if h = 0 then [] else show_nat h @ ''h'') @ show_nat (m mod 60) @ ''m'') @
                   show_nat (s mod 60) @ show_frac 9 u @ ''s''))
      in if d < 0 then ''-'' @ body else body)"

fun attr_text :: "(rat \<Rightarrow> gostring) \<Rightarrow> attr \<Rightarrow> gostring" where
  "attr_text sf (AStr s) = s"
| "attr_text sf (AInt i) = show_int i"
| "attr_text sf (ABool b) = show_bool b"
| "attr_text sf (AFloat x) = sf x"
| "attr_text sf (ADur d) = show_duration d"

text \<open>The verb \<open>%.0f\<close>: the nearest integer, ties to even.\<close>

definition round_even :: "rat \<Rightarrow> int" where
  "round_even x =
     (let n = \<lfloor>x\<rfloor>; r = x - of_int n
      in if r < 1 / 2 then n else if 1 / 2 < r then n + 1 else if even n then n else n + 1)"

section \<open>The line of an event\<close>

type_synonym log_fields = "(gostring \<times> attr) list"

definition field :: "(rat \<Rightarrow> gostring) \<Rightarrow> log_fields \<Rightarrow> gostring \<Rightarrow> gostring" where
  "field sf f k = (case map_of f k of None \<Rightarrow> [] | Some v \<Rightarrow> attr_text sf v)"

definition down_prefix :: "log_fields \<Rightarrow> gostring" where
  "down_prefix f =
     (case map_of f ''sustained_down_s'' of
        Some (AFloat x) \<Rightarrow> if 1 \<le> x then ''down '' @ show_int (round_even x) @ ''s; '' else []
      | _ \<Rightarrow> [])"

definition render_health :: "(rat \<Rightarrow> gostring) \<Rightarrow> log_fields \<Rightarrow> gostring" where
  "render_health sf f =
     (let v = field sf f; region = v ''active_region''
      in if v ''status'' = ''UP'' then region @ '' UP - all critical services reachable''
         else if v ''status'' = ''DEGRADED'' then region @ '' DEGRADED - '' @ v ''reason'' @ '' (active)''
         else
           (let tail = (if v ''switched'' = ''true'' then ''already switched, holding''
                        else if v ''switch_required'' = ''true'' then ''switch required''
                        else ''no switch yet'')
            in region @ '' DOWN - '' @ v ''reason'' @ '' (active; '' @ down_prefix f @ tail @ '')''))"

definition templates ::
  "(rat \<Rightarrow> gostring) \<Rightarrow> (gostring \<times> (log_fields \<Rightarrow> gostring \<times> gostring)) list" where
  "templates sf =
     [(''startup'', \<lambda>f. let v = field sf f in
         (''observer'', ''Started in '' @ v ''mode'' @ '' mode on '' @ v ''addr'' @ '' (critical: '' @ v ''critical'' @ '')'')),
      (''clusters'', \<lambda>f. let v = field sf f in
         (''observer'', ''Clusters: primary='' @ v ''primary'' @ '', secondary='' @ v ''secondary'')),
      (''active_config'', \<lambda>f. let v = field sf f in
         (''observer'', ''Config: failover-delay='' @ v ''failover_delay'' @ '' configmaps=['' @ v ''configmaps'' @
            ''] deployments=['' @ v ''deployments'' @ ''] dry-run='' @ v ''dry_run'' @ '' already-switched='' @
            v ''already_switched'' @ '' actuators=['' @ v ''actuators'' @ '']'')),
      (''adopt_switched'', \<lambda>f. let v = field sf f in
         (''observer'', ''Adopting already-switched state: now on '' @ v ''secondary'' @ ''; apps not rolled, primary DOWN expected'')),
      (''adopt_mixed'', \<lambda>f. let v = field sf f in
         (''observer'', ''Mixed startup state: '' @ v ''pending_count'' @ '' of '' @ v ''total'' @ '' ConfigMaps not yet on '' @
            v ''secondary'' @ '': '' @ v ''pending'' @ ''; switch still pending'')),
      (''target_namespace_unpaired'', \<lambda>f. let v = field sf f in
         (''observer'', v ''count'' @ '' namespace(s) hold a deployment target but no ConfigMap target: '' @ v ''namespaces'' @
            ''; those apps read a ConfigMap this observer never patches'')),
      (''liveness_window_tight'', \<lambda>f. let v = field sf f in
         (''observer'', ''Liveness window tight: 2x probe-timeout '' @ v ''twice_probe_timeout'' @ '' >= 3x interval '' @ v ''window'')),
      (''secondary_connect_failed'', \<lambda>f. let v = field sf f in
         (''observer'', ''Secondary connect failed (treated as DOWN): '' @ v ''err'')),
      (''probe_target'', \<lambda>f. let v = field sf f in
         (''observer'', ''Health probes now follow '' @ v ''target'')),
      (''probe_target_held'', \<lambda>f. let v = field sf f in
         (''observer'', ''Health probes stay on '' @ v ''using'' @ '' - '' @ v ''reason'' @ '' moved nothing, so the apps still read it'')),
      (''probe_target_unavailable'', \<lambda>f. let v = field sf f in
         (''observer'', ''Cannot probe '' @ v ''want'' @ ''; health probes stay on '' @ v ''using'' @
            '' - reported health is NOT the active cluster'')),
      (''health'', \<lambda>f. (''health'', render_health sf f)),
      (''cluster_detail'', \<lambda>f. let v = field sf f in
         (''cluster'', if has_prefix (v ''nodes'') ''0/0'' then v ''listening'' @ '': no nodes in cluster map''
            else v ''listening'' @ '': '' @ v ''nodes'' @ '' nodes reachable'')),
      (''cluster_nodes'', \<lambda>f. let v = field sf f in
         (''cluster'', if v ''nodes'' \<noteq> [] then v ''region'' @ '' nodes: '' @ v ''nodes''
            else v ''region'' @ '' nodes: (none reachable)'')),
      (''cluster_map'', \<lambda>f. let v = field sf f in
         (''cluster'', ''Cluster map: '' @ v ''nodes'')),
      (''cluster_map_change'', \<lambda>f. let v = field sf f in
         (''cluster'', v ''cluster'' @ '': node '' @ v ''host'' @ '' '' @
            (if v ''action'' = ''removed'' then ''left'' else ''joined'') @ '' the cluster map'')),
      (''failover_countdown_start'', \<lambda>f. let v = field sf f in
         (''failover'', ''Countdown started - switch to '' @ v ''secondary'' @ '' if '' @ v ''active_region'' @ '' stays DOWN '' @ v ''delay'')),
      (''switch_required'', \<lambda>f. let v = field sf f in
         (''failover'', ''Switch required - '' @ v ''active_region'' @ '' DOWN'')),
      (''switch_held'', \<lambda>f. let v = field sf f in
         (''failover'', ''Switch held - secondary not ready ('' @ v ''secondary_status'' @ '')'')),
      (''switch_skipped'', \<lambda>f. let v = field sf f in
         (''failover'', ''Switch skipped - '' @ v ''reason'')),
      (''switched'', \<lambda>f. let v = field sf f in
         (''failover'', ''SWITCHED active cluster: '' @ v ''from'' @ '' -> '' @ v ''to'')),
      (''switch_noop'', \<lambda>f. let v = field sf f in
         (''failover'', ''Already on '' @ v ''active_region'' @ '': ConfigMaps needed no change'')),
      (''actuation_error'', \<lambda>f. let v = field sf f in
         (''failover'', ''Actuation failed: '' @ v ''err'')),
      (''configmap_patch'', \<lambda>f. let v = field sf f in
         (''actuator'', ''Patching ConfigMap '' @ v ''configmap'' @ '' (ns='' @ v ''namespace'' @ ''): '' @
            address_list (v ''from'') @ '' -> '' @ address_list (v ''to''))),
      (''deployment_roll'', \<lambda>f. let v = field sf f in
         (''actuator'', ''Rolling deployment '' @ v ''deployment'' @ '' (ns='' @ v ''namespace'' @ '')'')),
      (''roll_only'', \<lambda>f. let v = field sf f in
         (''actuator'', ''ConfigMaps already on '' @ v ''secondary'' @ ''; rolled '' @ v ''rolled'' @ '' deployment(s) to pick it up'')),
      (''roll_skipped'', \<lambda>f. let v = field sf f in
         (''actuator'', ''Skipping rollout of '' @ v ''deployment'' @ '' (ns='' @ v ''namespace'' @ ''): '' @ v ''reason'')),
      (''webhook_target'', \<lambda>f. let v = field sf f in
         (''webhook'', ''Webhook: POST '' @ v ''url'' @ '' (auth: '' @ v ''auth'' @ '', verify: '' @ v ''verify'' @
            '', timeout '' @ v ''timeout'' @ '', retries '' @ v ''retries'' @ '')'')),
      (''webhook_called'', \<lambda>f. let v = field sf f in
         (''webhook'', ''Webhook called: '' @ v ''url'' @ '' -> '' @ v ''status'' @ '' (attempt '' @ v ''attempt'' @ '')'')),
      (''webhook_retry'', \<lambda>f. let v = field sf f in
         (''webhook'', ''Webhook attempt '' @ v ''attempt'' @ ''/'' @ v ''attempts'' @ '' failed ('' @ v ''err'' @
            ''), retrying in '' @ v ''wait'')),
      (''webhook_failed'', \<lambda>f. let v = field sf f in
         (''webhook'', ''Webhook failed after '' @ v ''attempts'' @ '' attempts: '' @ v ''err'')),
      (''webhook_dropped'', \<lambda>f. let v = field sf f in
         (''webhook'', ''Switch already performed by the Kubernetes actuator ('' @ v ''active_region'' @
            ''); webhook notification dropped: '' @ v ''err'')),
      (''webhook_dry_run'', \<lambda>f. let v = field sf f in
         (''webhook'', ''Webhook DRY RUN - would POST '' @ v ''url'' @ '' ('' @ v ''from'' @ '' -> '' @ v ''to'' @ '')'')),
      (''webhook_body'', \<lambda>f. let v = field sf f in
         (''webhook'', ''Webhook body: '' @ v ''body'')),
      (''webhook_insecure'', \<lambda>f. let v = field sf f in
         (''webhook'', ''Webhook TLS verification DISABLED (insecure) for '' @ v ''url'')),
      (''webhook_window_tight'', \<lambda>f. let v = field sf f in
         (''webhook'', ''Webhook budget tight: worst case '' @ v ''worst_case'' @ '' (2x probe-timeout '' @ v ''probe_budget'' @
            '' + webhook '' @ v ''webhook_budget'' @ '') >= 3x interval '' @ v ''window'')),
      (''mode_deprecated'', \<lambda>f. let v = field sf f in
         (''observer'', ''--mode is deprecated and goes away next release; use '' @ v ''replacement''))]"

definition dump_field :: "(rat \<Rightarrow> gostring) \<Rightarrow> gostring \<times> attr \<Rightarrow> gostring" where
  "dump_field sf kv = '' '' @ fst kv @ ''='' @ attr_text sf (snd kv)"

definition render_event :: "(rat \<Rightarrow> gostring) \<Rightarrow> gostring \<Rightarrow> log_fields \<Rightarrow> gostring \<times> gostring" where
  "render_event sf event f =
     (case map_of (templates sf) event of
        Some render \<Rightarrow> render f
      | None \<Rightarrow> (''observer'', event @ concat (map (dump_field sf) f)))"

section \<open>The handler\<close>

record human_handler =
  hh_level :: int
  hh_attrs :: log_fields

definition new_human :: "int \<Rightarrow> human_handler" where
  "new_human level = \<lparr>hh_level = level, hh_attrs = []\<rparr>"

definition with_attrs :: "log_fields \<Rightarrow> human_handler \<Rightarrow> human_handler" where
  "with_attrs as h = h\<lparr>hh_attrs := hh_attrs h @ as\<rparr>"

text \<open>The field map: later attributes replace earlier ones of the same key.\<close>

definition field_map :: "log_fields \<Rightarrow> log_fields" where
  "field_map as = foldl (\<lambda>m kv. AList.update (fst kv) (snd kv) m) [] as"

definition pad_right :: "nat \<Rightarrow> gostring \<Rightarrow> gostring" where
  "pad_right n s = s @ replicate (n - length s) (CHR 0x20)"

text \<open>The line written for a record, with the time of day the record was taken at.\<close>

definition handle_record :: "(rat \<Rightarrow> gostring) \<Rightarrow> human_handler \<Rightarrow> gostring \<Rightarrow> log_entry \<Rightarrow> gostring" where
  "handle_record sf h clock r =
     (case render_event sf (le_event r) (field_map (hh_attrs h @ le_attrs r)) of
        (part, msg) \<Rightarrow> clock @ '' '' @ pad_right 5 (level_label (le_level r)) @ '' '' @ pad_right 9 part @
          '' '' @ msg @ [CHR 0x0A])"

text \<open>The text a logger with this handler writes for the records of a run.\<close>

definition printed :: "(rat \<Rightarrow> gostring) \<Rightarrow> human_handler \<Rightarrow> gostring \<Rightarrow> log_entry list \<Rightarrow> gostring list" where
  "printed sf h clock es =
     map (handle_record sf h clock) (filter (\<lambda>r. enabled (hh_level h) (le_level r)) es)"

section \<open>Facts\<close>

text \<open>The events with a row, as the other components may use them.\<close>

definition known_events :: "gostring list" where
  "known_events = map fst (templates (\<lambda>_. []))"

lemma known_events_eq: "known_events = map fst (templates sf)"
  by (simp add: known_events_def templates_def)

lemma known_events_distinct: "distinct known_events"
  by code_simp

lemma render_event_unknown:
  "event \<notin> set known_events \<Longrightarrow> render_event sf event f = (''observer'', event @ concat (map (dump_field sf) f))"
  by (simp add: render_event_def known_events_eq[of sf] map_of_eq_None_iff[THEN iffD2] split: option.splits)

lemma map_of_field_map_aux:
  "map_of (foldl (\<lambda>m kv. AList.update (fst kv) (snd kv) m) acc as) = map_of acc ++ map_of (rev as)"
  by (induction as arbitrary: acc) (auto simp: update_conv' map_add_upd fun_eq_iff map_add_def split: option.splits)

lemma map_of_field_map [simp]: "map_of (field_map as) = map_of (rev as)"
  by (simp add: field_map_def map_of_field_map_aux)

lemma field_field_map: "field sf (field_map as) k = field sf (rev as) k"
  by (simp add: field_def)

end
