(* ===== verification/Observer_Flags.thy ===== *)
theory Observer_Flags
  imports Human_Log Webhook_Client
begin

text \<open>
  \<open>cmd/svchealthcheck/actuators.go\<close> and the checks \<open>main\<close> makes on its flags before it connects
  to anything: the log level, the set of actuators, the webhook inputs and the width of the liveness
  window.
\<close>

section \<open>The set of actuators\<close>

record actuators =
  act_k8s :: bool
  act_webhook :: bool

definition no_actuators :: actuators where
  "no_actuators = \<lparr>act_k8s = False, act_webhook = False\<rparr>"

definition any_actuator :: "actuators \<Rightarrow> bool" where
  "any_actuator a \<longleftrightarrow> act_k8s a \<or> act_webhook a"

definition actuator_list :: "actuators \<Rightarrow> gostring list" where
  "actuator_list a = (if act_k8s a then [''k8s''] else []) @ (if act_webhook a then [''webhook''] else [])"

fun parse_parts :: "actuators \<Rightarrow> gostring list \<Rightarrow> gostring + actuators" where
  "parse_parts a [] = Inr a"
| "parse_parts a (part # parts) =
     (let s = trim_space part
      in if s = [] then parse_parts a parts
         else if s = ''k8s'' then parse_parts (a\<lparr>act_k8s := True\<rparr>) parts
         else if s = ''webhook'' then parse_parts (a\<lparr>act_webhook := True\<rparr>) parts
         else Inl (''unknown actuator '' @ go_quote s @ '' in --actuators (want k8s and/or webhook)''))"

text \<open>The set, and whether the deprecated \<open>--mode\<close> was supplied.\<close>

definition parse_actuators :: "gostring \<Rightarrow> gostring \<Rightarrow> gostring + actuators \<times> bool" where
  "parse_actuators list mode =
     (if list \<noteq> [] then
        bind_result (parse_parts no_actuators (split_on (CHR '','') list)) (\<lambda>a. Inr (a, mode \<noteq> []))
      else if mode = [] \<or> mode = ''observe'' then Inr (no_actuators, mode \<noteq> [])
      else if mode = ''active'' then Inr (no_actuators\<lparr>act_k8s := True\<rparr>, mode \<noteq> [])
      else Inl (''unknown --mode '' @ go_quote mode @
             '' (want observe or active; --mode is deprecated, use --actuators)''))"

section \<open>The checks of main\<close>

record flags =
  fl_log_level :: gostring
  fl_actuators :: gostring
  fl_mode :: gostring
  fl_webhook_url :: gostring
  fl_webhook_headers :: "gostring list"
  fl_webhook_ca_cert :: gostring
  fl_webhook_skip_verify :: bool
  fl_webhook_timeout :: duration
  fl_webhook_retries :: int
  fl_probe_timeout :: duration
  fl_interval :: duration

record checked =
  ck_level :: int
  ck_actuators :: actuators
  ck_headers :: "webhook_header list"
  ck_client :: "http_client option"

text \<open>The inputs of the webhook, checked only when it is enabled.\<close>

definition check_webhook ::
  "environment \<Rightarrow> (gostring \<Rightarrow> gostring + gostring) \<Rightarrow> (gostring \<Rightarrow> bool) \<Rightarrow> 'f flags_scheme \<Rightarrow>
   gostring + webhook_header list \<times> http_client" where
  "check_webhook env read_file has_certs fl =
     (if fl_webhook_url fl = [] then Inl ''--actuators includes webhook but --webhook-url is empty''
      else
        bind_result (resolve_headers env (fl_webhook_headers fl) ''WEBHOOK_HEADER'') (\<lambda>hs.
          bind_result (new_client read_file has_certs (fl_webhook_ca_cert fl) (fl_webhook_skip_verify fl)
              (fl_webhook_timeout fl)) (\<lambda>c. Inr (hs, c))))"

text \<open>The warning about the liveness window, if it is tight.\<close>

definition window_warning :: "'f flags_scheme \<Rightarrow> actuators \<Rightarrow> (gostring \<times> log_fields) option" where
  "window_warning fl acts =
     (let probe_budget = dur_mul 2 (fl_probe_timeout fl); window = dur_mul 3 (fl_interval fl)
      in if act_webhook acts then
           (let webhook_budget = webhook_worst_case (fl_webhook_timeout fl) (fl_webhook_retries fl);
                worst = dur_add probe_budget webhook_budget
            in if window \<le> worst
               then Some (''webhook_window_tight'',
                      [(''worst_case'', ADur worst), (''probe_budget'', ADur probe_budget),
                       (''webhook_budget'', ADur webhook_budget), (''window'', ADur window)])
               else None)
         else if window \<le> probe_budget
         then Some (''liveness_window_tight'', [(''twice_probe_timeout'', ADur probe_budget), (''window'', ADur window)])
         else None)"

text \<open>Everything up to the first connection: an exit with status 2 and its message, or the checked inputs.\<close>

definition check_flags ::
  "environment \<Rightarrow> (gostring \<Rightarrow> gostring + gostring) \<Rightarrow> (gostring \<Rightarrow> bool) \<Rightarrow> 'f flags_scheme \<Rightarrow> 'w proc \<Rightarrow>
   (gostring + checked) \<times> 'w proc" where
  "check_flags env read_file has_certs fl p =
     (case parse_level (fl_log_level fl) of
        Inl e \<Rightarrow> (Inl e, p)
      | Inr lvl \<Rightarrow>
          (case parse_actuators (fl_actuators fl) (fl_mode fl) of
             Inl e \<Rightarrow> (Inl e, p)
           | Inr (acts, deprecated) \<Rightarrow>
               (let p1 = (if deprecated
                          then log_event LevelWarn ''mode_deprecated''
                                 [(''mode'', AStr (fl_mode fl)),
                                  (''replacement'', AStr (''--actuators='' @ join '','' (actuator_list acts)))] p
                          else p)
                in case (if act_webhook acts
                         then map_sum id (\<lambda>(hs, c). (hs, Some c)) (check_webhook env read_file has_certs fl)
                         else Inr ([], None)) of
                     Inl e \<Rightarrow> (Inl e, p1)
                   | Inr (hs, c) \<Rightarrow>
                       (Inr \<lparr>ck_level = lvl, ck_actuators = acts, ck_headers = hs, ck_client = c\<rparr>,
                        (case window_warning fl acts of
                           None \<Rightarrow> p1
                         | Some (ev, fs) \<Rightarrow> log_event LevelWarn ev fs p1)))))"

section \<open>Properties\<close>

lemma parse_parts_accepts:
  "(\<exists>a'. parse_parts a parts = Inr a') \<longleftrightarrow> (\<forall>x \<in> set parts. trim_space x \<in> {[], ''k8s'', ''webhook''})"
  by (induction parts arbitrary: a) (auto simp: Let_def split: if_splits)

lemma parse_parts_enables:
  "parse_parts a parts = Inr a' \<Longrightarrow>
     (act_k8s a' \<longleftrightarrow> act_k8s a \<or> ''k8s'' \<in> trim_space ` set parts) \<and>
     (act_webhook a' \<longleftrightarrow> act_webhook a \<or> ''webhook'' \<in> trim_space ` set parts)"
proof (induction parts arbitrary: a)
  case (Cons part parts)
  then consider "trim_space part = []" "parse_parts a parts = Inr a'"
    | "trim_space part = ''k8s''" "parse_parts (a\<lparr>act_k8s := True\<rparr>) parts = Inr a'"
    | "trim_space part = ''webhook''" "parse_parts (a\<lparr>act_webhook := True\<rparr>) parts = Inr a'"
    by (auto simp: Let_def split: if_splits)
  then show ?case
  proof cases
    case 1
    then show ?thesis using Cons.IH[OF 1(2)] by simp
  next
    case 2
    then show ?thesis using Cons.IH[OF 2(2)] by simp
  next
    case 3
    then show ?thesis using Cons.IH[OF 3(2)] by simp
  qed
qed simp

text \<open>
  The actuator list. A non-empty list is accepted exactly when each of its trimmed entries is
  blank, \<open>k8s\<close> or \<open>webhook\<close>, it enables exactly the actuators it names, and the deprecated mode
  does not change that; printing an enabled set and parsing it gives it back.
\<close>

theorem parse_actuators_exact:
  "(list \<noteq> [] \<longrightarrow>
     ((\<exists>r. parse_actuators list mode = Inr r) \<longleftrightarrow>
        (\<forall>x \<in> set (split_on (CHR '','') list). trim_space x \<in> {[], ''k8s'', ''webhook''})) \<and>
     (\<forall>a d. parse_actuators list mode = Inr (a, d) \<longrightarrow>
        (act_k8s a \<longleftrightarrow> ''k8s'' \<in> trim_space ` set (split_on (CHR '','') list)) \<and>
        (act_webhook a \<longleftrightarrow> ''webhook'' \<in> trim_space ` set (split_on (CHR '','') list)) \<and> (d \<longleftrightarrow> mode \<noteq> []))) \<and>
   (any_actuator acts \<longrightarrow> parse_actuators (join '','' (actuator_list acts)) [] = Inr (acts, False))"
proof (intro conjI impI allI)
  assume "list \<noteq> []"
  then show "(\<exists>r. parse_actuators list mode = Inr r) \<longleftrightarrow>
      (\<forall>x \<in> set (split_on (CHR '','') list). trim_space x \<in> {[], ''k8s'', ''webhook''})"
    using parse_parts_accepts[of no_actuators "split_on (CHR '','') list"]
    by (auto simp: parse_actuators_def bind_result_Inr_iff)
next
  fix a d assume "list \<noteq> []" "parse_actuators list mode = Inr (a, d)"
  then have "parse_parts no_actuators (split_on (CHR '','') list) = Inr a" "d \<longleftrightarrow> mode \<noteq> []"
    by (auto simp: parse_actuators_def bind_result_Inr_iff)
  from this(1)[THEN parse_parts_enables] this(2)
  show "act_k8s a \<longleftrightarrow> ''k8s'' \<in> trim_space ` set (split_on (CHR '','') list)"
    "act_webhook a \<longleftrightarrow> ''webhook'' \<in> trim_space ` set (split_on (CHR '','') list)" "d \<longleftrightarrow> mode \<noteq> []"
    by (simp_all add: no_actuators_def)
next
  assume any: "any_actuator acts"
  have "tight ''k8s''" "tight ''webhook''" by (simp_all add: tight_def solid_def)
  note trims = this[THEN trim_space_tight]
  show "parse_actuators (join '','' (actuator_list acts)) [] = Inr (acts, False)"
    using any trims by (cases acts) (auto simp: any_actuator_def actuator_list_def parse_actuators_def no_actuators_def)
qed

theorem parse_actuators_exact_witness:
  "parse_actuators ''k8s,webhook'' [] = Inr (\<lparr>act_k8s = True, act_webhook = True\<rparr>, False)"
  using parse_actuators_exact[of "''k8s''" "[]" "\<lparr>act_k8s = True, act_webhook = True\<rparr>"]
  by (simp add: any_actuator_def actuator_list_def)

lemma check_flags_world: "world (snd (check_flags env rf hc fl p)) = world p"
  by (simp add: check_flags_def Let_def split: sum.split prod.split option.split)

lemma check_webhook_ok:
  "check_webhook env rf hc fl = Inr (hs, c) \<Longrightarrow>
     fl_webhook_url fl \<noteq> [] \<and> resolve_headers env (fl_webhook_headers fl) ''WEBHOOK_HEADER'' = Inr hs \<and>
     new_client rf hc (fl_webhook_ca_cert fl) (fl_webhook_skip_verify fl) (fl_webhook_timeout fl) = Inr c"
  by (auto simp: check_webhook_def bind_result_Inr_iff split: if_splits)

lemma check_flags_ok:
  assumes "check_flags env rf hc fl p = (Inr ck, p')"
  shows "\<exists>d. parse_actuators (fl_actuators fl) (fl_mode fl) = Inr (ck_actuators ck, d)"
    "act_webhook (ck_actuators ck) \<Longrightarrow>
       fl_webhook_url fl \<noteq> [] \<and> resolve_headers env (fl_webhook_headers fl) ''WEBHOOK_HEADER'' = Inr (ck_headers ck) \<and>
       (\<exists>c. ck_client ck = Some c \<and>
          new_client rf hc (fl_webhook_ca_cert fl) (fl_webhook_skip_verify fl) (fl_webhook_timeout fl) = Inr c)"
  using assms
  by (auto simp: check_flags_def Let_def map_sum_Inr_iff dest!: check_webhook_ok
      split: sum.splits prod.splits if_splits)

end
