(* ===== verification/Run_Switch.thy ===== *)
theory Run_Switch
  imports K8s_Switch Webhook_Notify Observer_Flags
begin

text \<open>
  \<open>cmd/svchealthcheck/switch.go\<close>: the payload of a switch decision and \<open>runSwitch\<close>, which performs
  every enabled actuation and says whether the state machine may latch.
\<close>

section \<open>The payload\<close>

definition ref_strings :: "ref list \<Rightarrow> gostring list" where
  "ref_strings refs = (if refs = [] then [] else map ref_string refs)"

definition new_switch_event ::
  "actuators \<Rightarrow> gostring \<Rightarrow> rat \<Rightarrow> endpoint \<Rightarrow> endpoint \<Rightarrow> ref list \<Rightarrow> ref list \<Rightarrow> bool \<Rightarrow> event" where
  "new_switch_event acts reason sustained from to cms deps dry_run =
     \<lparr>ev_event = ''switch_required'', ev_sent_at = [], ev_attempt = 0, ev_reason = reason,
      ev_sustained_down_s = sustained, ev_from = from, ev_to = to,
      ev_configmaps = (if act_k8s acts then ref_strings cms else []),
      ev_deployments = (if act_k8s acts then ref_strings deps else []),
      ev_actuators = actuator_list acts, ev_dry_run = dry_run\<rparr>"

section \<open>The text of an actuation error\<close>

fun switch_error_text :: "switch_error \<Rightarrow> gostring" where
  "switch_error_text NoConfigMapConfigured = ''no connstring configmap configured: nothing to switch''"
| "switch_error_text (GetConfigMapFailed r e) = ''get configmap '' @ ref_string r @ '': '' @ e"
| "switch_error_text (UpdateConfigMapFailed r e) = ''update configmap '' @ ref_string r @ '': '' @ e"
| "switch_error_text (GetDeploymentFailed r e) = ''get deployment '' @ ref_string r @ '': '' @ e"
| "switch_error_text (RollDeploymentFailed r e) = ''roll deployment '' @ ref_string r @ '': '' @ e"

definition joined_text :: "switch_error list \<Rightarrow> gostring" where
  "joined_text es = join [CHR 0x0A] (map switch_error_text es)"

section \<open>One switch decision\<close>

type_synonym 'w act_fn = "'w proc \<Rightarrow> (bool \<times> switch_error list option) \<times> 'w proc"
type_synonym 'w notify_fn = "event \<Rightarrow> 'w proc \<Rightarrow> gostring option \<times> 'w proc"

text \<open>The enabled paths; a path that is off is \<open>None\<close>, the nil interface of the code.\<close>

record 'w switch_deps =
  sd_act :: "'w act_fn option"
  sd_notifier :: "'w notify_fn option"

record switch_info =
  si_from :: gostring
  si_to :: gostring
  si_secondary_conn :: gostring
  si_primary_nodes :: gostring

text \<open>A gauge set to the current Unix time.\<close>

definition set_now :: "('w \<Rightarrow> instant \<times> 'w) \<Rightarrow> series \<Rightarrow> 'w proc \<Rightarrow> 'w proc" where
  "set_now now s p =
     (case outside now p of (t, p') \<Rightarrow> metric (SetGauge s (of_int (unix_seconds t))) p')"

text \<open>The actuator's part: whether it allows the latch, and whether it moved the applications.\<close>

definition run_actuator ::
  "('w \<Rightarrow> instant \<times> 'w) \<Rightarrow> 'w act_fn option \<Rightarrow> switch_info \<Rightarrow> 'w proc \<Rightarrow> (bool \<times> bool) \<times> 'w proc" where
  "run_actuator now act info p =
     (case act of
        None \<Rightarrow> ((True, False), p)
      | Some switch \<Rightarrow>
          (case switch p of
             ((_, Some es), p1) \<Rightarrow>
               ((False, False),
                log_event LevelError ''actuation_error'' [(''err'', AStr (joined_text es))]
                  (metric (IncCounter FailoverErrors) p1))
           | ((True, None), p1) \<Rightarrow>
               ((True, True),
                log_event LevelInfo ''switched''
                  [(''from'', AStr (si_from info)), (''to'', AStr (si_to info)),
                   (''secondary_conn'', AStr (si_secondary_conn info)), (''primary_nodes'', AStr (si_primary_nodes info))]
                  (set_now now LastActuationSuccess (metric (IncCounter FailoverTotal) p1)))
           | ((False, None), p1) \<Rightarrow>
               ((True, True), log_event LevelInfo ''switch_noop'' [(''active_region'', AStr (si_to info))] p1)))"

definition run_notifier ::
  "('w \<Rightarrow> instant \<times> 'w) \<Rightarrow> 'w switch_deps \<Rightarrow> switch_info \<Rightarrow> event \<Rightarrow> bool \<times> bool \<Rightarrow> 'w proc \<Rightarrow> bool \<times> 'w proc" where
  "run_notifier now d info ev state p =
     (case state of (latch, moved) \<Rightarrow>
        case sd_notifier d of
          None \<Rightarrow> (latch, p)
        | Some notify \<Rightarrow>
            (case notify ev p of
               (Some err, p1) \<Rightarrow>
                 (let p2 = metric (IncCounter (WebhookTotal ''error'')) p1
                  in if sd_act d = None then (False, p2)
                     else if moved then
                       (latch, log_event LevelWarn ''webhook_dropped''
                          [(''active_region'', AStr (si_to info)), (''err'', AStr err)] p2)
                     else (latch, p2))
             | (None, p1) \<Rightarrow>
                 (latch, set_now now WebhookLastSuccess (metric (IncCounter (WebhookTotal ''ok'')) p1))))"

definition run_switch ::
  "('w \<Rightarrow> instant \<times> 'w) \<Rightarrow> 'w switch_deps \<Rightarrow> switch_info \<Rightarrow> event \<Rightarrow> 'w proc \<Rightarrow> bool \<times> 'w proc" where
  "run_switch now d info ev p =
     (case run_actuator now (sd_act d) info p of (state, p1) \<Rightarrow> run_notifier now d info ev state p1)"

section \<open>Facts\<close>

lemma set_now_frame [simp]:
  "logs (set_now now s p) = logs p" "world (set_now now s p) = snd (now (world p))"
  by (simp_all add: set_now_def outside_def split: prod.split)

lemma run_switch_eq:
  "run_switch now d info ev p =
     run_notifier now d info ev (fst (run_actuator now (sd_act d) info p)) (snd (run_actuator now (sd_act d) info p))"
  by (simp add: run_switch_def split: prod.split)

lemma run_actuator_cases:
  assumes "run_actuator now act info p = ((latch, moved), p')"
  obtains
    (off) "act = None" "latch" "\<not> moved" "p' = p"
  | (failed) switch sw es p1 where "act = Some switch" "switch p = ((sw, Some es), p1)" "\<not> latch" "\<not> moved"
      "p' = log_event LevelError ''actuation_error'' [(''err'', AStr (joined_text es))]
              (metric (IncCounter FailoverErrors) p1)"
  | (switched) switch p1 where "act = Some switch" "switch p = ((True, None), p1)" "latch" "moved"
      "p' = log_event LevelInfo ''switched''
              [(''from'', AStr (si_from info)), (''to'', AStr (si_to info)),
               (''secondary_conn'', AStr (si_secondary_conn info)), (''primary_nodes'', AStr (si_primary_nodes info))]
              (set_now now LastActuationSuccess (metric (IncCounter FailoverTotal) p1))"
  | (noop) switch p1 where "act = Some switch" "switch p = ((False, None), p1)" "latch" "moved"
      "p' = log_event LevelInfo ''switch_noop'' [(''active_region'', AStr (si_to info))] p1"
proof (cases act)
  case None
  then show thesis using assms by (intro off) (auto simp: run_actuator_def)
next
  case (Some switch)
  obtain sw err p1 where s: "switch p = ((sw, err), p1)" by (metis prod.collapse)
  show thesis
  proof (cases err)
    case None
    show ?thesis
    proof (cases sw)
      case True
      with None Some s assms show ?thesis by (intro switched[of switch p1]) (auto simp: run_actuator_def)
    next
      case False
      with None Some s assms show ?thesis by (intro noop[of switch p1]) (auto simp: run_actuator_def)
    qed
  next
    case (Some es)
    with \<open>act = Some switch\<close> s assms show ?thesis
      by (intro failed[of switch sw es p1]) (auto simp: run_actuator_def split: bool.splits)
  qed
qed

lemma run_notifier_latch:
  "fst (run_notifier now d info ev (latch, moved) p) =
     (latch \<and> (sd_act d = None \<longrightarrow> (case sd_notifier d of None \<Rightarrow> True | Some notify \<Rightarrow> fst (notify ev p) = None)))"
  by (auto simp: run_notifier_def Let_def split: option.split prod.split)

lemma run_switch_latch:
  "fst (run_switch now d info ev p) =
     (case sd_act d of
        Some switch \<Rightarrow> snd (fst (switch p)) = None
      | None \<Rightarrow> (case sd_notifier d of Some notify \<Rightarrow> fst (notify ev p) = None | None \<Rightarrow> True))"
proof -
  obtain latch moved p1 where a: "run_actuator now (sd_act d) info p = ((latch, moved), p1)"
    by (metis prod.collapse)
  then have r: "fst (run_switch now d info ev p) = fst (run_notifier now d info ev (latch, moved) p1)"
    by (simp add: run_switch_def)
  from a show ?thesis unfolding r run_notifier_latch
    by (cases rule: run_actuator_cases) (auto split: option.splits)
qed

text \<open>The notifier and the clock leave the cluster's objects alone.\<close>

definition leaves_cluster ::
  "('w \<Rightarrow> obj_key \<Rightarrow> configmap option) \<Rightarrow> ('w \<Rightarrow> obj_key \<Rightarrow> deployment option) \<Rightarrow> ('w \<Rightarrow> 'w) \<Rightarrow> bool" where
  "leaves_cluster cms deps f \<longleftrightarrow> (\<forall>w. cms (f w) = cms w \<and> deps (f w) = deps w)"

definition notify_leaves_cluster ::
  "('w \<Rightarrow> obj_key \<Rightarrow> configmap option) \<Rightarrow> ('w \<Rightarrow> obj_key \<Rightarrow> deployment option) \<Rightarrow> 'w notify_fn option \<Rightarrow> bool" where
  "notify_leaves_cluster cms deps n \<longleftrightarrow>
     (\<forall>notify ev p. n = Some notify \<longrightarrow>
        cms (world (snd (notify ev p))) = cms (world p) \<and> deps (world (snd (notify ev p))) = deps (world p))"

lemma run_notifier_cluster:
  assumes "leaves_cluster cms deps (\<lambda>w. snd (now w))" "notify_leaves_cluster cms deps (sd_notifier d)"
  shows "cms (world (snd (run_notifier now d info ev state p))) = cms (world p) \<and>
     deps (world (snd (run_notifier now d info ev state p))) = deps (world p)"
proof (cases "sd_notifier d")
  case None
  then show ?thesis by (simp add: run_notifier_def split: prod.split)
next
  case (Some notify)
  obtain err p1 where n: "notify ev p = (err, p1)" by force
  then have p1: "cms (world p1) = cms (world p)" "deps (world p1) = deps (world p)"
    using assms(2) Some unfolding notify_leaves_cluster_def by (metis snd_conv)+
  have clock: "cms (snd (now w)) = cms w" "deps (snd (now w)) = deps w" for w
    using assms(1) by (simp_all add: leaves_cluster_def)
  obtain latch moved where state: "state = (latch, moved)" by force
  show ?thesis
    by (cases err) (simp_all add: run_notifier_def Let_def Some n p1 clock state)
qed

lemma run_actuator_cluster:
  assumes "leaves_cluster cms deps (\<lambda>w. snd (now w))" "act = Some switch"
  shows "cms (world (snd (run_actuator now act info p))) = cms (world (snd (switch p))) \<and>
     deps (world (snd (run_actuator now act info p))) = deps (world (snd (switch p)))"
proof -
  obtain latch moved p' where a: "run_actuator now act info p = ((latch, moved), p')" by (metis prod.collapse)
  have clock: "cms (snd (now w)) = cms w" "deps (snd (now w)) = deps w" for w
    using assms(1) by (simp_all add: leaves_cluster_def)
  from a have "cms (world p') = cms (world (snd (switch p))) \<and> deps (world p') = deps (world (snd (switch p)))"
    by (cases rule: run_actuator_cases) (simp_all add: assms(2) clock)
  then show ?thesis by (simp add: a)
qed

lemma run_switch_cluster:
  assumes "leaves_cluster cms deps (\<lambda>w. snd (now w))" "notify_leaves_cluster cms deps (sd_notifier d)"
  shows "(cms (world (snd (run_switch now d info ev p))), deps (world (snd (run_switch now d info ev p)))) =
     (case sd_act d of None \<Rightarrow> (cms (world p), deps (world p))
      | Some switch \<Rightarrow> (cms (world (snd (switch p))), deps (world (snd (switch p)))))"
  using run_notifier_cluster[OF assms, of info ev] run_actuator_cluster[OF assms(1), of "sd_act d" _ info p]
  by (auto simp: run_switch_eq run_actuator_def split: option.split)

lemma run_switch_moved:
  assumes "leaves_cluster cms deps (\<lambda>w. snd (now w))" and "notify_leaves_cluster cms deps (sd_notifier d)"
    and "fst (run_switch now d info ev p)"
  shows "(sd_act d = Some (\<lambda>p. k8s_switch api cfg (stamp p) p) \<and> api_documented api cms deps \<and> \<not> cfg_dry_run cfg \<longrightarrow>
       all_moved cfg (cms (world (snd (run_switch now d info ev p)))) (deps (world (snd (run_switch now d info ev p))))) \<and>
     (sd_act d = None \<and> sd_notifier d = Some (http_notify sf henv h) \<longrightarrow>
       http_delivered sf henv h ev (snd (http_notify sf henv h ev p)))"
proof (intro conjI impI)
  assume k: "sd_act d = Some (\<lambda>p. k8s_switch api cfg (stamp p) p) \<and> api_documented api cms deps \<and> \<not> cfg_dry_run cfg"
  then have "snd (fst (k8s_switch api cfg (stamp p) p)) = None"
    using assms(3) unfolding run_switch_latch by simp
  then have "k8s_moved api cms deps cfg (snd (k8s_switch api cfg (stamp p) p))"
    using k8s.nil_error_moved[of api cfg "stamp p" p "fst (fst (k8s_switch api cfg (stamp p) p))"] by (metis prod.collapse)
  then have moved: "all_moved cfg (cms (world (snd (k8s_switch api cfg (stamp p) p)))) (deps (world (snd (k8s_switch api cfg (stamp p) p))))"
    using k by (simp add: k8s_moved_def)
  have "cms (world (snd (run_switch now d info ev p))) = cms (world (snd (k8s_switch api cfg (stamp p) p))) \<and>
      deps (world (snd (run_switch now d info ev p))) = deps (world (snd (k8s_switch api cfg (stamp p) p)))"
    using run_actuator_cluster[OF assms(1) k[THEN conjunct1], of info p]
      run_notifier_cluster[OF assms(1,2), of info ev]
    unfolding run_switch_eq by simp
  with moved show "all_moved cfg (cms (world (snd (run_switch now d info ev p))))
      (deps (world (snd (run_switch now d info ev p))))" by simp
next
  assume h: "sd_act d = None \<and> sd_notifier d = Some (http_notify sf henv h)"
  then have "fst (http_notify sf henv h ev p) = None"
    using assms(3) unfolding run_switch_latch by simp
  then show "http_delivered sf henv h ev (snd (http_notify sf henv h ev p))"
    using hook.undelivered_is_error by blast
qed

section \<open>Properties\<close>

text \<open>
  C23: When the latch closes. With the Kubernetes actuator enabled it follows that actuator's error
  alone, whatever the webhook does; without it, it follows the webhook's error; with neither it
  closes.
\<close>

theorem run_switch_latch_exact:
  "fst (run_switch now d info ev p) =
     (case sd_act d of
        Some switch \<Rightarrow> snd (fst (switch p)) = None
      | None \<Rightarrow> (case sd_notifier d of Some notify \<Rightarrow> fst (notify ev p) = None | None \<Rightarrow> True))"
  by (rule run_switch_latch)

text \<open>
  A closed latch means the applications moved. With the Kubernetes actuator on, outside
  dry-run, a switch decision that latches leaves every ConfigMap target on the secondary and every
  Deployment target stamped; with the webhook alone, it has delivered the event.
\<close>

theorem latch_means_moved:
  assumes "leaves_cluster cms deps (\<lambda>w. snd (now w))" and "notify_leaves_cluster cms deps (sd_notifier d)"
    and "fst (run_switch now d info ev p)"
  shows "(sd_act d = Some (\<lambda>p. k8s_switch api cfg (stamp p) p) \<and> api_documented api cms deps \<and> \<not> cfg_dry_run cfg \<longrightarrow>
       all_moved cfg (cms (world (snd (run_switch now d info ev p)))) (deps (world (snd (run_switch now d info ev p))))) \<and>
     (sd_act d = None \<and> sd_notifier d = Some (http_notify sf henv h) \<longrightarrow>
       http_delivered sf henv h ev (snd (http_notify sf henv h ev p)))"
  using assms by (rule run_switch_moved)

theorem latch_means_moved_witness:
  "\<exists>p'. run_switch (\<lambda>w. (0, w)) \<lparr>sd_act = Some (k8s_switch mem_api (app_config False) ''t''), sd_notifier = None\<rparr>
       \<lparr>si_from = [], si_to = [], si_secondary_conn = [], si_primary_nodes = []\<rparr> ev (idle (app_mem ''main'' [] [])) = (True, p') \<and>
     all_moved (app_config False) (mem_cms (world p')) (mem_deps (world p'))"
proof -
  let ?d = "\<lparr>sd_act = Some (k8s_switch mem_api (app_config False) ''t''), sd_notifier = None\<rparr>"
  let ?i = "\<lparr>si_from = [], si_to = [], si_secondary_conn = [], si_primary_nodes = []\<rparr>"
  let ?r = "run_switch (\<lambda>w. (0, w)) ?d ?i ev (idle (app_mem ''main'' [] []))"
  have latch: "fst ?r" by (simp add: run_switch_latch app_switch)
  have "leaves_cluster mem_cms mem_deps (\<lambda>w. snd ((0::instant, w)))" "notify_leaves_cluster mem_cms mem_deps (sd_notifier ?d)"
    by (simp_all add: leaves_cluster_def notify_leaves_cluster_def)
  from latch_means_moved[OF this latch, of mem_api "app_config False" "\<lambda>_. ''t''"] mem_api_documented
  have "all_moved (app_config False) (mem_cms (world (snd ?r))) (mem_deps (world (snd ?r)))"
    by (simp add: app_config_def)
  with latch show ?thesis by (metis prod.collapse)
qed

text \<open>
  The payload never names Kubernetes targets of a switch that has none: the ConfigMaps and
  Deployments are those of the actuator, as \<open>ns/name\<close>, exactly when it is enabled, and the
  actuators listed are the enabled ones.
\<close>

theorem switch_event_targets:
  "ev_configmaps (new_switch_event acts r s from to cms deps dry) = (if act_k8s acts then map ref_string cms else []) \<and>
   ev_deployments (new_switch_event acts r s from to cms deps dry) = (if act_k8s acts then map ref_string deps else []) \<and>
   (''k8s'' \<in> set (ev_actuators (new_switch_event acts r s from to cms deps dry)) \<longleftrightarrow> act_k8s acts) \<and>
   (''webhook'' \<in> set (ev_actuators (new_switch_event acts r s from to cms deps dry)) \<longleftrightarrow> act_webhook acts)"
  by (auto simp: new_switch_event_def ref_strings_def actuator_list_def)

end
