(* ===== verification/Self_Probes.thy ===== *)
theory Self_Probes
  imports Effects
begin

text \<open>
  \<open>pkg/probes\<close>: the heartbeat of the poll loop, the liveness and the readiness handlers. A heartbeat
  is the Unix time in nanoseconds of the last tick, 0 before the first; observe-only mode has none.
\<close>

type_synonym heartbeat = int

definition tick_at :: "instant \<Rightarrow> heartbeat" where
  "tick_at t = wrap64 t"

definition ticked :: "heartbeat \<Rightarrow> bool" where
  "ticked h \<longleftrightarrow> h \<noteq> 0"

definition heartbeat_age :: "instant \<Rightarrow> heartbeat \<Rightarrow> duration" where
  "heartbeat_age now h = time_sub now h"

text \<open>The status codes; readiness also answers with the text of the error.\<close>

definition liveness :: "heartbeat option \<Rightarrow> duration \<Rightarrow> instant \<Rightarrow> nat" where
  "liveness hb max_age now =
     (case hb of
        None \<Rightarrow> 200
      | Some h \<Rightarrow> if \<not> ticked h then 200 else if max_age < heartbeat_age now h then 503 else 200)"

definition readiness :: "gostring option \<Rightarrow> nat \<times> gostring" where
  "readiness check = (case check of Some e \<Rightarrow> (503, e) | None \<Rightarrow> (200, []))"

text \<open>The check \<open>main\<close> wires: an evaluation has completed and, with the k8s actuator, the API answers.\<close>

definition ready_check :: "bool \<Rightarrow> bool \<Rightarrow> gostring option \<Rightarrow> gostring option" where
  "ready_check first_eval k8s api_error =
     (if \<not> first_eval then Some ''no health evaluation completed yet''
      else if k8s then map_option (\<lambda>e. ''k8s API unreachable: '' @ e) api_error
      else None)"

text \<open>
  Liveness fails for a stalled loop only. With clock readings that fit 64 bits, the handler
  answers 503 exactly when a loop exists, has ticked, and ticked last more than the allowed age ago.
\<close>

theorem liveness_exact:
  assumes "is_duration t" and "is_duration (now - t)" and "t \<noteq> 0" and "is_duration max_age"
  shows "(liveness (Some (tick_at t)) max_age now = 503 \<longleftrightarrow> max_age < now - t) \<and>
     liveness None max_age now = 200 \<and> liveness (Some 0) max_age now = 200"
  using assms by (simp add: liveness_def ticked_def tick_at_def heartbeat_age_def time_sub_def wrap64_id sat64_id)

theorem liveness_exact_witness:
  "liveness (Some (tick_at (5 * second))) (15 * second) (21 * second) = 503 \<and>
   liveness (Some (tick_at (5 * second))) (15 * second) (20 * second) = 200"
  using liveness_exact[of "5 * second" "21 * second" "15 * second"] liveness_exact[of "5 * second" "20 * second" "15 * second"]
  by (simp add: second_def is_duration_def min_duration_def max_duration_def liveness_def split: if_splits)

end
