(* ===== verification/Poll_Loop.thy ===== *)
theory Poll_Loop
  imports Node_View Failover_State Probers Run_Switch Self_Probes
begin

text \<open>
  The poll loop of \<open>cmd/svchealthcheck/main.go\<close>: the startup of an active observer, with the
  reconcile that adopts an earlier switch, and one tick. The locals of \<open>main\<close> are one record, the
  services it calls an environment over the world. Between ticks anything outside may happen.
\<close>

section \<open>Configuration and environment\<close>

record loop_config =
  lc_conn :: gostring
  lc_secondary :: gostring
  lc_critical :: "gostring list"
  lc_config_key :: gostring
  lc_cm_refs :: "ref list"
  lc_dep_refs :: "ref list"
  lc_dry_run :: bool
  lc_failover_delay :: duration
  lc_acts :: actuators
  lc_webhook :: http_notifier
  lc_webhook_client :: http_client

text \<open>The targets, which are parsed only when the Kubernetes actuator is on.\<close>

definition cm_targets :: "loop_config \<Rightarrow> ref list" where
  "cm_targets cfg = (if act_k8s (lc_acts cfg) then lc_cm_refs cfg else [])"

definition dep_targets :: "loop_config \<Rightarrow> ref list" where
  "dep_targets cfg = (if act_k8s (lc_acts cfg) then lc_dep_refs cfg else [])"

text \<open>
  The clock, the primary's prober, what connecting to the secondary gave, the Kubernetes API, the
  timestamp its stamps take, the HTTP client, and the text of floats in the payload.
\<close>

record ('w, 'e) loop_env =
  en_now :: "'w \<Rightarrow> instant \<times> 'w"
  en_primary :: "('w, 'e) gocb_prober"
  en_connect :: "gostring + ('w, 'e) gocb_prober"
  en_api :: "'w k8s_api"
  en_stamp :: "'w \<Rightarrow> gostring"
  en_http :: "'w http_env"
  en_float :: "rat \<Rightarrow> gostring"

text \<open>The target of the probes is \<open>None\<close> for the nil prober, whose \<open>Probe\<close> panics.\<close>

record ('w, 'e) observer =
  ob_machine :: machine
  ob_active :: "('w, 'e) gocb_prober option active_prober"
  ob_role :: gostring
  ob_disp :: gostring
  ob_region :: gostring
  ob_last_status :: gostring
  ob_last_hosts :: "gostring gomap_keys option"
  ob_heartbeat :: heartbeat
  ob_first_eval :: bool
  ob_proc :: "'w proc"

definition region_label :: "gostring \<Rightarrow> gostring" where
  "region_label conn = cluster_label conn"

definition primary_disp :: "loop_config \<Rightarrow> gostring" where
  "primary_disp cfg = ''primary ('' @ address_list (lc_conn cfg) @ '')''"

definition secondary_disp :: "loop_config \<Rightarrow> gostring" where
  "secondary_disp cfg = ''secondary ('' @ address_list (lc_secondary cfg) @ '')''"

definition ref_list :: "ref list \<Rightarrow> gostring" where
  "ref_list refs = join '' '' (map ref_string refs)"

definition secondary_ready :: "gostring \<Rightarrow> bool" where
  "secondary_ready status \<longleftrightarrow> status \<noteq> DOWN"

definition secondary_prober :: "('w, 'e) loop_env \<Rightarrow> loop_config \<Rightarrow> ('w, 'e) gocb_prober option" where
  "secondary_prober env cfg =
     (if lc_secondary cfg = [] then None else case en_connect env of Inl _ \<Rightarrow> None | Inr g \<Rightarrow> Some g)"

definition k8s_config :: "loop_config \<Rightarrow> actuator_config" where
  "k8s_config cfg = \<lparr>cfg_configmaps = lc_cm_refs cfg, cfg_key = lc_config_key cfg,
     cfg_deployments = lc_dep_refs cfg, cfg_secondary = lc_secondary cfg, cfg_dry_run = lc_dry_run cfg\<rparr>"

definition k8s_act :: "('w, 'e) loop_env \<Rightarrow> loop_config \<Rightarrow> 'w act_fn" where
  "k8s_act env cfg p = k8s_switch (en_api env) (k8s_config cfg) (en_stamp env (world p)) p"

text \<open>The notifier \<open>main\<close> assembles: the flags' dry-run, and the default backoff.\<close>

definition notifier_of :: "loop_config \<Rightarrow> http_notifier" where
  "notifier_of cfg = (lc_webhook cfg)\<lparr>hn_dry_run := lc_dry_run cfg, hn_backoff := None\<rparr>"

definition switch_deps_of :: "('w, 'e) loop_env \<Rightarrow> loop_config \<Rightarrow> 'w switch_deps" where
  "switch_deps_of env cfg =
     \<lparr>sd_act = (if act_k8s (lc_acts cfg) then Some (k8s_act env cfg) else None),
      sd_notifier = (if act_webhook (lc_acts cfg)
                     then Some (http_notify (en_float env) (en_http env) (notifier_of cfg)) else None)\<rparr>"

definition on_proc :: "('w proc \<Rightarrow> 'w proc) \<Rightarrow> ('w, 'e) observer \<Rightarrow> ('w, 'e) observer" where
  "on_proc f ob = ob\<lparr>ob_proc := f (ob_proc ob)\<rparr>"

definition read_clock :: "('w, 'e) loop_env \<Rightarrow> ('w, 'e) observer \<Rightarrow> instant \<times> ('w, 'e) observer" where
  "read_clock env ob = (case outside (en_now env) (ob_proc ob) of (t, p) \<Rightarrow> (t, ob\<lparr>ob_proc := p\<rparr>))"

section \<open>Startup\<close>

text \<open>
  \<open>reconcileAlreadySwitched\<close>: whether every ConfigMap is on the secondary, and those that are not. A
  failed read is printed with \<open>log.Printf\<close>, which the default logger carries at INFO.
\<close>

fun stale_refs :: "'w k8s_api \<Rightarrow> gostring \<Rightarrow> gostring \<Rightarrow> ref list \<Rightarrow> 'w proc \<Rightarrow> ref list \<times> 'w proc" where
  "stale_refs api key secondary [] p = ([], p)"
| "stale_refs api key secondary (r # rs) p =
     (case outside (get_cm api (ref_namespace r) (ref_name r)) p of
        (Inl e, p1) \<Rightarrow>
          (case stale_refs api key secondary rs
                  (log_event LevelInfo (''startup configmap read failed for '' @ ref_string r @
                     '' (assuming not switched): '' @ e) [] p1) of
             (stale, p2) \<Rightarrow> (r # stale, p2))
      | (Inr cm, p1) \<Rightarrow>
          (case stale_refs api key secondary rs p1 of
             (stale, p2) \<Rightarrow> ((if key_of (cm_data cm) key \<noteq> secondary then r # stale else stale), p2)))"

definition reconcile_already_switched ::
  "'w k8s_api \<Rightarrow> ref list \<Rightarrow> gostring \<Rightarrow> gostring \<Rightarrow> 'w proc \<Rightarrow> (bool \<times> ref list) \<times> 'w proc" where
  "reconcile_already_switched api refs key secondary p =
     (if secondary = [] \<or> refs = [] then ((False, []), p)
      else (case stale_refs api key secondary refs p of (stale, p') \<Rightarrow> ((stale = [], stale), p')))"

text \<open>The Kubernetes part of the startup: the warning about unpaired namespaces and the reconcile.\<close>

definition start_k8s :: "('w, 'e) loop_env \<Rightarrow> loop_config \<Rightarrow> 'w proc \<Rightarrow> bool \<times> 'w proc" where
  "start_k8s env cfg p =
     (if \<not> act_k8s (lc_acts cfg) then (False, p)
      else
        (let unpaired = unpaired_namespaces (lc_cm_refs cfg) (lc_dep_refs cfg);
             p1 = (if unpaired \<noteq> [] then
                     log_event LevelWarn ''target_namespace_unpaired''
                       [(''namespaces'', AStr (join '' '' unpaired)), (''count'', AInt (int (length unpaired)))] p
                   else p)
         in case reconcile_already_switched (en_api env) (lc_cm_refs cfg) (lc_config_key cfg) (lc_secondary cfg) p1 of
              ((switched, stale), p2) \<Rightarrow>
                (switched,
                 if switched then log_event LevelInfo ''adopt_switched'' [(''secondary'', AStr (secondary_disp cfg))] p2
                 else if stale \<noteq> [] \<and> length stale < length (lc_cm_refs cfg) then
                   log_event LevelWarn ''adopt_mixed''
                     [(''pending'', AStr (ref_list stale)), (''pending_count'', AInt (int (length stale))),
                      (''total'', AInt (int (length (lc_cm_refs cfg)))), (''secondary'', AStr (secondary_disp cfg))] p2
                 else p2)))"

definition follow_secondary :: "('w, 'e) loop_env \<Rightarrow> loop_config \<Rightarrow> ('w, 'e) observer \<Rightarrow> ('w, 'e) observer" where
  "follow_secondary env cfg ob =
     on_proc (log_event LevelInfo ''probe_target'' [(''target'', AStr (secondary_disp cfg))])
       (ob\<lparr>ob_role := ''secondary'', ob_disp := secondary_disp cfg, ob_region := region_label (lc_secondary cfg),
           ob_active := active_set (secondary_prober env cfg) (ob_active ob), ob_last_hosts := None\<rparr>)"

text \<open>The lines about the configuration, the active region and a failed connection to the secondary.\<close>

definition announce :: "('w, 'e) loop_env \<Rightarrow> loop_config \<Rightarrow> bool \<Rightarrow> 'w proc \<Rightarrow> 'w proc" where
  "announce env cfg switched p =
     (let p1 = log_event LevelInfo ''clusters''
                 [(''primary'', AStr (address_list (lc_conn cfg))), (''secondary'', AStr (address_list (lc_secondary cfg)))] p;
          p2 = log_event LevelInfo ''active_config''
                 [(''failover_delay'', ADur (lc_failover_delay cfg)), (''configmaps'', AStr (ref_list (cm_targets cfg))),
                  (''deployments'', AStr (ref_list (dep_targets cfg))), (''dry_run'', ABool (lc_dry_run cfg)),
                  (''already_switched'', ABool switched), (''actuators'', AStr (join '','' (actuator_list (lc_acts cfg))))] p1;
          p3 = metric (SetGauge (ActiveRegion (region_label (if switched then lc_secondary cfg else lc_conn cfg))) 1) p2
      in if lc_secondary cfg \<noteq> [] then
           (case en_connect env of
              Inl e \<Rightarrow> log_event LevelWarn ''secondary_connect_failed'' [(''err'', AStr e)] p3
            | Inr _ \<Rightarrow> p3)
         else p3)"

definition announce_webhook :: "loop_config \<Rightarrow> 'w proc \<Rightarrow> 'w proc" where
  "announce_webhook cfg p =
     (if \<not> act_webhook (lc_acts cfg) then p
      else
        (let h = lc_webhook cfg; c = lc_webhook_client cfg; insecure = (hc_trust c = Unchecked);
             p1 = (if insecure then log_event LevelWarn ''webhook_insecure'' [(''url'', AStr (redact_url (hn_url h)))] p else p)
         in log_event LevelInfo ''webhook_target''
              [(''url'', AStr (redact_url (hn_url h))), (''auth'', AStr (auth_summary (hn_user h) (hn_headers h))),
               (''verify'', AStr (if insecure then ''OFF'' else ''on'')), (''timeout'', ADur (hc_timeout c)),
               (''retries'', AInt (hn_retries h))] p1))"

definition start_loop :: "('w, 'e) loop_env \<Rightarrow> loop_config \<Rightarrow> 'w proc \<Rightarrow> ('w, 'e) observer" where
  "start_loop env cfg p =
     (case start_k8s env cfg p of (switched, p1) \<Rightarrow>
        let ob = \<lparr>ob_machine = new_machine \<lparr>failover_delay = lc_failover_delay cfg, already_switched = switched\<rparr>,
                  ob_active = new_active_prober (Some (en_primary env)), ob_role = ''primary'',
                  ob_disp = primary_disp cfg, ob_region = region_label (lc_conn cfg), ob_last_status = [],
                  ob_last_hosts = None, ob_heartbeat = 0, ob_first_eval = False,
                  ob_proc = announce env cfg switched p1\<rparr>;
            ob1 = (if switched then
                     (if secondary_prober env cfg = None then
                        on_proc (log_event LevelWarn ''probe_target_unavailable''
                          [(''want'', AStr (secondary_disp cfg)), (''using'', AStr (primary_disp cfg))]) ob
                      else follow_secondary env cfg ob)
                   else ob)
        in on_proc (announce_webhook cfg) ob1)"

section \<open>One tick\<close>

text \<open>The verdict: probe, report, metrics and state machine.\<close>

definition service_gauge :: "gostring \<times> service_health \<Rightarrow> 'w proc \<Rightarrow> 'w proc" where
  "service_gauge kv p = metric (SetGauge (ServiceUp (fst kv)) (if sh_status (snd kv) = UP then 1 else 0)) p"

definition publish_verdict :: "('w, 'e) loop_env \<Rightarrow> gostring \<Rightarrow> report \<Rightarrow> 'w proc \<Rightarrow> 'w proc" where
  "publish_verdict env region rep p =
     foldl (\<lambda>p kv. service_gauge kv p)
       (metric (SetGauge (CouchbaseUp region) (if rep_status rep \<noteq> DOWN then 1 else 0))
         (set_now (en_now env) LoopLastTick p))
       (rep_services rep)"

definition tick_verdict ::
  "('w, 'e) loop_env \<Rightarrow> loop_config \<Rightarrow> ('w, 'e) gocb_prober \<Rightarrow> ('w, 'e) observer \<Rightarrow>
   (probe list \<times> report \<times> observe_result) \<times> ('w, 'e) observer" where
  "tick_verdict env cfg g ob =
     (case read_clock env ob of (t0, ob0) \<Rightarrow>
      case outside (gocb_probe g) (ob_proc ob0) of ((probes, _), p1) \<Rightarrow>
      case read_clock env (ob0\<lparr>ob_heartbeat := tick_at t0, ob_proc := p1\<rparr>) of (t1, ob1) \<Rightarrow>
        let rep = compute probes (lc_critical cfg) (rfc3339 t1);
            ob2 = on_proc (publish_verdict env (ob_region ob1) rep) (ob1\<lparr>ob_first_eval := True\<rparr>)
        in case read_clock env ob2 of (t2, ob3) \<Rightarrow>
           case observe t2 (rep_status rep) (ob_machine ob3) of (res, m) \<Rightarrow>
           case read_clock env (ob3\<lparr>ob_machine := m\<rparr>) of (t3, ob4) \<Rightarrow>
             ((probes, rep, res), on_proc (metric (SetGauge SustainedDownSeconds (down_seconds t3 m))) ob4))"

text \<open>The lines of a tick: the node detail, the changes of the cluster map, the countdown and the health.\<close>

definition host_line :: "gostring \<Rightarrow> int \<Rightarrow> gostring \<Rightarrow> gostring \<Rightarrow> 'w proc \<Rightarrow> 'w proc" where
  "host_line action level role h p =
     log_event level ''cluster_map_change'' [(''action'', AStr action), (''host'', AStr h), (''cluster'', AStr role)] p"

definition map_lines :: "gostring \<Rightarrow> gostring gomap_keys option \<Rightarrow> gostring gomap_keys \<Rightarrow> 'w proc \<Rightarrow> 'w proc" where
  "map_lines role before cur p =
     (let whole = log_event LevelInfo ''cluster_map'' [(''nodes'', AStr (sorted_hosts cur))]
      in case before of
           None \<Rightarrow> whole p
         | Some prev \<Rightarrow>
             (case diff_hosts prev cur of (added, removed) \<Rightarrow>
                let p1 = foldl (\<lambda>p h. host_line ''removed'' LevelWarn role h p) p removed;
                    p2 = foldl (\<lambda>p h. host_line ''added'' LevelInfo role h p) p1 added
                in if added @ removed \<noteq> [] then whole p2 else p2))"

definition tick_report ::
  "('w, 'e) loop_env \<Rightarrow> loop_config \<Rightarrow> probe list \<Rightarrow> report \<Rightarrow> observe_result \<Rightarrow> ('w, 'e) observer \<Rightarrow> ('w, 'e) observer" where
  "tick_report env cfg probes rep res ob =
     (let nodes = by_node probes; cur = host_set probes; changed = rep_status rep \<noteq> ob_last_status ob;
          ob1 = on_proc (\<lambda>p.
            map_lines (ob_role ob) (ob_last_hosts ob) cur
              (log_event LevelTrace ''cluster_nodes''
                 [(''region'', AStr (ob_role ob)), (''nodes'', AStr (render_nodes nodes))]
                 (log_event LevelDebug ''cluster_detail''
                    [(''listening'', AStr (ob_role ob)), (''primary_conn'', AStr (lc_conn cfg)),
                     (''secondary_conn'', AStr (lc_secondary cfg)),
                     (''nodes'', AStr (case node_summary nodes of (healthy, n) \<Rightarrow> show_nat healthy @ ''/'' @ show_nat n))] p)))
            (ob\<lparr>ob_last_hosts := Some cur\<rparr>);
          ob2 = (if rep_status rep = DOWN \<and> changed \<and> \<not> m_switched (ob_machine ob1)
                 then on_proc (log_event LevelInfo ''failover_countdown_start''
                        [(''delay'', ADur (lc_failover_delay cfg)), (''secondary'', AStr (secondary_disp cfg)),
                         (''active_region'', AStr (ob_disp ob1))]) ob1
                 else ob1)
      in case read_clock env ob2 of (t, ob3) \<Rightarrow>
           on_proc (log_event (health_level changed) ''health''
             [(''status'', AStr (rep_status rep)), (''reason'', AStr (rep_reason rep)),
              (''switch_required'', ABool (res_switch_required res)), (''switched'', ABool (m_switched (ob_machine ob3))),
              (''active_region'', AStr (ob_role ob3)), (''sustained_down_s'', AFloat (down_seconds t (ob_machine ob3)))])
             (ob3\<lparr>ob_last_status := rep_status rep\<rparr>))"

text \<open>The secondary's status at a switch decision: \<open>DOWN\<close> when it cannot be probed at all.\<close>

definition secondary_status ::
  "('w, 'e) loop_env \<Rightarrow> loop_config \<Rightarrow> ('w, 'e) observer \<Rightarrow> gostring \<times> ('w, 'e) observer" where
  "secondary_status env cfg ob =
     (case secondary_prober env cfg of
        None \<Rightarrow> (DOWN, ob)
      | Some g \<Rightarrow>
          (case outside (gocb_probe g) (ob_proc ob) of ((probes, _), p1) \<Rightarrow>
           case read_clock env (ob\<lparr>ob_proc := p1\<rparr>) of (t, ob1) \<Rightarrow>
             (rep_status (compute probes (lc_critical cfg) (rfc3339 t)), ob1)))"

text \<open>After a switch decision that latches.\<close>

definition latch_switch :: "('w, 'e) loop_env \<Rightarrow> loop_config \<Rightarrow> ('w, 'e) observer \<Rightarrow> ('w, 'e) observer" where
  "latch_switch env cfg ob =
     (let ob1 = on_proc (\<lambda>p.
            metric (SetGauge (ActiveRegion (region_label (lc_secondary cfg))) 1)
              (metric (SetGauge (ActiveRegion (region_label (lc_conn cfg))) 0) p))
            (ob\<lparr>ob_machine := mark_switched (ob_machine ob)\<rparr>)
      in if lc_dry_run cfg then
           on_proc (log_event LevelInfo ''probe_target_held''
             [(''reason'', AStr ''dry_run''), (''using'', AStr (primary_disp cfg))]) ob1
         else
           follow_secondary env cfg
             (on_proc (metric (DeleteSeries (CouchbaseUp (region_label (lc_conn cfg))))) ob1))"

text \<open>What a switch decision hands to \<open>runSwitch\<close>.\<close>

definition decision_event :: "loop_config \<Rightarrow> report \<Rightarrow> gostring \<Rightarrow> gostring \<Rightarrow> rat \<Rightarrow> event" where
  "decision_event cfg rep hosts sec_status down =
     new_switch_event (lc_acts cfg) (rep_reason rep) down
       \<lparr>ep_role = ''primary'', ep_conn = lc_conn cfg, ep_label = region_label (lc_conn cfg),
        ep_nodes = words_of hosts, ep_status = []\<rparr>
       \<lparr>ep_role = ''secondary'', ep_conn = lc_secondary cfg, ep_label = region_label (lc_secondary cfg),
        ep_nodes = [], ep_status = sec_status\<rparr>
       (cm_targets cfg) (dep_targets cfg) (lc_dry_run cfg)"

definition decision_info :: "loop_config \<Rightarrow> gostring \<Rightarrow> switch_info" where
  "decision_info cfg hosts =
     \<lparr>si_from = primary_disp cfg, si_to = secondary_disp cfg, si_secondary_conn = lc_secondary cfg,
      si_primary_nodes = hosts\<rparr>"

definition tick_switch ::
  "('w, 'e) loop_env \<Rightarrow> loop_config \<Rightarrow> probe list \<Rightarrow> report \<Rightarrow> observe_result \<Rightarrow> ('w, 'e) observer \<Rightarrow> ('w, 'e) observer" where
  "tick_switch env cfg probes rep res ob =
     (if \<not> res_switch_required res then ob
      else if lc_secondary cfg = [] then
        on_proc (log_event LevelWarn ''switch_skipped'' [(''reason'', AStr ''secondary_conn_empty'')]) ob
      else
        (case secondary_status env cfg ob of (sec_status, ob1) \<Rightarrow>
           let ob2 = on_proc (metric (SetGauge SecondaryUp (if secondary_ready sec_status then 1 else 0))) ob1
           in if \<not> secondary_ready sec_status then
                on_proc (log_event LevelWarn ''switch_held''
                  [(''reason'', AStr ''secondary_not_ready''), (''secondary_status'', AStr sec_status)]) ob2
              else
                (case read_clock env (on_proc (log_event LevelInfo ''switch_required''
                        [(''active_region'', AStr (ob_disp ob2)), (''secondary'', AStr (secondary_disp cfg))]) ob2) of
                   (t, ob3) \<Rightarrow>
                     let hosts = sorted_hosts (host_set probes);
                         ev = decision_event cfg rep hosts sec_status (down_seconds t (ob_machine ob3));
                         info = decision_info cfg hosts
                     in case run_switch (en_now env) (switch_deps_of env cfg) info ev (ob_proc ob3) of
                          (latch, p) \<Rightarrow>
                            if latch then latch_switch env cfg (ob3\<lparr>ob_proc := p\<rparr>) else ob3\<lparr>ob_proc := p\<rparr>)))"

text \<open>A whole tick; \<open>None\<close> is the panic of a nil probe target.\<close>

definition tick :: "('w, 'e) loop_env \<Rightarrow> loop_config \<Rightarrow> ('w, 'e) observer \<Rightarrow> ('w, 'e) observer option" where
  "tick env cfg ob =
     (case ap_target (ob_active ob) of
        None \<Rightarrow> None
      | Some g \<Rightarrow>
          (case tick_verdict env cfg g ob of ((probes, rep, res), ob1) \<Rightarrow>
             Some (tick_switch env cfg probes rep res (tick_report env cfg probes rep res ob1))))"

section \<open>Runs\<close>

text \<open>The world the process is in, replaced: what happens outside between two ticks.\<close>

definition in_world :: "'w \<Rightarrow> ('w, 'e) observer \<Rightarrow> ('w, 'e) observer" where
  "in_world w ob = on_proc (world_update (\<lambda>_. w)) ob"

text \<open>
  The process as \<open>main\<close> hands it to the loop: no metric is set yet, and the lines logged so far have
  a template, but for the one \<open>buildSecurityConfig\<close> prints.
\<close>

definition tls_warning :: "log_entry \<Rightarrow> bool" where
  "tls_warning e \<longleftrightarrow>
     has_prefix (le_event e) ''warning: --tls-skip-verify set; ignoring --tls-cert-path=''"

definition before_loop :: "'w proc \<Rightarrow> bool" where
  "before_loop p \<longleftrightarrow> metrics p = [] \<and> list_all (\<lambda>e. le_event e \<in> set known_events \<or> tls_warning e) (logs p)"

inductive reachable :: "('w, 'e) loop_env \<Rightarrow> loop_config \<Rightarrow> ('w, 'e) observer \<Rightarrow> bool"
  for env :: "('w, 'e) loop_env" and cfg :: loop_config where
  start: "before_loop p \<Longrightarrow> reachable env cfg (start_loop env cfg p)"
| tick: "reachable env cfg ob \<Longrightarrow> tick env cfg (in_world w ob) = Some ob' \<Longrightarrow> reachable env cfg ob'"

end
