(* ===== verification/Step_Frames.thy ===== *)
theory Step_Frames
  imports Human_Log Run_Switch
begin

text \<open>
  What the steps of a switch decision leave in the process: \<open>emits S p p'\<close> says that \<open>p'\<close> came from
  \<open>p\<close> by appending log records the human handler has a template for, and metric calls on series of
  \<open>S\<close>. The relation composes, so every operation inherits it from its parts. \<open>http_keeps\<close> says that
  a view of the world is none of the webhook's business.
\<close>

section \<open>Appending records and metric calls\<close>

definition rendered :: "log_entry \<Rightarrow> bool" where
  "rendered e \<longleftrightarrow> le_event e \<in> set known_events"

fun metric_series :: "metric_call \<Rightarrow> series" where
  "metric_series (SetGauge s v) = s"
| "metric_series (IncCounter s) = s"
| "metric_series (DeleteSeries s) = s"

definition emits :: "series set \<Rightarrow> 'w proc \<Rightarrow> 'w proc \<Rightarrow> bool" where
  "emits S p p' \<longleftrightarrow>
     (\<exists>ls. logs p' = logs p @ ls \<and> list_all rendered ls) \<and>
     (\<exists>ms. metrics p' = metrics p @ ms \<and> (\<forall>c \<in> set ms. metric_series c \<in> S))"

lemma emits_refl [simp, intro]: "emits S p p"
  by (simp add: emits_def)

lemma emits_trans [trans]: "emits S p q \<Longrightarrow> emits S q r \<Longrightarrow> emits S p r"
  unfolding emits_def by (fastforce simp: list_all_append)

lemma emits_mono: "emits S p q \<Longrightarrow> S \<subseteq> S' \<Longrightarrow> emits S' p q"
  unfolding emits_def by blast

lemma emits_outside: "outside f p = (x, q) \<Longrightarrow> emits S p q"
  by (auto simp: outside_eq emits_def)

lemma emits_log: "emits S p q \<Longrightarrow> ev \<in> set known_events \<Longrightarrow> emits S p (log_event l ev as q)"
  by (auto simp: emits_def rendered_def)

lemma emits_metric: "emits S p q \<Longrightarrow> metric_series c \<in> S \<Longrightarrow> emits S p (metric c q)"
  by (auto simp: emits_def)

lemma emits_step: "emits S p q \<Longrightarrow> outside f q = (x, r) \<Longrightarrow> emits S p r"
  by (blast intro: emits_trans emits_outside)

text \<open>A series outside the set shows what it showed.\<close>

lemma apply_metric_other: "metric_series c \<noteq> s \<Longrightarrow> apply_metric c m s = m s"
  by (cases c) auto

lemma shown_append:
  "\<forall>c \<in> set ms. metric_series c \<noteq> s \<Longrightarrow> shown (cs @ ms) s = shown cs s"
proof (induction ms rule: rev_induct)
  case (snoc c ms)
  then show ?case using shown_snoc[of "cs @ ms" c] by (simp add: apply_metric_other)
qed simp

lemma emits_shown: "emits S p q \<Longrightarrow> s \<notin> S \<Longrightarrow> shown (metrics q) s = shown (metrics p) s"
  unfolding emits_def by (metis shown_append)

lemma emits_logs: "emits S p q \<Longrightarrow> list_all P (logs p) \<Longrightarrow> (\<And>e. rendered e \<Longrightarrow> P e) \<Longrightarrow> list_all P (logs q)"
  unfolding emits_def by (metis list_all_append list_all_iff)

section \<open>The events of the program\<close>

lemma known_switch_events:
  "''configmap_patch'' \<in> set known_events" "''deployment_roll'' \<in> set known_events"
  "''roll_only'' \<in> set known_events" "''roll_skipped'' \<in> set known_events"
  "''actuation_error'' \<in> set known_events" "''switched'' \<in> set known_events"
  "''switch_noop'' \<in> set known_events" "''webhook_dropped'' \<in> set known_events"
  "''webhook_body'' \<in> set known_events" "''webhook_called'' \<in> set known_events"
  "''webhook_retry'' \<in> set known_events" "''webhook_failed'' \<in> set known_events"
  "''webhook_dry_run'' \<in> set known_events"
  by (simp_all add: known_events_def templates_def)

lemma known_loop_events:
  "''target_namespace_unpaired'' \<in> set known_events" "''adopt_switched'' \<in> set known_events"
  "''adopt_mixed'' \<in> set known_events" "''clusters'' \<in> set known_events"
  "''active_config'' \<in> set known_events" "''secondary_connect_failed'' \<in> set known_events"
  "''probe_target'' \<in> set known_events" "''probe_target_unavailable'' \<in> set known_events"
  "''probe_target_held'' \<in> set known_events" "''webhook_insecure'' \<in> set known_events"
  "''webhook_target'' \<in> set known_events" "''cluster_detail'' \<in> set known_events"
  "''cluster_nodes'' \<in> set known_events" "''cluster_map'' \<in> set known_events"
  "''cluster_map_change'' \<in> set known_events" "''failover_countdown_start'' \<in> set known_events"
  "''health'' \<in> set known_events" "''switch_skipped'' \<in> set known_events"
  "''switch_held'' \<in> set known_events" "''switch_required'' \<in> set known_events"
  by (simp_all add: known_events_def templates_def)

lemmas emits_intros = emits_refl emits_log emits_metric known_switch_events known_loop_events

section \<open>The Kubernetes actuator\<close>

lemma patch_one_emits:
  assumes "patch_one api cfg r led p = (led', p')"
  shows "emits S p p'"
proof -
  obtain g p1 where g: "outside (get_cm api (ref_namespace r) (ref_name r)) p = (g, p1)" by force
  then have e: "emits S p p1" by (rule emits_outside)
  show ?thesis
    using assms e
    by (auto simp: patch_one_def g Let_def split: sum.splits if_splits prod.splits
        intro!: emits_log known_switch_events intro: emits_step[OF e])
qed

lemma patch_configmaps_emits: "patch_configmaps api cfg rs led p = (led', p') \<Longrightarrow> emits S p p'"
  by (induction api cfg rs led p rule: patch_configmaps.induct)
     (auto split: prod.splits intro: emits_trans patch_one_emits)

lemma roll_one_emits:
  assumes "roll_one api cfg led stamp r acc p = (acc', p')"
  shows "emits S p p'"
proof -
  obtain g p1 where g: "outside (get_dep api (ref_namespace r) (ref_name r)) p = (g, p1)" by force
  then have e: "emits S p p1" by (rule emits_outside)
  obtain n es where acc: "acc = (n, es)" by force
  show ?thesis
    using assms e
    by (auto simp: roll_one_def acc g Let_def split: sum.splits if_splits prod.splits
        intro!: emits_log known_switch_events intro: emits_step[OF e])
qed

lemma roll_deployments_emits: "roll_deployments api cfg led stamp rs acc p = (acc', p') \<Longrightarrow> emits S p p'"
  by (induction api cfg led stamp rs acc p rule: roll_deployments.induct)
     (auto split: prod.splits intro: emits_trans roll_one_emits)

lemma k8s_switch_emits: "emits S p (snd (k8s_switch api cfg stamp p))"
  by (auto simp: k8s_switch_def Let_def split: prod.splits intro!: emits_log known_switch_events
      intro: emits_trans patch_configmaps_emits roll_deployments_emits)

section \<open>The webhook\<close>

lemma post_emits: "post sf env h e n p = ((status, err), p') \<Longrightarrow> emits S p p'"
  by (erule post_cases) (blast intro: emits_outside emits_step emits_log known_switch_events)+

lemma attempts_emits: "emits S p (snd (attempts_from sf env h e k n i le p))"
proof (induction sf env h e k n i le p rule: attempts_from.induct)
  case (2 sf env h e k n i le p)
  obtain st err p1 where post: "post sf env h e i p = ((st, err), p1)" by (metis prod.collapse)
  note e = post_emits[OF post]
  show ?case
  proof (cases err)
    case None
    then show ?thesis by (simp add: post e emits_log known_switch_events)
  next
    case (Some msg)
    show ?thesis
    proof (cases "\<not> retryable st False \<or> i = k")
      case True
      then show ?thesis by (auto simp: post Some e emits_log known_switch_events)
    next
      case False
      define p2 where "p2 = log_event LevelWarn ''webhook_retry''
        [(''url'', AStr (redact_url (hn_url h))), (''attempt'', AInt i), (''attempts'', AInt k),
         (''err'', AStr msg), (''wait'', ADur (backoff_of h i))] p1"
      obtain c p3 where w: "outside (http_wait env (backoff_of h i)) p2 = (c, p3)" by force
      have e3: "emits S p p3" by (rule emits_step[OF _ w]) (simp add: p2_def e emits_log known_switch_events)
      have "emits S p3 (snd (attempts_from sf env h e k n (i + 1) (Some msg) p3))" if "c = None"
        using 2[OF post[symmetric] refl Some False refl p2_def w[symmetric]] that by simp
      then show ?thesis
        using e3 False w Some
        by (auto simp: post p2_def[symmetric] emits_log known_switch_events split: option.splits intro: emits_trans)
    qed
  qed
qed simp

lemma http_notify_emits: "emits S p (snd (http_notify sf env h e p))"
  by (simp add: http_notify_def attempts_emits emits_log known_switch_events)

section \<open>What the webhook leaves alone\<close>

definition http_keeps :: "('w \<Rightarrow> 'a) \<Rightarrow> 'w http_env \<Rightarrow> bool" where
  "http_keeps v env \<longleftrightarrow>
     (\<forall>rq w. v (snd (http_do env rq w)) = v w) \<and> (\<forall>d w. v (snd (http_wait env d w)) = v w) \<and>
     (\<forall>w. v (snd (http_now env w)) = v w)"

lemma post_keeps:
  assumes "http_keeps v henv" "post sf henv h e n p = ((status, err), p')"
  shows "v (world p') = v (world p)"
  using assms(2)
proof (cases rule: post_cases)
  case (bad_url msg now p1)
  then show ?thesis using assms(1) outside_world[OF bad_url(2)] by (simp add: http_keeps_def)
next
  case (sent u now p1 body r p2)
  then show ?thesis
    using assms(1) outside_world[OF sent(2)] outside_world[OF sent(4)] by (simp add: http_keeps_def)
qed

lemma attempts_keep:
  assumes "http_keeps v henv"
  shows "v (world (snd (attempts_from sf henv h e k n i le p))) = v (world p)"
proof (induction n arbitrary: i le p)
  case (Suc n)
  obtain st err p1 where post: "post sf henv h e i p = ((st, err), p1)" by (metis prod.collapse)
  have wait: "v (world q) = v (world p')" if "outside (http_wait henv d) p' = (x, q)" for d p' x q
    using assms outside_world[OF that] by (simp add: http_keeps_def)
  show ?case
    using post_keeps[OF assms post] Suc.IH
    by (auto simp: post Let_def dest!: wait split: option.split prod.split)
qed simp

lemma http_notify_keeps: "http_keeps v henv \<Longrightarrow> v (world (snd (http_notify sf henv h e p))) = v (world p)"
  by (simp add: http_notify_def attempts_keep)

section \<open>A whole decision\<close>

definition actuation_series :: "series set" where
  "actuation_series = {FailoverTotal, FailoverErrors, LastActuationSuccess, WebhookLastSuccess,
     WebhookTotal ''ok'', WebhookTotal ''error''}"

definition act_emits :: "'w act_fn option \<Rightarrow> bool" where
  "act_emits act \<longleftrightarrow> (\<forall>switch p. act = Some switch \<longrightarrow> emits actuation_series p (snd (switch p)))"

definition notifier_emits :: "'w notify_fn option \<Rightarrow> bool" where
  "notifier_emits n \<longleftrightarrow> (\<forall>notify ev p. n = Some notify \<longrightarrow> emits actuation_series p (snd (notify ev p)))"

lemma set_now_emits: "emits S p q \<Longrightarrow> s \<in> S \<Longrightarrow> emits S p (set_now now s q)"
  by (auto simp: set_now_def split: prod.split intro!: emits_metric intro: emits_step)

lemma run_actuator_emits:
  assumes "act_emits act"
  shows "emits actuation_series p (snd (run_actuator now act info p))"
proof -
  obtain latch moved p' where a: "run_actuator now act info p = ((latch, moved), p')" by (metis prod.collapse)
  have sw: "emits actuation_series p p1" if "act = Some switch" "switch p = (x, p1)" for switch x p1
    using assms that unfolding act_emits_def by (metis snd_conv)
  from a have "emits actuation_series p p'"
  proof (cases rule: run_actuator_cases)
    case (failed switch sw' es p1)
    then show ?thesis
      using sw[OF failed(1,2)] by (auto intro!: emits_log emits_metric known_switch_events simp: actuation_series_def)
  next
    case (switched switch p1)
    then show ?thesis
      using sw[OF switched(1,2)]
      by (auto intro!: emits_log emits_metric set_now_emits known_switch_events simp: actuation_series_def)
  next
    case (noop switch p1)
    then show ?thesis using sw[OF noop(1,2)] by (auto intro!: emits_log known_switch_events)
  qed simp
  with a show ?thesis by simp
qed

lemma run_notifier_emits:
  assumes "notifier_emits (sd_notifier d)"
  shows "emits actuation_series p (snd (run_notifier now d info ev state p))"
proof (cases "sd_notifier d")
  case None
  then show ?thesis by (simp add: run_notifier_def split: prod.split)
next
  case (Some notify)
  obtain err p1 where n: "notify ev p = (err, p1)" by force
  then have e: "emits actuation_series p p1"
    using assms Some unfolding notifier_emits_def by (metis snd_conv)
  obtain latch moved where state: "state = (latch, moved)" by force
  show ?thesis
    using e
    by (auto simp: run_notifier_def Let_def Some n state actuation_series_def split: option.split
        intro!: emits_log emits_metric set_now_emits known_switch_events)
qed

lemma run_switch_emits:
  "act_emits (sd_act d) \<Longrightarrow> notifier_emits (sd_notifier d) \<Longrightarrow>
   emits actuation_series p (snd (run_switch now d info ev p))"
  unfolding run_switch_eq by (blast intro: emits_trans run_actuator_emits run_notifier_emits)

end
