(* ===== verification/Poll_Laws.thy ===== *)
theory Poll_Laws
  imports Poll_Loop Step_Frames
begin

text \<open>
  The facts about one tick of the poll loop that its properties share: which locals each phase
  keeps, what it appends to the process (\<open>emits\<close>), what it leaves of the world (\<open>env_keeps\<close>), and
  the elimination rules \<open>tick_cases\<close> and \<open>tick_switch_cases\<close> for what a tick may have done.
\<close>

section \<open>Frames\<close>

lemma on_proc_frame [simp, frame_simps]:
  "ob_machine (on_proc f ob) = ob_machine ob" "ob_active (on_proc f ob) = ob_active ob"
  "ob_role (on_proc f ob) = ob_role ob" "ob_disp (on_proc f ob) = ob_disp ob"
  "ob_region (on_proc f ob) = ob_region ob" "ob_last_status (on_proc f ob) = ob_last_status ob"
  "ob_last_hosts (on_proc f ob) = ob_last_hosts ob" "ob_heartbeat (on_proc f ob) = ob_heartbeat ob"
  "ob_first_eval (on_proc f ob) = ob_first_eval ob" "ob_proc (on_proc f ob) = f (ob_proc ob)"
  by (simp_all add: on_proc_def)

lemma read_clock_eq:
  "read_clock env ob = (fst (en_now env (world (ob_proc ob))), on_proc (\<lambda>p. snd (outside (en_now env) p)) ob)"
  by (simp add: read_clock_def on_proc_def outside_def split: prod.split)

lemma in_world_frame [simp, frame_simps]:
  "ob_machine (in_world w ob) = ob_machine ob" "ob_active (in_world w ob) = ob_active ob"
  "ob_role (in_world w ob) = ob_role ob" "ob_disp (in_world w ob) = ob_disp ob"
  "ob_region (in_world w ob) = ob_region ob" "ob_last_status (in_world w ob) = ob_last_status ob"
  "ob_last_hosts (in_world w ob) = ob_last_hosts ob"
  "world (ob_proc (in_world w ob)) = w" "logs (ob_proc (in_world w ob)) = logs (ob_proc ob)"
  "metrics (ob_proc (in_world w ob)) = metrics (ob_proc ob)"
  by (simp_all add: in_world_def)

text \<open>A view of the world that the clock, the probes and the webhook leave alone.\<close>

definition env_keeps :: "('w \<Rightarrow> 'a) \<Rightarrow> ('w, 'e) loop_env \<Rightarrow> bool" where
  "env_keeps v env \<longleftrightarrow>
     (\<forall>w. v (snd (en_now env w)) = v w) \<and> http_keeps v (en_http env) \<and>
     (\<forall>g. g = en_primary env \<or> en_connect env = Inr g \<longrightarrow>
        (\<forall>ping \<in> set (gocb_pings g). \<forall>opts w. v (snd (ping opts w)) = v w))"

lemma gocb_probe_keeps:
  assumes "\<forall>ping \<in> set (gocb_pings g). \<forall>opts w. v (snd (ping opts w)) = v w"
  shows "v (snd (gocb_probe g w)) = v w"
  using assms by (auto simp: gocb_probe_def gocb_pings_def Let_def split: option.splits prod.split)
    (metis snd_conv)+

lemma env_keeps_clock: "env_keeps v env \<Longrightarrow> v (snd (en_now env w)) = v w"
  and env_keeps_http: "env_keeps v env \<Longrightarrow> http_keeps v (en_http env)"
  by (simp_all add: env_keeps_def)

lemma env_keeps_primary: "env_keeps v env \<Longrightarrow> v (snd (gocb_probe (en_primary env) w)) = v w"
  unfolding env_keeps_def by (intro gocb_probe_keeps) blast

lemma secondary_prober_connects: "secondary_prober env cfg = Some g \<Longrightarrow> en_connect env = Inr g"
  by (auto simp: secondary_prober_def split: if_splits sum.splits)

lemma env_keeps_secondary:
  "env_keeps v env \<Longrightarrow> secondary_prober env cfg = Some g \<Longrightarrow> v (snd (gocb_probe g w)) = v w"
  unfolding env_keeps_def by (intro gocb_probe_keeps) (metis secondary_prober_connects)

text \<open>The target is one of the two probers the environment gives.\<close>

definition target_known :: "('w, 'e) loop_env \<Rightarrow> loop_config \<Rightarrow> ('w, 'e) gocb_prober \<Rightarrow> bool" where
  "target_known env cfg g \<longleftrightarrow> g = en_primary env \<or> secondary_prober env cfg = Some g"

lemma env_keeps_target: "env_keeps v env \<Longrightarrow> target_known env cfg g \<Longrightarrow> v (snd (gocb_probe g w)) = v w"
  unfolding target_known_def by (elim disjE) (simp_all add: env_keeps_primary env_keeps_secondary[of v env cfg])

section \<open>The verdict phase\<close>

lemma service_gauges_emit:
  "emits (range ServiceUp) p (foldl (\<lambda>p kv. service_gauge kv p) p kvs)"
proof (induction kvs rule: rev_induct)
  case (snoc kv kvs)
  then show ?case by (auto simp: service_gauge_def intro!: emits_metric)
qed simp

lemma service_gauges_world: "world (foldl (\<lambda>p kv. service_gauge kv p) p kvs) = world p"
  by (induction kvs rule: rev_induct) (simp_all add: service_gauge_def)

definition verdict_series :: "gostring \<Rightarrow> series set" where
  "verdict_series region = range ServiceUp \<union> {LoopLastTick, CouchbaseUp region, SustainedDownSeconds}"

lemma emits_snd_outside: "emits S p q \<Longrightarrow> emits S p (snd (outside f q))"
  by (metis emits_step prod.collapse)

lemma publish_verdict_emits: "emits (verdict_series region) p (publish_verdict env region rep p)"
proof -
  have g: "emits (verdict_series region) q (foldl (\<lambda>p kv. service_gauge kv p) q kvs)" for q kvs
    by (rule emits_mono[OF service_gauges_emit]) (auto simp: verdict_series_def)
  show ?thesis
    unfolding publish_verdict_def
    by (rule emits_trans[OF _ g]) (auto intro!: emits_metric set_now_emits simp: verdict_series_def)
qed

lemma service_gauges_shown:
  "shown (metrics (foldl (\<lambda>p kv. service_gauge kv p) p kvs)) (CouchbaseUp region) =
   shown (metrics p) (CouchbaseUp region)"
  by (rule emits_shown[OF service_gauges_emit]) auto

lemma publish_verdict_shown:
  "shown (metrics (publish_verdict env region rep p)) (CouchbaseUp region) = Some (if rep_status rep \<noteq> DOWN then 1 else 0)"
  by (simp add: publish_verdict_def service_gauges_shown)

lemma publish_verdict_world: "world (publish_verdict env region rep p) = snd (en_now env (world p))"
  by (simp add: publish_verdict_def service_gauges_world)

lemma tick_verdict_cases:
  assumes "tick_verdict env cfg g ob = ((probes, rep, res), ob1)"
  obtains t1 t2 w2 where
    "probes = fst (fst (gocb_probe g (snd (en_now env (world (ob_proc ob))))))"
    "rep = compute probes (lc_critical cfg) (rfc3339 t1)"
    "observe t2 (rep_status rep) (ob_machine ob) = (res, ob_machine ob1)"
    "ob_active ob1 = ob_active ob" "ob_role ob1 = ob_role ob" "ob_disp ob1 = ob_disp ob"
    "ob_region ob1 = ob_region ob" "ob_last_status ob1 = ob_last_status ob"
    "ob_last_hosts ob1 = ob_last_hosts ob"
    "ob_heartbeat ob1 = tick_at (fst (en_now env (world (ob_proc ob))))" "ob_first_eval ob1"
    "emits (verdict_series (ob_region ob)) (ob_proc ob) (ob_proc ob1)"
    "t2 = fst (en_now env w2)"
    "shown (metrics (ob_proc ob1)) (CouchbaseUp (ob_region ob)) = Some (if rep_status rep \<noteq> DOWN then 1 else 0)"
    "env_keeps v env \<and> target_known env cfg g \<longrightarrow>
       v (world (ob_proc ob1)) = v (world (ob_proc ob)) \<and> v w2 = v (world (ob_proc ob))"
proof -
  define p0 where "p0 = snd (outside (en_now env) (ob_proc ob))"
  obtain prs err p1 where probe: "outside (gocb_probe g) p0 = ((prs, err), p1)" by (metis prod.collapse)
  define t1 where "t1 = fst (en_now env (world p1))"
  define p2 where "p2 = snd (outside (en_now env) p1)"
  define r where "r = compute prs (lc_critical cfg) (rfc3339 t1)"
  define p4 where "p4 = publish_verdict env (ob_region ob) r p2"
  define t2 where "t2 = fst (en_now env (world p4))"
  define p5 where "p5 = snd (outside (en_now env) p4)"
  obtain rs m where m: "observe t2 (rep_status r) (ob_machine ob) = (rs, m)" by force
  define p6 where "p6 = metric (SetGauge SustainedDownSeconds (down_seconds (fst (en_now env (world p5))) m))
    (snd (outside (en_now env) p5))"
  have v: "tick_verdict env cfg g ob = ((prs, r, rs),
      ob\<lparr>ob_machine := m, ob_heartbeat := tick_at (fst (en_now env (world (ob_proc ob)))),
         ob_first_eval := True, ob_proc := p6\<rparr>)"
    by (simp add: tick_verdict_def read_clock_eq Let_def p0_def[symmetric] probe t1_def[symmetric]
        p2_def[symmetric] r_def[symmetric] p4_def[symmetric] t2_def[symmetric] p5_def[symmetric]
        m on_proc_def) (simp add: p6_def p5_def)
  have "emits (verdict_series (ob_region ob)) (ob_proc ob) p2"
    unfolding p2_def p0_def by (intro emits_snd_outside emits_step[OF _ probe[unfolded p0_def]]) simp
  then have "emits (verdict_series (ob_region ob)) (ob_proc ob) p4"
    unfolding p4_def by (rule emits_trans[OF _ publish_verdict_emits])
  then have e: "emits (verdict_series (ob_region ob)) (ob_proc ob) p6"
    unfolding p6_def p5_def by (intro emits_metric emits_snd_outside) (auto simp: verdict_series_def)
  have w: "v (world p6) = v (world (ob_proc ob)) \<and> v (world p4) = v (world (ob_proc ob))" if k: "env_keeps v env" "target_known env cfg g"
    using outside_world[OF probe] env_keeps_clock[OF k(1)] env_keeps_target[OF k]
    by (simp add: p6_def p5_def p4_def p2_def p0_def publish_verdict_world)
  have "fst (fst (gocb_probe g (snd (en_now env (world (ob_proc ob)))))) = prs"
    using outside_answer[OF probe] by (simp add: p0_def) (metis fst_conv)
  moreover have "shown (metrics p6) (CouchbaseUp (ob_region ob)) = Some (if rep_status r \<noteq> DOWN then 1 else 0)"
    by (simp add: p6_def p5_def p4_def publish_verdict_shown)
  ultimately show thesis
    using assms v m e w by (intro that[of t1 t2 "world p4"]) (auto simp: r_def t2_def)
qed

section \<open>The report phase\<close>

lemma host_lines_emit: "emits S p (foldl (\<lambda>p h. host_line action l role h p) p hs)"
proof (induction hs rule: rev_induct)
  case (snoc h hs)
  then show ?case by (auto simp: host_line_def intro!: emits_log known_loop_events)
qed simp

lemma host_lines_world: "world (foldl (\<lambda>p h. host_line action l role h p) p hs) = world p"
  by (induction hs rule: rev_induct) (simp_all add: host_line_def)

lemma map_lines_frame: "emits S p (map_lines role before cur p) \<and> world (map_lines role before cur p) = world p"
proof (cases before)
  case None
  then show ?thesis by (auto simp: map_lines_def intro!: emits_log known_loop_events)
next
  case (Some prev)
  obtain added removed where "diff_hosts prev cur = (added, removed)" by force
  then show ?thesis
    using Some
    by (auto simp: map_lines_def Let_def host_lines_world
        intro!: emits_log known_loop_events intro: emits_trans host_lines_emit)
qed

lemma tick_report_frame:
  assumes "tick_report env cfg probes rep res ob = ob'"
  shows "ob_machine ob' = ob_machine ob" "ob_active ob' = ob_active ob" "ob_role ob' = ob_role ob"
    "ob_disp ob' = ob_disp ob" "ob_region ob' = ob_region ob" "ob_last_status ob' = rep_status rep"
    "ob_last_hosts ob' = Some (host_set probes)" "ob_heartbeat ob' = ob_heartbeat ob"
    "ob_first_eval ob' = ob_first_eval ob" "emits {} (ob_proc ob) (ob_proc ob')"
    "env_keeps v env \<Longrightarrow> v (world (ob_proc ob')) = v (world (ob_proc ob))"
proof -
  show "ob_machine ob' = ob_machine ob" "ob_active ob' = ob_active ob" "ob_role ob' = ob_role ob"
    "ob_disp ob' = ob_disp ob" "ob_region ob' = ob_region ob" "ob_last_status ob' = rep_status rep"
    "ob_last_hosts ob' = Some (host_set probes)" "ob_heartbeat ob' = ob_heartbeat ob"
    "ob_first_eval ob' = ob_first_eval ob"
    unfolding assms[symmetric] by (simp_all add: tick_report_def Let_def read_clock_eq)
  show "emits {} (ob_proc ob) (ob_proc ob')"
    unfolding assms[symmetric]
    by (auto simp: tick_report_def Let_def read_clock_eq
        intro!: emits_log emits_snd_outside emits_trans[OF _ conjunct1[OF map_lines_frame]] known_loop_events)
  show "env_keeps v env \<Longrightarrow> v (world (ob_proc ob')) = v (world (ob_proc ob))"
    unfolding assms[symmetric]
    by (auto simp: tick_report_def Let_def read_clock_eq map_lines_frame env_keeps_clock)
qed

section \<open>The switch phase\<close>

lemma secondary_status_cases:
  assumes "secondary_status env cfg ob = (status, ob')"
  obtains
    (unreachable) "secondary_prober env cfg = None" "status = DOWN" "ob' = ob"
  | (probed) g t q where "secondary_prober env cfg = Some g"
      "status = rep_status (compute (fst (fst (gocb_probe g (world (ob_proc ob))))) (lc_critical cfg) (rfc3339 t))"
      "ob' = ob\<lparr>ob_proc := q\<rparr>" "emits S (ob_proc ob) q"
      "env_keeps v env \<longrightarrow> v (world q) = v (world (ob_proc ob))"
proof (cases "secondary_prober env cfg")
  case None
  with assms show ?thesis by (intro unreachable) (auto simp: secondary_status_def)
next
  case (Some g)
  obtain prs err p1 where probe: "outside (gocb_probe g) (ob_proc ob) = ((prs, err), p1)" by (metis prod.collapse)
  have "fst (fst (gocb_probe g (world (ob_proc ob)))) = prs"
    using outside_answer[OF probe] by (metis fst_conv)
  moreover have "v (world (snd (outside (en_now env) p1))) = v (world (ob_proc ob))" if "env_keeps v env"
    using outside_world[OF probe] env_keeps_clock[OF that] env_keeps_secondary[OF that Some] by simp
  ultimately show ?thesis
    using assms
    by (intro probed[OF Some, of "fst (en_now env (world p1))" "snd (outside (en_now env) p1)"])
       (auto simp: secondary_status_def Some probe read_clock_eq on_proc_def
          intro: emits_snd_outside emits_outside[OF probe])
qed

lemma secondary_status_eq:
  obtains status q where "secondary_status env cfg ob = (status, ob\<lparr>ob_proc := q\<rparr>)" "emits S (ob_proc ob) q"
    "env_keeps v env \<longrightarrow> v (world q) = v (world (ob_proc ob))"
proof -
  obtain status ob' where s: "secondary_status env cfg ob = (status, ob')" by force
  then show thesis
  proof (cases rule: secondary_status_cases[where v = v and S = S])
    case unreachable
    with s show ?thesis by (intro that[of status "ob_proc ob"]) auto
  next
    case (probed g t q)
    with s show ?thesis by (intro that[of status q]) auto
  qed
qed

text \<open>
  What the switch phase may do: nothing but lines and metrics (\<open>idle\<close>), or attempt the switch after
  the secondary answered; then it latches or not.
\<close>

lemma tick_switch_cases:
  assumes "tick_switch env cfg probes rep res ob = ob'"
  obtains
    (idle) q where "ob' = ob\<lparr>ob_proc := q\<rparr>" "emits {SecondaryUp} (ob_proc ob) q"
      "res_switch_required res \<Longrightarrow> lc_secondary cfg \<noteq> [] \<Longrightarrow> secondary_prober env cfg = Some g \<Longrightarrow>
         \<exists>t. rep_status (compute (fst (fst (gocb_probe g (world (ob_proc ob))))) (lc_critical cfg) t) = DOWN"
      "env_keeps v env \<longrightarrow> v (world q) = v (world (ob_proc ob))"
  | (attempt) g p info ev latch q where "res_switch_required res" "lc_secondary cfg \<noteq> []"
      "secondary_prober env cfg = Some g" "emits {SecondaryUp} (ob_proc ob) p"
      "shown (metrics p) SecondaryUp = Some 1"
      "env_keeps v env \<longrightarrow> v (world p) = v (world (ob_proc ob))"
      "run_switch (en_now env) (switch_deps_of env cfg) info ev p = (latch, q)"
      "ob' = (if latch then latch_switch env cfg (ob\<lparr>ob_proc := q\<rparr>) else ob\<lparr>ob_proc := q\<rparr>)"
proof -
  consider "\<not> res_switch_required res" | "res_switch_required res" "lc_secondary cfg = []"
    | "res_switch_required res" "lc_secondary cfg \<noteq> []" by blast
  then show thesis
  proof cases
    case 1
    then show ?thesis using assms by (intro idle[of "ob_proc ob"]) (auto simp: tick_switch_def)
  next
    case 2
    then show ?thesis
      using assms
      by (intro idle[of "log_event LevelWarn ''switch_skipped'' [(''reason'', AStr ''secondary_conn_empty'')] (ob_proc ob)"])
         (auto simp: tick_switch_def on_proc_def intro!: emits_log known_loop_events)
  next
    case req: 3
    obtain status q1 where s: "secondary_status env cfg ob = (status, ob\<lparr>ob_proc := q1\<rparr>)"
      and q1: "emits {SecondaryUp} (ob_proc ob) q1" "env_keeps v env \<longrightarrow> v (world q1) = v (world (ob_proc ob))"
      by (rule secondary_status_eq[where v = v and S = "{SecondaryUp}"])
    define p1 where "p1 = metric (SetGauge SecondaryUp (if secondary_ready status then 1 else 0)) q1"
    have p1: "emits {SecondaryUp} (ob_proc ob) p1" "world p1 = world q1"
      using q1(1) by (auto simp: p1_def intro!: emits_metric)
    show ?thesis
    proof (cases "secondary_ready status")
      case False
      show ?thesis
      proof (rule idle)
        show "ob' = ob\<lparr>ob_proc := log_event LevelWarn ''switch_held''
            [(''reason'', AStr ''secondary_not_ready''), (''secondary_status'', AStr status)] p1\<rparr>"
          using assms req False by (simp add: tick_switch_def s on_proc_def p1_def)
        show "\<exists>t. rep_status (compute (fst (fst (gocb_probe g (world (ob_proc ob))))) (lc_critical cfg) t) = DOWN"
          if "secondary_prober env cfg = Some g"
          using s that False
          by (cases rule: secondary_status_cases[where v = v and S = S]) (auto simp: secondary_ready_def)
      qed (use p1 q1(2) in \<open>auto intro!: emits_log known_loop_events\<close>)
    next
      case True
      define p2 where "p2 = snd (outside (en_now env)
        (log_event LevelInfo ''switch_required''
          [(''active_region'', AStr (ob_disp ob)), (''secondary'', AStr (secondary_disp cfg))] p1))"
      have p2: "emits {SecondaryUp} (ob_proc ob) p2" "shown (metrics p2) SecondaryUp = Some 1"
        "env_keeps v env \<longrightarrow> v (world p2) = v (world (ob_proc ob))"
        using p1 q1(2) True
        by (auto simp: p2_def p1_def env_keeps_clock intro!: emits_snd_outside emits_log known_loop_events)
      obtain g where g: "secondary_prober env cfg = Some g"
        using s by (cases rule: secondary_status_cases[where v = v and S = S]) (use True in \<open>auto simp: secondary_ready_def\<close>)
      define hosts where "hosts = sorted_hosts (host_set probes)"
      define info where "info = decision_info cfg hosts"
      define ev where "ev = decision_event cfg rep hosts status
        (down_seconds (fst (en_now env (world p1))) (ob_machine ob))"
      have ob': "ob' = (case run_switch (en_now env) (switch_deps_of env cfg) info ev p2 of
          (latch, q) \<Rightarrow> if latch then latch_switch env cfg (ob\<lparr>ob_proc := q\<rparr>) else ob\<lparr>ob_proc := q\<rparr>)"
        unfolding assms[symmetric] info_def ev_def hosts_def p2_def p1_def
        by (simp add: tick_switch_def s req True read_clock_eq on_proc_def Let_def split: prod.split)
      obtain latch q where r: "run_switch (en_now env) (switch_deps_of env cfg) info ev p2 = (latch, q)" by force
      from ob' r have "ob' = (if latch then latch_switch env cfg (ob\<lparr>ob_proc := q\<rparr>) else ob\<lparr>ob_proc := q\<rparr>)" by simp
      with p2 g req r show ?thesis by (intro attempt[of g p2 info ev latch q]) auto
    qed
  qed
qed

section \<open>The latch\<close>

definition latch_series :: "loop_config \<Rightarrow> series set" where
  "latch_series cfg = {ActiveRegion (region_label (lc_conn cfg)), ActiveRegion (region_label (lc_secondary cfg)),
     CouchbaseUp (region_label (lc_conn cfg))}"

lemma follow_secondary_frame [simp]:
  "ob_machine (follow_secondary env cfg ob) = ob_machine ob"
  "ob_active (follow_secondary env cfg ob) = active_set (secondary_prober env cfg) (ob_active ob)"
  "ob_role (follow_secondary env cfg ob) = ''secondary''"
  "ob_disp (follow_secondary env cfg ob) = secondary_disp cfg"
  "ob_region (follow_secondary env cfg ob) = region_label (lc_secondary cfg)"
  "ob_last_status (follow_secondary env cfg ob) = ob_last_status ob"
  "ob_heartbeat (follow_secondary env cfg ob) = ob_heartbeat ob"
  "ob_first_eval (follow_secondary env cfg ob) = ob_first_eval ob"
  "world (ob_proc (follow_secondary env cfg ob)) = world (ob_proc ob)"
  "metrics (ob_proc (follow_secondary env cfg ob)) = metrics (ob_proc ob)"
  "emits S p (ob_proc ob) \<Longrightarrow> emits S p (ob_proc (follow_secondary env cfg ob))"
  by (simp_all add: follow_secondary_def emits_log known_loop_events)

lemma latch_switch_frame [simp]:
  "ob_machine (latch_switch env cfg ob) = mark_switched (ob_machine ob)"
  "ob_active (latch_switch env cfg ob) =
     (if lc_dry_run cfg then ob_active ob else active_set (secondary_prober env cfg) (ob_active ob))"
  "ob_role (latch_switch env cfg ob) = (if lc_dry_run cfg then ob_role ob else ''secondary'')"
  "ob_disp (latch_switch env cfg ob) = (if lc_dry_run cfg then ob_disp ob else secondary_disp cfg)"
  "ob_region (latch_switch env cfg ob) = (if lc_dry_run cfg then ob_region ob else region_label (lc_secondary cfg))"
  "ob_last_status (latch_switch env cfg ob) = ob_last_status ob"
  "ob_heartbeat (latch_switch env cfg ob) = ob_heartbeat ob"
  "ob_first_eval (latch_switch env cfg ob) = ob_first_eval ob"
  "world (ob_proc (latch_switch env cfg ob)) = world (ob_proc ob)"
  by (simp_all add: latch_switch_def Let_def)

lemma latch_switch_metrics:
  "metrics (ob_proc (latch_switch env cfg ob)) = metrics (ob_proc ob) @
     [SetGauge (ActiveRegion (region_label (lc_conn cfg))) 0, SetGauge (ActiveRegion (region_label (lc_secondary cfg))) 1] @
     (if lc_dry_run cfg then [] else [DeleteSeries (CouchbaseUp (region_label (lc_conn cfg)))])"
  by (simp add: latch_switch_def Let_def)

lemma latch_switch_emits: "emits (latch_series cfg) (ob_proc ob) (ob_proc (latch_switch env cfg ob))"
  by (auto simp: latch_switch_def Let_def latch_series_def
      intro!: emits_log emits_metric known_loop_events follow_secondary_frame(11))

section \<open>A whole tick\<close>

lemma switch_deps_emit: "act_emits (sd_act (switch_deps_of env cfg))" "notifier_emits (sd_notifier (switch_deps_of env cfg))"
  by (auto simp: switch_deps_of_def act_emits_def notifier_emits_def k8s_act_def k8s_switch_emits http_notify_emits)

lemma tick_phases:
  assumes "tick env cfg ob = Some ob'"
  obtains g probes rep res ob1 where "ap_target (ob_active ob) = Some g"
    "tick_verdict env cfg g ob = ((probes, rep, res), ob1)"
    "tick_switch env cfg probes rep res (tick_report env cfg probes rep res ob1) = ob'"
  using assms by (auto simp: tick_def split: option.splits prod.splits)

definition tick_series :: "gostring \<Rightarrow> series set" where
  "tick_series region = verdict_series region \<union> actuation_series \<union> {SecondaryUp}"

text \<open>
  One tick, on the locals: the machine observes the verdict; a switch that latches marks it and,
  outside dry-run, moves every local that names or reads a cluster.
\<close>

lemma tick_cases:
  assumes "tick env cfg ob = Some ob'"
  obtains
    (plain) t status where
      "status \<in> {UP, DEGRADED, DOWN}" "ob_last_status ob' = status" "\<exists>w2. t = fst (en_now env w2)"
      "ob_machine ob' = snd (observe t status (ob_machine ob))"
      "ob_active ob' = ob_active ob" "ob_role ob' = ob_role ob" "ob_disp ob' = ob_disp ob"
      "ob_region ob' = ob_region ob" "emits (tick_series (ob_region ob)) (ob_proc ob) (ob_proc ob')"
      "shown (metrics (ob_proc ob')) (CouchbaseUp (ob_region ob)) = Some (if status \<noteq> DOWN then 1 else 0)"
  | (latched) t g ob1 where
      "ob_last_status ob' = DOWN" "\<exists>w2. t = fst (en_now env w2)"
      "res_switch_required (fst (observe t DOWN (ob_machine ob)))"
      "lc_secondary cfg \<noteq> []" "secondary_prober env cfg = Some g"
      "ob_machine ob1 = snd (observe t DOWN (ob_machine ob))"
      "ob_active ob1 = ob_active ob" "ob_role ob1 = ob_role ob" "ob_disp ob1 = ob_disp ob"
      "ob_region ob1 = ob_region ob" "emits (tick_series (ob_region ob)) (ob_proc ob) (ob_proc ob1)"
      "ob' = latch_switch env cfg ob1"
      "shown (metrics (ob_proc ob1)) (CouchbaseUp (ob_region ob)) = Some 0"
proof -
  from assms obtain g0 probes rep res ob1 where ph: "ap_target (ob_active ob) = Some g0"
    "tick_verdict env cfg g0 ob = ((probes, rep, res), ob1)"
    "tick_switch env cfg probes rep res (tick_report env cfg probes rep res ob1) = ob'"
    by (rule tick_phases)
  define ob2 where "ob2 = tick_report env cfg probes rep res ob1"
  note r = tick_report_frame[OF ob2_def[symmetric]]
  from ph(2) obtain t1 t w2 where v: "rep = compute probes (lc_critical cfg) (rfc3339 t1)"
    "observe t (rep_status rep) (ob_machine ob) = (res, ob_machine ob1)"
    "ob_active ob1 = ob_active ob" "ob_role ob1 = ob_role ob" "ob_disp ob1 = ob_disp ob" "ob_region ob1 = ob_region ob"
    "emits (verdict_series (ob_region ob)) (ob_proc ob) (ob_proc ob1)"
    and tw: "t = fst (en_now env w2)"
    and up1: "shown (metrics (ob_proc ob1)) (CouchbaseUp (ob_region ob)) = Some (if rep_status rep \<noteq> DOWN then 1 else 0)"
    by (rule tick_verdict_cases)
  have status: "rep_status rep \<in> {UP, DEGRADED, DOWN}"
    unfolding v(1) by (rule compute_status_range)
  have e2: "emits (tick_series (ob_region ob)) (ob_proc ob) (ob_proc ob2)"
    by (rule emits_trans[OF emits_mono[OF v(7)] emits_mono[OF r(10)]]) (auto simp: tick_series_def)
  have up2: "shown (metrics (ob_proc ob2)) (CouchbaseUp (ob_region ob)) = Some (if rep_status rep \<noteq> DOWN then 1 else 0)"
    using emits_shown[OF r(10), of "CouchbaseUp (ob_region ob)"] up1 by simp
  from ph(3)[folded ob2_def] show thesis
  proof (cases rule: tick_switch_cases[where v = id and g = undefined])
    case (idle q)
    have "shown (metrics q) (CouchbaseUp (ob_region ob)) = Some (if rep_status rep \<noteq> DOWN then 1 else 0)"
      using emits_shown[OF idle(2), of "CouchbaseUp (ob_region ob)"] up2 by simp
    moreover
    have "emits (tick_series (ob_region ob)) (ob_proc ob) q"
      by (rule emits_trans[OF e2 emits_mono[OF idle(2)]]) (auto simp: tick_series_def)
    ultimately show ?thesis using idle r v status tw by (intro plain[of "rep_status rep" t]) auto
  next
    case (attempt g p info ev latch q)
    have "emits (tick_series (ob_region ob)) (ob_proc ob) p"
      by (rule emits_trans[OF e2 emits_mono[OF attempt(4)]]) (auto simp: tick_series_def)
    moreover have pq: "emits actuation_series p q"
      using run_switch_emits[OF switch_deps_emit, of p "en_now env" env cfg info ev] attempt(7) by simp
    then have "emits (tick_series (ob_region ob)) p q" by (rule emits_mono) (auto simp: tick_series_def)
    ultimately have e: "emits (tick_series (ob_region ob)) (ob_proc ob) q" by (blast intro: emits_trans)
    have up: "shown (metrics q) (CouchbaseUp (ob_region ob)) = Some (if rep_status rep \<noteq> DOWN then 1 else 0)"
      using emits_shown[OF attempt(4), of "CouchbaseUp (ob_region ob)"] emits_shown[OF pq, of "CouchbaseUp (ob_region ob)"] up2
      by (simp add: actuation_series_def)
    have down: "rep_status rep = DOWN" "res_switch_required (fst (observe t DOWN (ob_machine ob)))"
      using attempt(1) v(2) observe_required[of t "rep_status rep" "ob_machine ob"] by auto
    show ?thesis
    proof (cases latch)
      case True
      with attempt r v down e up tw show ?thesis by (intro latched[of t g "ob2\<lparr>ob_proc := q\<rparr>"]) auto
    next
      case False
      with attempt r v status e up tw show ?thesis by (intro plain[of "rep_status rep" t]) auto
    qed
  qed
qed

text \<open>What the handlers read of a tick: the status is the verdict over what the target answered.\<close>

lemma tick_last_status:
  assumes "tick env cfg ob = Some ob'" "ap_target (ob_active ob) = Some g"
  shows "\<exists>t. ob_last_status ob' =
     rep_status (compute (fst (fst (gocb_probe g (snd (en_now env (world (ob_proc ob))))))) (lc_critical cfg) t)"
    and "ob_heartbeat ob' = tick_at (fst (en_now env (world (ob_proc ob))))" and "ob_first_eval ob'"
proof -
  from assms obtain probes rep res ob1 where ph: "tick_verdict env cfg g ob = ((probes, rep, res), ob1)"
    "tick_switch env cfg probes rep res (tick_report env cfg probes rep res ob1) = ob'"
    by (auto elim: tick_phases)
  define ob2 where "ob2 = tick_report env cfg probes rep res ob1"
  note r = tick_report_frame[OF ob2_def[symmetric]]
  have sw: "ob_last_status ob' = ob_last_status ob2 \<and> ob_heartbeat ob' = ob_heartbeat ob2 \<and> ob_first_eval ob' = ob_first_eval ob2"
    using ph(2)[folded ob2_def] by (cases rule: tick_switch_cases[where v = id and g = g]) auto
  obtain t where v: "rep = compute (fst (fst (gocb_probe g (snd (en_now env (world (ob_proc ob))))))) (lc_critical cfg) (rfc3339 t)"
    "ob_heartbeat ob1 = tick_at (fst (en_now env (world (ob_proc ob))))" "ob_first_eval ob1"
    using ph(1) by (cases rule: tick_verdict_cases[where v = id]) auto
  show "\<exists>t. ob_last_status ob' =
     rep_status (compute (fst (fst (gocb_probe g (snd (en_now env (world (ob_proc ob))))))) (lc_critical cfg) t)"
    using sw r(6) v(1) by auto
  show "ob_heartbeat ob' = tick_at (fst (en_now env (world (ob_proc ob))))" "ob_first_eval ob'"
    using sw r(8,9) v(2,3) by simp_all
qed

end
