(* ===== verification/Poll_Startup.thy ===== *)
theory Poll_Startup
  imports Poll_Laws
begin

text \<open>
  The startup of the active observer: the two shapes of its first state (\<open>start_loop_cases\<close>), the
  reconcile that decides which, and what the startup writes to the log.
\<close>

section \<open>The startup\<close>

lemma start_loop_cases:
  obtains (fresh) switched p1 q where
      "start_k8s env cfg p = (switched, p1)"
      "\<not> switched \<or> secondary_prober env cfg = None"
      "start_loop env cfg p =
         \<lparr>ob_machine = new_machine \<lparr>failover_delay = lc_failover_delay cfg, already_switched = switched\<rparr>,
          ob_active = new_active_prober (Some (en_primary env)), ob_role = ''primary'',
          ob_disp = primary_disp cfg, ob_region = region_label (lc_conn cfg), ob_last_status = [],
          ob_last_hosts = None, ob_heartbeat = 0, ob_first_eval = False, ob_proc = q\<rparr>"
      "emits {ActiveRegion (region_label (if switched then lc_secondary cfg else lc_conn cfg))} p1 q"
      "shown (metrics q) (ActiveRegion (region_label (if switched then lc_secondary cfg else lc_conn cfg))) = Some 1"
      "world q = world p1"
  | (adopted) g p1 q where
      "start_k8s env cfg p = (True, p1)" "secondary_prober env cfg = Some g"
      "start_loop env cfg p =
         \<lparr>ob_machine = new_machine \<lparr>failover_delay = lc_failover_delay cfg, already_switched = True\<rparr>,
          ob_active = new_active_prober (Some g), ob_role = ''secondary'',
          ob_disp = secondary_disp cfg, ob_region = region_label (lc_secondary cfg), ob_last_status = [],
          ob_last_hosts = None, ob_heartbeat = 0, ob_first_eval = False, ob_proc = q\<rparr>"
      "emits {ActiveRegion (region_label (lc_secondary cfg))} p1 q"
      "shown (metrics q) (ActiveRegion (region_label (lc_secondary cfg))) = Some 1"
      "world q = world p1"
proof -
  obtain switched p1 where k: "start_k8s env cfg p = (switched, p1)" by force
  define S where "S = {ActiveRegion (region_label (if switched then lc_secondary cfg else lc_conn cfg))}"
  define p2 where "p2 = announce env cfg switched p1"
  have p2: "emits S p1 p2"
    by (auto simp: p2_def S_def announce_def Let_def intro!: emits_log emits_metric known_loop_events split: sum.split)
  have m2: "metrics p2 = metrics p1 @
      [SetGauge (ActiveRegion (region_label (if switched then lc_secondary cfg else lc_conn cfg))) 1]"
    "world p2 = world p1"
    by (auto simp: p2_def announce_def Let_def split: sum.split)
  define q where "q = announce_webhook cfg
    (if \<not> switched then p2
     else case secondary_prober env cfg of
       None \<Rightarrow> log_event LevelWarn ''probe_target_unavailable''
                 [(''want'', AStr (secondary_disp cfg)), (''using'', AStr (primary_disp cfg))] p2
     | Some g \<Rightarrow> log_event LevelInfo ''probe_target'' [(''target'', AStr (secondary_disp cfg))] p2)"
  have q: "emits S p1 q"
    using p2 by (auto simp: q_def announce_webhook_def Let_def intro!: emits_log known_loop_events split: option.split)
  have mq: "metrics q = metrics p2" "world q = world p2"
    by (auto simp: q_def announce_webhook_def Let_def split: option.split)
  have sh: "shown (metrics q) (ActiveRegion (region_label (if switched then lc_secondary cfg else lc_conn cfg))) = Some 1"
    by (simp add: mq m2)
  consider "\<not> switched" | "switched" "secondary_prober env cfg = None"
    | g where "switched" "secondary_prober env cfg = Some g" by fastforce
  then show thesis
  proof cases
    case 1
    then show ?thesis
      using k q sh mq m2
      by (intro fresh[of switched p1 q]) (auto simp: start_loop_def Let_def on_proc_def q_def p2_def S_def)
  next
    case 2
    then show ?thesis
      using k q sh mq m2
      by (intro fresh[of switched p1 q]) (auto simp: start_loop_def Let_def on_proc_def q_def p2_def S_def)
  next
    case (3 g)
    then show ?thesis
      using k q sh mq m2
      by (intro adopted[of p1 g q])
         (auto simp: start_loop_def Let_def on_proc_def follow_secondary_def q_def p2_def S_def
            new_active_prober_def active_set_def)
  qed
qed

section \<open>The reconcile\<close>

definition api_serves ::
  "'w k8s_api \<Rightarrow> ('w \<Rightarrow> obj_key \<Rightarrow> configmap option) \<Rightarrow> ('w \<Rightarrow> bool) \<Rightarrow> bool" where
  "api_serves api cms P \<longleftrightarrow>
     (\<forall>w ns n. P w \<longrightarrow> P (snd (get_cm api ns n w)) \<and>
        (\<forall>c. cms w (ns, n) = Some c \<longrightarrow> fst (get_cm api ns n w) = Inr c))"

lemma api_serves_step:
  assumes "api_serves api cms P" "P (world p)" "outside (get_cm api ns n) p = (x, p1)"
  shows "P (world p1)" "cms (world p) (ns, n) = Some c \<Longrightarrow> x = Inr c"
proof -
  from assms(3) obtain w where w: "get_cm api ns n (world p) = (x, w)" "world p1 = w" by (auto simp: outside_eq)
  then show "P (world p1)" using assms(1,2) unfolding api_serves_def by (metis snd_conv)
  show "cms (world p) (ns, n) = Some c \<Longrightarrow> x = Inr c"
    using w assms(1,2) unfolding api_serves_def by (metis fst_conv)
qed

lemma stale_refs_consE:
  assumes "stale_refs api key sec (r # rs) p = (stale, p')"
  obtains
    (failed) e p1 st where "outside (get_cm api (ref_namespace r) (ref_name r)) p = (Inl e, p1)"
      "stale_refs api key sec rs (log_event LevelInfo (''startup configmap read failed for '' @ ref_string r @
         '' (assuming not switched): '' @ e) [] p1) = (st, p')" "stale = r # st"
  | (read) c p1 st where "outside (get_cm api (ref_namespace r) (ref_name r)) p = (Inr c, p1)"
      "stale_refs api key sec rs p1 = (st, p')"
      "stale = (if key_of (cm_data c) key \<noteq> sec then r # st else st)"
proof -
  obtain x p1 where g: "outside (get_cm api (ref_namespace r) (ref_name r)) p = (x, p1)" by force
  then show thesis
    using assms failed read by (cases x) (auto split: prod.splits)
qed

lemma stale_refs_frame:
  "stale_refs api key sec refs p = (stale, p') \<Longrightarrow> metrics p' = metrics p \<and> set stale \<subseteq> set refs"
proof (induction refs arbitrary: p stale)
  case (Cons r rs)
  from Cons.prems show ?case
  proof (cases rule: stale_refs_consE)
    case (failed e p1 st)
    then show ?thesis using Cons.IH[OF failed(2)] by (auto simp: outside_eq)
  next
    case (read c p1 st)
    then show ?thesis using Cons.IH[OF read(2)] by (auto simp: outside_eq)
  qed
qed simp

lemma stale_refs_cluster:
  assumes "api_documented api cms deps"
    and "stale_refs api (cfg_key cfg) (cfg_secondary cfg) refs p = (stale, p')"
  shows "cms (world p') = cms (world p) \<and> deps (world p') = deps (world p)"
  using assms(2)
proof (induction refs arbitrary: p stale)
  case (Cons r rs)
  from Cons.prems show ?case
  proof (cases rule: stale_refs_consE)
    case (failed e p1 st)
    then show ?thesis
      using Cons.IH[OF failed(2)] get_cm_doc(1,2)[OF assms(1) failed(1)] by simp
  next
    case (read c p1 st)
    then show ?thesis
      using Cons.IH[OF read(2)] get_cm_doc(1,2)[OF assms(1) read(1)] by simp
  qed
qed simp

lemma stale_refs_sound:
  assumes "api_documented api cms deps"
    and "stale_refs api (cfg_key cfg) (cfg_secondary cfg) refs p = (stale, p')"
    and "r \<in> set refs" "r \<notin> set stale"
  shows "on_secondary cfg (cms (world p)) r"
  using assms(2-)
proof (induction refs arbitrary: p stale)
  case (Cons r' rs)
  from Cons.prems(1) show ?case
  proof (cases rule: stale_refs_consE)
    case (failed e p1 st)
    then show ?thesis
      using Cons.IH[OF failed(2)] Cons.prems(2,3) get_cm_doc(1)[OF assms(1) failed(1)] by simp
  next
    case (read c p1 st)
    have "cms (world p) (ref_key r') = Some c"
      using get_cm_doc(3)[OF assms(1) read(1)] by (simp add: ref_key_def)
    then show ?thesis
      using Cons.IH[OF read(2)] Cons.prems(2,3) read(3) get_cm_doc(1)[OF assms(1) read(1)]
      by (cases "r = r'") (auto simp: on_secondary_def split: if_splits)
  qed
qed simp

lemma stale_refs_served:
  assumes "api_documented api cms deps" "api_serves api cms P"
    and "stale_refs api (cfg_key cfg) (cfg_secondary cfg) refs p = (stale, p')" "P (world p)"
  shows "stale = filter (\<lambda>r. \<not> on_secondary cfg (cms (world p)) r) refs"
  using assms(3-)
proof (induction refs arbitrary: p stale)
  case (Cons r rs)
  from Cons.prems(1) show ?case
  proof (cases rule: stale_refs_consE)
    case (failed e p1 st)
    note up = api_serves_step[OF assms(2) Cons.prems(2) failed(1)]
    have "\<not> on_secondary cfg (cms (world p)) r"
      using up(2) by (auto simp: on_secondary_def ref_key_def)
    then show ?thesis
      using Cons.IH[OF failed(2)] up(1) failed(3) get_cm_doc(1)[OF assms(1) failed(1)] by simp
  next
    case (read c p1 st)
    note up = api_serves_step[OF assms(2) Cons.prems(2) read(1)]
    have "cms (world p) (ref_key r) = Some c"
      using get_cm_doc(3)[OF assms(1) read(1)] by (simp add: ref_key_def)
    then show ?thesis
      using Cons.IH[OF read(2)] up(1) read(3) get_cm_doc(1)[OF assms(1) read(1)] by (simp add: on_secondary_def)
  qed
qed simp

lemma reconcile_doc:
  assumes "api_documented api cms deps"
    and "reconcile_already_switched api (cfg_configmaps cfg) (cfg_key cfg) (cfg_secondary cfg) p = ((switched, stale), p')"
  shows "cms (world p') = cms (world p) \<and> deps (world p') = deps (world p) \<and>
     (switched \<longrightarrow> cfg_secondary cfg \<noteq> [] \<and> cfg_configmaps cfg \<noteq> [] \<and>
        (\<forall>r \<in> set (cfg_configmaps cfg). on_secondary cfg (cms (world p)) r)) \<and>
     (cfg_secondary cfg \<noteq> [] \<longrightarrow>
        (\<forall>r \<in> set (cfg_configmaps cfg). \<not> on_secondary cfg (cms (world p)) r \<longrightarrow> r \<in> set stale)) \<and>
     (api_serves api cms P \<and> P (world p) \<and> cfg_secondary cfg \<noteq> [] \<longrightarrow>
        stale = filter (\<lambda>r. \<not> on_secondary cfg (cms (world p)) r) (cfg_configmaps cfg) \<and>
        (switched \<longleftrightarrow> cfg_configmaps cfg \<noteq> [] \<and>
           (\<forall>r \<in> set (cfg_configmaps cfg). on_secondary cfg (cms (world p)) r)))"
proof (cases "cfg_secondary cfg = [] \<or> cfg_configmaps cfg = []")
  case True
  then show ?thesis using assms(2) by (auto simp: reconcile_already_switched_def)
next
  case False
  obtain st q where st: "stale_refs api (cfg_key cfg) (cfg_secondary cfg) (cfg_configmaps cfg) p = (st, q)" by force
  then have r: "switched = (st = [])" "stale = st" "p' = q"
    using assms(2) False by (auto simp: reconcile_already_switched_def)
  note cluster = stale_refs_cluster[OF assms(1) st] and sound = stale_refs_sound[OF assms(1) st]
  have served: "st = filter (\<lambda>r. \<not> on_secondary cfg (cms (world p)) r) (cfg_configmaps cfg)"
    if "api_serves api cms P" "P (world p)"
    using stale_refs_served[OF assms(1) that(1) st that(2)] .
  then have exact: "st = [] \<longleftrightarrow> (\<forall>r \<in> set (cfg_configmaps cfg). on_secondary cfg (cms (world p)) r)"
    if "api_serves api cms P" "P (world p)"
    using that by (simp add: filter_empty_conv)
  show ?thesis
    unfolding r
  proof (intro conjI impI ballI)
    assume "api_serves api cms P \<and> P (world p) \<and> cfg_secondary cfg \<noteq> []"
    then have up: "api_serves api cms P" "P (world p)" by simp_all
    show "st = filter (\<lambda>r. \<not> on_secondary cfg (cms (world p)) r) (cfg_configmaps cfg)" using up by (rule served)
    show "st = [] \<longleftrightarrow> cfg_configmaps cfg \<noteq> [] \<and>
        (\<forall>r \<in> set (cfg_configmaps cfg). on_secondary cfg (cms (world p)) r)"
      using exact[OF up] False by simp
  qed (use False cluster sound in auto)
qed

text \<open>
  C24: Adoption at startup is exact. The reconcile changes no object. It claims the switched state only
  when there is a secondary and a target and every ConfigMap target holds the secondary, whatever
  reads fail, and it never leaves a ConfigMap that is not on the secondary out of the pending list;
  when the API serves what it stores, the list is exactly those ConfigMaps, in order.
\<close>

theorem reconcile_exact:
  assumes "api_documented api cms deps"
    and "reconcile_already_switched api (cfg_configmaps cfg) (cfg_key cfg) (cfg_secondary cfg) p = ((switched, stale), p')"
  shows "cms (world p') = cms (world p) \<and> deps (world p') = deps (world p) \<and>
     (switched \<longrightarrow> cfg_secondary cfg \<noteq> [] \<and> cfg_configmaps cfg \<noteq> [] \<and>
        (\<forall>r \<in> set (cfg_configmaps cfg). on_secondary cfg (cms (world p)) r)) \<and>
     (cfg_secondary cfg \<noteq> [] \<longrightarrow>
        (\<forall>r \<in> set (cfg_configmaps cfg). \<not> on_secondary cfg (cms (world p)) r \<longrightarrow> r \<in> set stale)) \<and>
     (api_serves api cms P \<and> P (world p) \<and> cfg_secondary cfg \<noteq> [] \<longrightarrow>
        stale = filter (\<lambda>r. \<not> on_secondary cfg (cms (world p)) r) (cfg_configmaps cfg) \<and>
        (switched \<longleftrightarrow> cfg_configmaps cfg \<noteq> [] \<and>
           (\<forall>r \<in> set (cfg_configmaps cfg). on_secondary cfg (cms (world p)) r)))"
  using assms by (rule reconcile_doc)

text \<open>The store of the small deployment, when no call is refused.\<close>

definition mem_up :: "mem \<Rightarrow> bool" where
  "mem_up w \<longleftrightarrow> mem_refuses w = [] \<and> (\<forall>k c. mem_cms w k = Some c \<longrightarrow> cm_name c = snd k)"

lemma mem_api_serves: "api_serves mem_api mem_cms mem_up"
  by (fastforce simp: api_serves_def mem_up_def mem_calls split: option.split)

lemma app_mem_up: "mem_up (app_mem cm dep [])"
  by (simp add: mem_up_def app_mem_def app_cm_def)

theorem reconcile_exact_witness:
  "fst (fst (reconcile_already_switched mem_api (cfg_configmaps (app_config False)) (cfg_key (app_config False))
     (cfg_secondary (app_config False)) (idle (app_mem ''dr'' [] []))))"
proof -
  obtain s st q where r: "reconcile_already_switched mem_api (cfg_configmaps (app_config False)) (cfg_key (app_config False))
     (cfg_secondary (app_config False)) (idle (app_mem ''dr'' [] [])) = ((s, st), q)" by (metis prod.collapse)
  have "\<forall>r \<in> set (cfg_configmaps (app_config False)). on_secondary (app_config False) (mem_cms (app_mem ''dr'' [] [])) r"
    "cfg_secondary (app_config False) \<noteq> []" "cfg_configmaps (app_config False) \<noteq> []"
    by (simp_all add: app_config_def on_secondary_def app_mem_def app_cm_def ref_key_def key_of_def)
  then have s using reconcile_exact[OF mem_api_documented r, of mem_up] mem_api_serves app_mem_up by (simp add: idle_def)
  then show ?thesis by (simp add: r)
qed

section \<open>The Kubernetes part of the startup\<close>

definition read_failed_line :: "log_entry \<Rightarrow> bool" where
  "read_failed_line e \<longleftrightarrow> (\<exists>r err. le_level e = LevelInfo \<and>
     le_event e = ''startup configmap read failed for '' @ ref_string r @ '' (assuming not switched): '' @ err)"

lemma stale_refs_lines:
  "stale_refs api key sec refs p = (stale, p') \<Longrightarrow> list_all Q (logs p) \<Longrightarrow> (\<And>e. read_failed_line e \<Longrightarrow> Q e) \<Longrightarrow>
   list_all Q (logs p')"
proof (induction refs arbitrary: p stale)
  case (Cons r rs)
  from Cons.prems(1) show ?case
  proof (cases rule: stale_refs_consE)
    case (failed e p1 st)
    have "read_failed_line \<lparr>le_level = LevelInfo, le_event = ''startup configmap read failed for '' @ ref_string r @
        '' (assuming not switched): '' @ e, le_attrs = []\<rparr>"
      unfolding read_failed_line_def by (intro exI conjI) (simp_all only: log_entry.simps)
    moreover have "logs p1 = logs p" using failed(1) by (auto simp: outside_eq)
    ultimately show ?thesis
      using Cons.prems(2,3) by (intro Cons.IH[OF failed(2)]) (simp_all only: log_event_frame list_all_append list.pred_inject simp_thms)
  next
    case (read c p1 st)
    then show ?thesis using Cons.prems(2,3) by (intro Cons.IH[OF read(2)]) (auto simp: outside_eq)
  qed
qed simp

lemma k8s_config_simps [simp]:
  "cfg_configmaps (k8s_config cfg) = lc_cm_refs cfg" "cfg_key (k8s_config cfg) = lc_config_key cfg"
  "cfg_deployments (k8s_config cfg) = lc_dep_refs cfg" "cfg_secondary (k8s_config cfg) = lc_secondary cfg"
  "cfg_dry_run (k8s_config cfg) = lc_dry_run cfg"
  by (simp_all add: k8s_config_def)

text \<open>The startup's Kubernetes part: one reconcile between lines.\<close>

lemma start_k8s_cases:
  assumes "start_k8s env cfg p = (switched, p')"
  obtains
    (off) "\<not> act_k8s (lc_acts cfg)" "\<not> switched" "p' = p"
  | (on) p1 stale p2 where "act_k8s (lc_acts cfg)" "emits {} p p1" "world p1 = world p"
      "reconcile_already_switched (en_api env) (lc_cm_refs cfg) (lc_config_key cfg) (lc_secondary cfg) p1 =
         ((switched, stale), p2)"
      "emits {} p2 p'" "world p' = world p2"
proof (cases "act_k8s (lc_acts cfg)")
  case False
  then show ?thesis using assms by (intro off) (auto simp: start_k8s_def)
next
  case True
  define p1 where "p1 = (let unpaired = unpaired_namespaces (lc_cm_refs cfg) (lc_dep_refs cfg)
    in if unpaired \<noteq> [] then
         log_event LevelWarn ''target_namespace_unpaired''
           [(''namespaces'', AStr (join '' '' unpaired)), (''count'', AInt (int (length unpaired)))] p
       else p)"
  obtain sw stale p2 where rec:
    "reconcile_already_switched (en_api env) (lc_cm_refs cfg) (lc_config_key cfg) (lc_secondary cfg) p1 = ((sw, stale), p2)"
    by (metis prod.collapse)
  have "emits {} p p1" "world p1 = world p"
    by (auto simp: p1_def Let_def intro!: emits_log known_loop_events)
  moreover have "sw = switched \<and> emits {} p2 p' \<and> world p' = world p2"
    using assms True rec[unfolded p1_def]
    by (auto simp: start_k8s_def Let_def intro!: emits_log known_loop_events split: if_splits)
  ultimately show ?thesis using True rec by (intro on[of p1 stale p2]) auto
qed

lemma start_k8s_metrics: "start_k8s env cfg p = (switched, p') \<Longrightarrow> metrics p' = metrics p"
  by (erule start_k8s_cases)
     (auto simp: reconcile_already_switched_def emits_def dest!: stale_refs_frame split: if_splits prod.splits)

lemma start_k8s_lines:
  assumes "start_k8s env cfg p = (switched, p')" "list_all Q (logs p)"
    and "\<And>e. rendered e \<Longrightarrow> Q e" "\<And>e. read_failed_line e \<Longrightarrow> Q e"
  shows "list_all Q (logs p')"
  using assms(1)
proof (cases rule: start_k8s_cases)
  case (on p1 stale p2)
  have "list_all Q (logs p1)" using emits_logs[OF on(2) assms(2,3)] .
  then have "list_all Q (logs p2)"
    using on(4) assms(4) by (auto simp: reconcile_already_switched_def split: if_splits prod.splits
        dest!: stale_refs_lines[where Q = Q])
  from emits_logs[OF on(5) this assms(3)] show ?thesis .
qed (use assms(2) in simp)

end
