(* ===== verification/Poll_Properties.thy ===== *)
theory Poll_Properties
  imports Poll_Startup
begin

text \<open>
  The properties of the active observer: the invariants of its reachable states by rule induction
  over \<open>reachable\<close>, the refinement of its state machine by the history of its verdicts, and what a
  tick may do to the cluster.
\<close>

section \<open>A small deployment\<close>

text \<open>One node per cluster: the primary's key-value service does not answer, the secondary's does.\<close>

definition demo_prober :: "ping_state \<Rightarrow> ('w, gostring) gocb_prober" where
  "demo_prober st =
     \<lparr>gp_cluster = \<lambda>opts w. (Inr [], w),
      gp_bucket = Some (\<lambda>opts w. (Inr [(KeyValue, [\<lparr>er_remote = ''10.0.0.1:11210'', er_state = st\<rparr>])], w)),
      gp_timeout = 5 * second\<rparr>"

definition demo_env :: "(mem, gostring) loop_env" where
  "demo_env =
     \<lparr>en_now = \<lambda>w. (0, w), en_primary = demo_prober PingTimeout, en_connect = Inr (demo_prober PingOk),
      en_api = mem_api, en_stamp = \<lambda>_. ''t'',
      en_http = \<lparr>http_do = \<lambda>rq w. (Inr 200, w), http_wait = \<lambda>d w. (None, w), http_now = \<lambda>w. (0, w)\<rparr>,
      en_float = \<lambda>_. ''0''\<rparr>"

definition demo_cfg :: "bool \<Rightarrow> loop_config" where
  "demo_cfg dry =
     \<lparr>lc_conn = ''main'', lc_secondary = ''dr'', lc_critical = [''kv''], lc_config_key = ''conn'',
      lc_cm_refs = [\<lparr>ref_namespace = ''a'', ref_name = ''cfg''\<rparr>],
      lc_dep_refs = [\<lparr>ref_namespace = ''a'', ref_name = ''api''\<rparr>], lc_dry_run = dry, lc_failover_delay = 0,
      lc_acts = \<lparr>act_k8s = True, act_webhook = False\<rparr>, lc_webhook = hook 0,
      lc_webhook_client = \<lparr>hc_trust = SystemRoots, hc_timeout = second\<rparr>\<rparr>"

definition demo_start :: "bool \<Rightarrow> (mem, gostring) observer" where
  "demo_start dry = start_loop demo_env (demo_cfg dry) (idle (app_mem ''main'' [] []))"

lemma before_loop_idle: "before_loop (idle w)"
  by (simp add: before_loop_def idle_def)

lemma demo_reachable: "reachable demo_env (demo_cfg dry) (demo_start dry)"
  unfolding demo_start_def by (rule reachable.start[OF before_loop_idle])

section \<open>Well-formed observers\<close>

text \<open>
  The locals that name or read a cluster agree: either all of them are the primary's, or all are the
  secondary's and the machine is switched.
\<close>

definition observer_ok :: "('w, 'e) loop_env \<Rightarrow> loop_config \<Rightarrow> ('w, 'e) observer \<Rightarrow> bool" where
  "observer_ok env cfg ob \<longleftrightarrow>
     (ob_role ob = ''primary'' \<and> ob_disp ob = primary_disp cfg \<and> ob_region ob = region_label (lc_conn cfg) \<and>
        ap_target (ob_active ob) = Some (en_primary env) \<and>
        (m_switched (ob_machine ob) \<longrightarrow> lc_dry_run cfg \<or> secondary_prober env cfg = None) \<or>
      ob_role ob = ''secondary'' \<and> ob_disp ob = secondary_disp cfg \<and> ob_region ob = region_label (lc_secondary cfg) \<and>
        (\<exists>g. secondary_prober env cfg = Some g \<and> ap_target (ob_active ob) = Some g) \<and>
        m_switched (ob_machine ob))"

lemma observer_ok_in_world [simp]: "observer_ok env cfg (in_world w ob) = observer_ok env cfg ob"
  by (simp add: observer_ok_def)

lemma observer_ok_start: "observer_ok env cfg (start_loop env cfg p)"
  by (cases rule: start_loop_cases[of env cfg p])
     (auto simp: observer_ok_def new_active_prober_def new_machine_def)

lemma observer_ok_tick:
  assumes "observer_ok env cfg ob" "tick env cfg ob = Some ob'"
  shows "observer_ok env cfg ob'"
  using assms(2)
proof (cases rule: tick_cases)
  case (plain t status)
  then show ?thesis using assms(1) by (simp add: observer_ok_def observe_simps)
next
  case (latched t g ob1)
  then show ?thesis
    using assms(1) by (auto simp: observer_ok_def observe_required active_set_def observe_simps)
qed

lemma reachable_ok: "reachable env cfg ob \<Longrightarrow> observer_ok env cfg ob"
proof (induction rule: reachable.induct)
  case (tick ob w ob')
  then show ?case using observer_ok_tick[of env cfg "in_world w ob" ob'] by simp
qed (rule observer_ok_start)

lemma ok_target:
  assumes "observer_ok env cfg ob"
  obtains g where "ap_target (ob_active ob) = Some g" "target_known env cfg g"
  using assms by (auto simp: observer_ok_def target_known_def)

text \<open>
  C4: The labels follow the prober. In every state an active observer reaches, whatever the world does
  between ticks, its role, its display name, its region label and its probe target name one and the
  same cluster; it reports the secondary only after a switch; and after a switch it reports the
  primary only in dry-run or when the secondary cannot be probed at all.
\<close>

theorem labels_follow_prober:
  assumes "reachable env cfg ob"
  shows "ob_role ob = ''primary'' \<and> ob_disp ob = primary_disp cfg \<and> ob_region ob = region_label (lc_conn cfg) \<and>
        ap_target (ob_active ob) = Some (en_primary env) \<and>
        (m_switched (ob_machine ob) \<longrightarrow> lc_dry_run cfg \<or> secondary_prober env cfg = None) \<or>
      ob_role ob = ''secondary'' \<and> ob_disp ob = secondary_disp cfg \<and> ob_region ob = region_label (lc_secondary cfg) \<and>
        secondary_prober env cfg \<noteq> None \<and> ap_target (ob_active ob) = secondary_prober env cfg \<and>
        m_switched (ob_machine ob)"
  using reachable_ok[OF assms] by (auto simp: observer_ok_def)


section \<open>The self probes\<close>

text \<open>
  The self probes follow the loop. A process that has not ticked is live and not ready. After a tick
  that started at instant \<open>t\<close>, it is ready as soon as the API answers, and the liveness handler fails
  exactly for a reading more than the allowed age after \<open>t\<close>.
\<close>

theorem self_probes_follow_loop:
  assumes "reachable env cfg ob" and "fst (en_now env w) = t" and "t \<noteq> 0" and "is_duration t" and "is_duration (now - t)"
  shows "ready_check (ob_first_eval (start_loop env cfg p)) k8s e \<noteq> None \<and>
     liveness (Some (ob_heartbeat (start_loop env cfg p))) max_age now = 200 \<and>
     (\<exists>ob'. tick env cfg (in_world w ob) = Some ob' \<and>
        (ready_check (ob_first_eval ob') k8s e = None \<longleftrightarrow> \<not> k8s \<or> e = None) \<and>
        (liveness (Some (ob_heartbeat ob')) max_age now = 503 \<longleftrightarrow> max_age < now - t))"
proof -
  obtain g where g: "ap_target (ob_active (in_world w ob)) = Some g"
    using reachable_ok[OF assms(1)] by (auto elim: ok_target)
  then have "tick env cfg (in_world w ob) \<noteq> None" by (simp add: tick_def split: prod.split)
  then obtain ob' where t: "tick env cfg (in_world w ob) = Some ob'" by blast
  note hb = tick_last_status(2,3)[OF t g]
  have start: "ob_heartbeat (start_loop env cfg p) = 0" "\<not> ob_first_eval (start_loop env cfg p)"
    by (cases rule: start_loop_cases[of env cfg p]; simp)+
  have "ready_check (ob_first_eval ob') k8s e = None \<longleftrightarrow> \<not> k8s \<or> e = None"
    using hb(2) by (simp add: ready_check_def)
  moreover have "liveness (Some (ob_heartbeat ob')) max_age now = 503 \<longleftrightarrow> max_age < now - t"
    using hb(1) assms(2-5)
    by (simp add: liveness_def ticked_def tick_at_def heartbeat_age_def time_sub_def wrap64_id sat64_id)
  ultimately show ?thesis
    using t start by (auto simp: ready_check_def liveness_def ticked_def)
qed

section \<open>The machine and its history\<close>


section \<open>The cluster\<close>

lemma switch_deps_keep:
  assumes "env_keeps (\<lambda>w. (cms w, deps w)) env"
  shows "leaves_cluster cms deps (\<lambda>w. snd (en_now env w))"
    "notify_leaves_cluster cms deps (sd_notifier (switch_deps_of env cfg))"
proof -
  show "leaves_cluster cms deps (\<lambda>w. snd (en_now env w))"
    using env_keeps_clock[OF assms] by (simp add: leaves_cluster_def)
  show "notify_leaves_cluster cms deps (sd_notifier (switch_deps_of env cfg))"
    using http_notify_keeps[OF env_keeps_http[OF assms]]
    by (auto simp: notify_leaves_cluster_def switch_deps_of_def)
qed

lemma k8s_switch_keys:
  assumes "api_documented api cms deps" "k8s_switch api cfg now p = ((sw, err), p')"
  shows "same_but_key cfg (cms (world p) k) (cms (world p') k)"
  using assms by (cases rule: k8s_switch_cases) (simp_all add: patch_rel_keys)

text \<open>What a decision of the loop does to the cluster.\<close>

lemma decision_cluster:
  assumes "env_keeps (\<lambda>w. (cms w, deps w)) env" "api_documented (en_api env) cms deps"
    and "run_switch (en_now env) (switch_deps_of env cfg) info ev p = (latch, q)"
  shows "(\<not> act_k8s (lc_acts cfg) \<or> lc_dry_run cfg \<longrightarrow> cms (world q) = cms (world p) \<and> deps (world q) = deps (world p)) \<and>
     (latch \<and> act_k8s (lc_acts cfg) \<and> \<not> lc_dry_run cfg \<longrightarrow> all_moved (k8s_config cfg) (cms (world q)) (deps (world q))) \<and>
     (\<forall>k. same_but_key (k8s_config cfg) (cms (world p) k) (cms (world q) k))"
proof -
  note keep = switch_deps_keep(1)[OF assms(1)] switch_deps_keep(2)[OF assms(1), of cfg]
  have d: "sd_act (switch_deps_of env cfg) =
      (if act_k8s (lc_acts cfg) then Some (\<lambda>p. k8s_switch (en_api env) (k8s_config cfg) (en_stamp env (world p)) p) else None)"
    by (auto simp: switch_deps_of_def k8s_act_def)
  obtain sw err p' where k: "k8s_switch (en_api env) (k8s_config cfg) (en_stamp env (world p)) p = ((sw, err), p')"
    by (metis prod.collapse)
  have "cms (world q) = cms (world p) \<and> deps (world q) = deps (world p)" if "\<not> act_k8s (lc_acts cfg) \<or> lc_dry_run cfg"
  proof (cases "act_k8s (lc_acts cfg)")
    case True
    then have "cfg_dry_run (k8s_config cfg)" using that by (simp add: k8s_config_def)
    from k8s_switch_dry[OF assms(2) k this] show ?thesis
      using run_switch_cluster[OF keep, of info ev p] assms(3) True by (simp add: d k)
  next
    case False
    then show ?thesis using run_switch_cluster[OF keep, of info ev p] assms(3) by (simp add: d)
  qed
  moreover have "all_moved (k8s_config cfg) (cms (world q)) (deps (world q))"
    if "latch" "act_k8s (lc_acts cfg)" "\<not> lc_dry_run cfg"
    using conjunct1[OF run_switch_moved[OF keep, of info ev p "en_api env" "k8s_config cfg" "\<lambda>p. en_stamp env (world p)"]]
      assms(2,3) that by (simp add: d k8s_config_def)
  moreover have "same_but_key (k8s_config cfg) (cms (world p) k) (cms (world q) k)" for k
    using run_switch_cluster[OF keep, of info ev p] assms(3) k8s_switch_keys[OF assms(2) k, of k]
    by (cases "act_k8s (lc_acts cfg)") (simp_all add: d k)
  ultimately show ?thesis by blast
qed

text \<open>A tick, on the cluster: nothing, or one decision in a state that warrants it.\<close>

lemma tick_cluster_cases:
  assumes "observer_ok env cfg ob" "tick env cfg ob = Some ob'" "env_keeps v env"
  obtains
    (quiet) "v (world (ob_proc ob')) = v (world (ob_proc ob))" "m_switched (ob_machine ob') = m_switched (ob_machine ob)"
  | (decided) t w2 g p info ev latch q where "\<not> m_switched (ob_machine ob)" "ob_last_status ob' = DOWN"
      "t = fst (en_now env w2)" "failover_delay (m_cfg (ob_machine ob)) \<le> time_sub t (m_first_down_at (ob_machine ob'))"
      "lc_secondary cfg \<noteq> []" "secondary_prober env cfg = Some g"
      "shown (metrics (ob_proc ob')) SecondaryUp = Some 1"
      "v (world p) = v (world (ob_proc ob))" "world (ob_proc ob') = world q"
      "run_switch (en_now env) (switch_deps_of env cfg) info ev p = (latch, q)"
      "m_switched (ob_machine ob') = latch"
proof -
  from assms(2) obtain g0 probes rep res ob1 where ph: "ap_target (ob_active ob) = Some g0"
    "tick_verdict env cfg g0 ob = ((probes, rep, res), ob1)"
    "tick_switch env cfg probes rep res (tick_report env cfg probes rep res ob1) = ob'"
    by (rule tick_phases)
  have known: "target_known env cfg g0" using assms(1) ph(1) by (auto elim: ok_target)
  define ob2 where "ob2 = tick_report env cfg probes rep res ob1"
  note r = tick_report_frame[OF ob2_def[symmetric]]
  from ph(2) obtain t w2 where m: "observe t (rep_status rep) (ob_machine ob) = (res, ob_machine ob1)"
    and t: "t = fst (en_now env w2)"
    and keep: "env_keeps v env \<and> target_known env cfg g0 \<longrightarrow>
       v (world (ob_proc ob1)) = v (world (ob_proc ob)) \<and> v w2 = v (world (ob_proc ob))"
    by (rule tick_verdict_cases)
  have m1: "ob_machine ob1 = snd (observe t (rep_status rep) (ob_machine ob))"
    and res: "res = fst (observe t (rep_status rep) (ob_machine ob))" using m by simp_all
  have k2: "v (world (ob_proc ob2)) = v (world (ob_proc ob))"
    using keep known assms(3) r(11)[OF assms(3)] by simp
  from ph(3)[folded ob2_def] show thesis
  proof (cases rule: tick_switch_cases[where v = v and g = g0])
    case (idle q)
    then show ?thesis using k2 assms(3) r(1) m1 by (intro quiet) (auto simp: observe_simps)
  next
    case (attempt g p info ev latch q)
    have req: "rep_status rep = DOWN" "\<not> m_switched (ob_machine ob)"
      "failover_delay (m_cfg (ob_machine ob)) \<le> time_sub t (m_first_down_at (ob_machine ob2))"
      using attempt(1) by (auto simp: res observe_required r(1) m1 observe_simps split: if_splits)
    have "emits actuation_series p q"
      using run_switch_emits[OF switch_deps_emit, of p "en_now env" env cfg info ev] attempt(7) by simp
    then have "shown (metrics q) SecondaryUp = Some 1"
      using attempt(5) by (simp add: emits_shown actuation_series_def)
    then have up: "shown (metrics (ob_proc ob')) SecondaryUp = Some 1"
      using attempt(8) latch_switch_emits[of cfg "ob2\<lparr>ob_proc := q\<rparr>" env]
      by (auto simp: emits_shown latch_series_def)
    show ?thesis
      by (rule decided[of t w2 g p q info ev latch])
         (use attempt req t up k2 assms(3) r m1 in \<open>auto simp: observe_simps\<close>)
  qed
qed

lemma reachable_delay: "reachable env cfg ob \<Longrightarrow> failover_delay (m_cfg (ob_machine ob)) = lc_failover_delay cfg"
proof (induction rule: reachable.induct)
  case (start p)
  show ?case
    by (cases rule: start_loop_cases[of env cfg p])
       (simp_all add: new_machine_def)
next
  case (tick ob w ob')
  from tick(2) show ?case
    by (cases rule: tick_cases) (use tick(3) in \<open>auto simp: observe_simps\<close>)
qed


lemma latch_leaves_moved:
  assumes "reachable env cfg ob" "tick env cfg (in_world w ob) = Some ob'"
    and "env_keeps (\<lambda>w. (cms w, deps w)) env" "api_documented (en_api env) cms deps"
    and "\<not> m_switched (ob_machine ob)" "m_switched (ob_machine ob')" "act_k8s (lc_acts cfg)" "\<not> lc_dry_run cfg"
  shows "all_moved (k8s_config cfg) (cms (world (ob_proc ob'))) (deps (world (ob_proc ob')))"
    and "same_but_key (k8s_config cfg) (cms w k) (cms (world (ob_proc ob')) k)"
    and "lc_secondary cfg \<noteq> []" and "secondary_prober env cfg \<noteq> None"
    and "shown (metrics (ob_proc ob')) SecondaryUp = Some 1"
proof -
  have ok: "observer_ok env cfg (in_world w ob)" using reachable_ok[OF assms(1)] by simp
  from ok assms(2,3) have "all_moved (k8s_config cfg) (cms (world (ob_proc ob'))) (deps (world (ob_proc ob'))) \<and>
      same_but_key (k8s_config cfg) (cms w k) (cms (world (ob_proc ob')) k) \<and> lc_secondary cfg \<noteq> [] \<and>
      secondary_prober env cfg \<noteq> None \<and> shown (metrics (ob_proc ob')) SecondaryUp = Some 1"
  proof (cases rule: tick_cluster_cases)
    case quiet
    then show ?thesis using assms(5,6) by simp
  next
    case (decided t w2 g p info ev latch q)
    then show ?thesis using decision_cluster[OF assms(3,4) decided(10)] assms(6-8) by (cases k) simp
  qed
  then show "all_moved (k8s_config cfg) (cms (world (ob_proc ob'))) (deps (world (ob_proc ob')))"
    "same_but_key (k8s_config cfg) (cms w k) (cms (world (ob_proc ob')) k)" "lc_secondary cfg \<noteq> []"
    "secondary_prober env cfg \<noteq> None" "shown (metrics (ob_proc ob')) SecondaryUp = Some 1" by simp_all
qed

text \<open>
  C6: A switch is final and complete. Once a reachable observer has switched, no later tick unlatches it,
  turns it back to the primary or changes a Kubernetes object; and the tick that latched, with the
  Kubernetes actuator on outside dry-run, left every ConfigMap target on the secondary and every
  Deployment target stamped.
\<close>

theorem switch_is_final_and_complete:
  assumes "reachable env cfg ob" and "tick env cfg (in_world w ob) = Some ob'"
    and "env_keeps (\<lambda>w. (cms w, deps w)) env" and "api_documented (en_api env) cms deps"
  shows "(m_switched (ob_machine ob) \<longrightarrow>
       m_switched (ob_machine ob') \<and> ob_role ob' = ob_role ob \<and> ob_active ob' = ob_active ob \<and>
       cms (world (ob_proc ob')) = cms w \<and> deps (world (ob_proc ob')) = deps w) \<and>
     (\<not> m_switched (ob_machine ob) \<and> m_switched (ob_machine ob') \<and> act_k8s (lc_acts cfg) \<and> \<not> lc_dry_run cfg \<longrightarrow>
       all_moved (k8s_config cfg) (cms (world (ob_proc ob'))) (deps (world (ob_proc ob'))))"
proof -
  have ok: "observer_ok env cfg (in_world w ob)" using reachable_ok[OF assms(1)] by simp
  have locals: "m_switched (ob_machine ob) \<longrightarrow> ob_role ob' = ob_role ob \<and> ob_active ob' = ob_active ob"
    using assms(2) by (cases rule: tick_cases) (auto simp: observe_required)
  have "all_moved (k8s_config cfg) (cms (world (ob_proc ob'))) (deps (world (ob_proc ob')))"
    if "\<not> m_switched (ob_machine ob)" "m_switched (ob_machine ob')" "act_k8s (lc_acts cfg)" "\<not> lc_dry_run cfg"
    using latch_leaves_moved(1)[OF assms that] .
  moreover have "m_switched (ob_machine ob') \<and> cms (world (ob_proc ob')) = cms w \<and> deps (world (ob_proc ob')) = deps w"
    if "m_switched (ob_machine ob)"
    using ok assms(2,3) by (cases rule: tick_cluster_cases) (use that in simp_all)
  ultimately show ?thesis using locals by blast
qed

section \<open>The lines of the log\<close>

text \<open>
  C33: Every line has a template. Every record an active observer ever hands to the logger is one of the
  events \<open>renderEvent\<close> has a case for, so none falls to the raw dump, except the two lines that
  \<open>log.Printf\<close> writes: for a ConfigMap the startup could not read, and for a TLS certificate it ignores.
\<close>

theorem every_line_has_a_template:
  assumes "reachable env cfg ob"
  shows "list_all (\<lambda>e. le_event e \<in> set known_events \<or> read_failed_line e \<or> tls_warning e) (logs (ob_proc ob))"
  using assms
proof (induction rule: reachable.induct)
  case (start p)
  let ?Q = "\<lambda>e. le_event e \<in> set known_events \<or> read_failed_line e \<or> tls_warning e"
  have Q: "rendered e \<Longrightarrow> ?Q e" for e by (simp add: rendered_def)
  have first: "list_all ?Q (logs p)" using start by (auto simp: before_loop_def list_all_iff)
  show ?case
  proof (cases rule: start_loop_cases[of env cfg p])
    case (fresh switched p1 q)
    have "list_all ?Q (logs p1)" by (rule start_k8s_lines[OF fresh(1) first]) (simp_all add: rendered_def)
    from emits_logs[OF fresh(4) this Q] show ?thesis by (simp add: fresh(3))
  next
    case (adopted g p1 q)
    have "list_all ?Q (logs p1)" by (rule start_k8s_lines[OF adopted(1) first]) (simp_all add: rendered_def)
    from emits_logs[OF adopted(4) this Q] show ?thesis by (simp add: adopted(3))
  qed
next
  case (tick ob w ob')
  let ?Q = "\<lambda>e. le_event e \<in> set known_events \<or> read_failed_line e \<or> tls_warning e"
  have Q: "rendered e \<Longrightarrow> ?Q e" for e by (simp add: rendered_def)
  have IH: "list_all ?Q (logs (ob_proc (in_world w ob)))" using tick.IH by simp
  from tick(2) show ?case
  proof (cases rule: tick_cases)
    case (plain t status)
    show ?thesis by (rule emits_logs[OF plain(9) IH Q])
  next
    case (latched t g ob1)
    from emits_logs[OF latched(11) IH Q] have "list_all ?Q (logs (ob_proc ob1))" .
    from emits_logs[OF latch_switch_emits this Q] show ?thesis by (simp add: latched(12))
  qed
qed

section \<open>The metrics\<close>

lemma shown_append_calls: "shown (cs @ ds) = foldl (\<lambda>m c. apply_metric c m) (shown cs) ds"
  by (simp add: shown_def)

lemma shown_nothing [simp]: "shown [] s = None"
  by (simp add: shown_def)

definition series_ok :: "loop_config \<Rightarrow> ('w, 'e) observer \<Rightarrow> bool" where
  "series_ok cfg ob \<longleftrightarrow>
     (\<forall>r. shown (metrics (ob_proc ob)) (CouchbaseUp r) \<noteq> None \<longrightarrow> r = ob_region ob) \<and>
     (\<forall>r. shown (metrics (ob_proc ob)) (ActiveRegion r) = Some 1 \<longleftrightarrow>
        r = region_label (if m_switched (ob_machine ob) then lc_secondary cfg else lc_conn cfg))"

lemma first_region_shown:
  assumes "emits {ActiveRegion x} p q" "metrics p = []" "shown (metrics q) (ActiveRegion x) = Some 1"
  shows "shown (metrics q) (ActiveRegion r) = Some 1 \<longleftrightarrow> r = x" "shown (metrics q) (CouchbaseUp r) = None"
  using emits_shown[OF assms(1), of "ActiveRegion r"] emits_shown[OF assms(1), of "CouchbaseUp r"] assms(2,3)
  by (cases "r = x"; simp)+

lemma series_ok_start:
  assumes "before_loop p"
  shows "series_ok cfg (start_loop env cfg p)"
proof (cases rule: start_loop_cases[of env cfg p])
  case (fresh switched p1 q)
  have "metrics p1 = []" using start_k8s_metrics[OF fresh(1)] assms by (simp add: before_loop_def)
  note s = first_region_shown[OF fresh(4) this fresh(5)]
  show ?thesis by (simp add: series_ok_def fresh(3) new_machine_def s)
next
  case (adopted g p1 q)
  have "metrics p1 = []" using start_k8s_metrics[OF adopted(1)] assms by (simp add: before_loop_def)
  note s = first_region_shown[OF adopted(4) this adopted(5)]
  show ?thesis by (simp add: series_ok_def adopted(3) new_machine_def s)
qed

lemma tick_series_other: "CouchbaseUp r \<in> tick_series region \<longleftrightarrow> r = region" "ActiveRegion r \<notin> tick_series region"
  by (auto simp: tick_series_def verdict_series_def actuation_series_def)

lemma series_ok_tick:
  assumes "observer_ok env cfg ob" "series_ok cfg ob" "tick env cfg ob = Some ob'"
  shows "series_ok cfg ob'"
proof -
  have keep: "shown (metrics q) (ActiveRegion r) = shown (metrics (ob_proc ob)) (ActiveRegion r)"
    "r \<noteq> ob_region ob \<Longrightarrow> shown (metrics q) (CouchbaseUp r) = shown (metrics (ob_proc ob)) (CouchbaseUp r)"
    if "emits (tick_series (ob_region ob)) (ob_proc ob) q" for q r
    using emits_shown[OF that] by (simp_all add: tick_series_other)
  from assms(3) show ?thesis
  proof (cases rule: tick_cases)
    case (plain t status)
    then show ?thesis
      using keep[OF plain(9)] assms(2) by (auto simp: series_ok_def observe_simps)
  next
    case (latched t g ob1)
    have un: "\<not> m_switched (ob_machine ob)" using latched(3) by (simp add: observe_required)
    then have region: "ob_region ob = region_label (lc_conn cfg)" using assms(1) by (auto simp: observer_ok_def)
    have sw: "m_switched (ob_machine ob')" by (simp add: latched(12))
    show ?thesis
      using keep[OF latched(11)] assms(2) un region sw latched(10)
      by (auto simp: series_ok_def latched(12) latch_switch_metrics shown_append_calls)
  qed
qed

lemma reachable_series_ok: "reachable env cfg ob \<Longrightarrow> series_ok cfg ob"
proof (induction rule: reachable.induct)
  case (tick ob w ob')
  then show ?case
    using series_ok_tick[of env cfg "in_world w ob" ob'] reachable_ok[OF tick(1)] by (simp add: series_ok_def)
qed (rule series_ok_start)


section \<open>Restarts\<close>

lemma start_adopts:
  assumes "api_documented (en_api env) cms deps" "api_serves (en_api env) cms P" "P (world p)"
    and "act_k8s (lc_acts cfg)" "lc_cm_refs cfg \<noteq> []" "lc_secondary cfg \<noteq> []"
    and "\<forall>r \<in> set (lc_cm_refs cfg). on_secondary (k8s_config cfg) (cms (world p)) r"
  shows "m_switched (ob_machine (start_loop env cfg p))"
    and "secondary_prober env cfg = Some g \<Longrightarrow> ob_role (start_loop env cfg p) = ''secondary'' \<and>
       ap_target (ob_active (start_loop env cfg p)) = Some g"
proof -
  obtain switched p1 where k: "start_k8s env cfg p = (switched, p1)" by force
  then have sw: switched
  proof (cases rule: start_k8s_cases)
    case (on p0 stale p2)
    have "reconcile_already_switched (en_api env) (cfg_configmaps (k8s_config cfg)) (cfg_key (k8s_config cfg))
        (cfg_secondary (k8s_config cfg)) p0 = ((switched, stale), p2)" using on(4) by simp
    from reconcile_doc[OF assms(1) this, of P] show ?thesis
      using assms(2-7) on(3) by simp
  qed (use assms(4) in simp)
  show "m_switched (ob_machine (start_loop env cfg p))"
    by (cases rule: start_loop_cases[of env cfg p]) (use k sw in \<open>simp_all add: new_machine_def\<close>)
  show "ob_role (start_loop env cfg p) = ''secondary'' \<and> ap_target (ob_active (start_loop env cfg p)) = Some g"
    if "secondary_prober env cfg = Some g"
    by (cases rule: start_loop_cases[of env cfg p]) (use k sw that in \<open>simp_all add: new_active_prober_def\<close>)
qed

text \<open>
  C10: A switch survives the observer. If a tick latched with the Kubernetes actuator on outside dry-run,
  an observer started later with the same configuration, while the ConfigMaps are still as that tick
  left them and the API serves them, adopts the switched state, reports the secondary and probes it.
\<close>

theorem restart_adopts_switch:
  assumes "reachable env cfg ob" and "tick env cfg (in_world w ob) = Some ob'"
    and "\<not> m_switched (ob_machine ob)" and "m_switched (ob_machine ob')"
    and "env_keeps (\<lambda>w. (cms w, deps w)) env" and "api_documented (en_api env) cms deps"
    and "act_k8s (lc_acts cfg)" and "\<not> lc_dry_run cfg" and "lc_cm_refs cfg \<noteq> []"
    and "api_serves (en_api env) cms P" and "P (world p)" and "cms (world p) = cms (world (ob_proc ob'))"
  shows "m_switched (ob_machine (start_loop env cfg p)) \<and> ob_role (start_loop env cfg p) = ''secondary'' \<and>
     ap_target (ob_active (start_loop env cfg p)) = ap_target (ob_active ob')"
proof -
  note moved = latch_leaves_moved[OF assms(1,2,5,6,3,4,7,8)]
  obtain g where g: "secondary_prober env cfg = Some g" using moved(4) by blast
  have on: "\<forall>r \<in> set (lc_cm_refs cfg). on_secondary (k8s_config cfg) (cms (world p)) r"
    using moved(1) assms(12) by (simp add: all_moved_def)
  have "observer_ok env cfg ob'" using reachable.tick[OF assms(1,2)] by (rule reachable_ok)
  then have "ap_target (ob_active ob') = Some g" using assms(4,8) g by (auto simp: observer_ok_def)
  then show ?thesis
    using start_adopts[OF assms(6,10,11,7,9) moved(3) on] g by simp
qed

section \<open>Liveness\<close>

lemma outage_latches:
  assumes "reachable env cfg ob" and "tick env cfg (in_world w ob) = Some ob'" and "env_keeps v env"
    and "ob_last_status ob' = DOWN" and "\<not> m_switched (ob_machine ob)"
    and "lc_secondary cfg \<noteq> []" and "secondary_prober env cfg = Some g"
    and "\<And>w2. v w2 = v w \<Longrightarrow> lc_failover_delay cfg \<le> time_sub (fst (en_now env w2)) (m_first_down_at (ob_machine ob'))"
    and "\<And>w2 t. v w2 = v w \<Longrightarrow> rep_status (compute (fst (fst (gocb_probe g w2))) (lc_critical cfg) t) \<noteq> DOWN"
    and "\<And>p ev. v (world p) = v w \<Longrightarrow>
       (if act_k8s (lc_acts cfg) then snd (fst (k8s_act env cfg p)) = None
        else act_webhook (lc_acts cfg) \<longrightarrow> fst (http_notify (en_float env) (en_http env) (notifier_of cfg) ev p) = None)"
  shows "m_switched (ob_machine ob')"
proof -
  have ok: "observer_ok env cfg (in_world w ob)" using reachable_ok[OF assms(1)] by simp
  from assms(2) obtain g0 probes rep res ob1 where ph: "ap_target (ob_active (in_world w ob)) = Some g0"
    "tick_verdict env cfg g0 (in_world w ob) = ((probes, rep, res), ob1)"
    "tick_switch env cfg probes rep res (tick_report env cfg probes rep res ob1) = ob'"
    by (rule tick_phases)
  have known: "target_known env cfg g0" using ok ph(1) by (auto elim: ok_target)
  define ob2 where "ob2 = tick_report env cfg probes rep res ob1"
  note r = tick_report_frame[OF ob2_def[symmetric]]
  from ph(2) obtain t w2 where m: "observe t (rep_status rep) (ob_machine (in_world w ob)) = (res, ob_machine ob1)"
    and t: "t = fst (en_now env w2)"
    and keep: "env_keeps v env \<and> target_known env cfg g0 \<longrightarrow>
       v (world (ob_proc ob1)) = v (world (ob_proc (in_world w ob))) \<and> v w2 = v (world (ob_proc (in_world w ob)))"
    by (rule tick_verdict_cases)
  have m1: "ob_machine ob1 = snd (observe t (rep_status rep) (ob_machine ob))"
    and res: "res = fst (observe t (rep_status rep) (ob_machine ob))" using m by simp_all
  have w2: "v w2 = v w" and k2: "v (world (ob_proc ob2)) = v w"
    using keep known assms(3) r(11)[OF assms(3)] by simp_all
  have req: "res_switch_required res"
    if "ob_last_status ob' = rep_status rep" "m_first_down_at (ob_machine ob') = m_first_down_at (ob_machine ob2)"
    using assms(4,5) assms(8)[OF w2] that reachable_delay[OF assms(1)]
    by (auto simp: res observe_required t r(1) m1 observe_simps split: if_splits)
  from ph(3)[folded ob2_def] show ?thesis
  proof (cases rule: tick_switch_cases[where v = v and g = g])
    case (idle q)
    have "res_switch_required res" using idle(1) r(6) by (intro req) simp_all
    from idle(3)[OF this assms(6,7)] show ?thesis using assms(9)[OF k2] by blast
  next
    case (attempt g' p info ev latch q)
    have vp: "v (world p) = v w" using attempt(6) assms(3) k2 by simp
    have "fst (run_switch (en_now env) (switch_deps_of env cfg) info ev p)"
      using assms(10)[OF vp, of ev] by (auto simp: run_switch_latch switch_deps_of_def split: if_splits)
    then have latch by (simp add: attempt(7))
    then show ?thesis by (simp add: attempt(8))
  qed
qed

text \<open>
  C8: A sustained outage moves the applications. When a reachable, unswitched observer sees the verdict
  \<open>DOWN\<close> and every clock reading of this tick is at least the failover delay after the start of the
  outage, a secondary is configured and answers better than \<open>DOWN\<close>, and the enabled actuation path
  reports no error, then this very tick latches the switch. The world may be anything the view \<open>v\<close>
  does not fix.
\<close>

theorem sustained_outage_is_switched:
  assumes "reachable env cfg ob" and "tick env cfg (in_world w ob) = Some ob'" and "env_keeps v env"
    and "ob_last_status ob' = DOWN" and "\<not> m_switched (ob_machine ob)"
    and "lc_secondary cfg \<noteq> []" and "secondary_prober env cfg = Some g"
    and "\<And>w2. v w2 = v w \<Longrightarrow> lc_failover_delay cfg \<le> time_sub (fst (en_now env w2)) (m_first_down_at (ob_machine ob'))"
    and "\<And>w2 t. v w2 = v w \<Longrightarrow> rep_status (compute (fst (fst (gocb_probe g w2))) (lc_critical cfg) t) \<noteq> DOWN"
    and "\<And>p ev. v (world p) = v w \<Longrightarrow>
       (if act_k8s (lc_acts cfg) then snd (fst (k8s_act env cfg p)) = None
        else act_webhook (lc_acts cfg) \<longrightarrow> fst (http_notify (en_float env) (en_http env) (notifier_of cfg) ev p) = None)"
  shows "m_switched (ob_machine ob')"
  by (rule outage_latches[OF assms])

section \<open>The small deployment switches\<close>

lemma demo_probe:
  "gocb_probe (demo_prober st) w = (([\<lparr>pr_service = ''kv'', pr_host = host_only ''10.0.0.1:11210'', pr_ok = (st = PingOk)\<rparr>], None), w)"
  by (simp add: gocb_probe_def demo_prober_def add_ping_def report_probe_def)

lemma demo_keeps: "env_keeps v demo_env"
  by (auto simp: env_keeps_def demo_env_def http_keeps_def gocb_pings_def demo_prober_def)

lemma demo_verdict:
  "rep_status (compute (fst (fst (gocb_probe (demo_prober st) w))) [''kv''] t) = DOWN \<longleftrightarrow> st \<noteq> PingOk"
proof -
  have "host_only ''10.0.0.1:11210'' \<noteq> []" by code_simp
  then show ?thesis
    by (auto simp: demo_probe compute_down_iff svc_up_def observed_def svc_failing_def relevant_def)
qed

lemma demo_env_simps [simp]:
  "en_now demo_env w = (0, w)" "en_primary demo_env = demo_prober PingTimeout"
  "en_connect demo_env = Inr (demo_prober PingOk)" "en_api demo_env = mem_api" "en_stamp demo_env w = ''t''"
  by (simp_all add: demo_env_def)

lemma demo_cfg_simps [simp]:
  "lc_secondary (demo_cfg dry) = ''dr''" "lc_critical (demo_cfg dry) = [''kv'']" "lc_failover_delay (demo_cfg dry) = 0"
  "act_k8s (lc_acts (demo_cfg dry))" "lc_dry_run (demo_cfg dry) = dry" "lc_cm_refs (demo_cfg dry) \<noteq> []"
  "k8s_config (demo_cfg dry) = app_config dry"
  "secondary_prober demo_env (demo_cfg dry) = Some (demo_prober PingOk)"
  by (simp_all add: demo_cfg_def k8s_config_def app_config_def secondary_prober_def)

lemma demo_unswitched: "\<not> m_switched (ob_machine (demo_start dry))"
proof -
  let ?p = "idle (app_mem ''main'' [] [])"
  have off: "\<not> switched" if k: "start_k8s demo_env (demo_cfg dry) ?p = (switched, p1)" for switched p1
    using k
  proof (cases rule: start_k8s_cases)
    case (on p0 stale p2)
    have "reconcile_already_switched mem_api (cfg_configmaps (k8s_config (demo_cfg dry))) (cfg_key (k8s_config (demo_cfg dry)))
        (cfg_secondary (k8s_config (demo_cfg dry))) p0 = ((switched, stale), p2)"
      using on(4) unfolding k8s_config_simps demo_env_simps .
    from reconcile_doc[OF mem_api_documented this, of mem_up] show ?thesis
      using on(3) by (auto simp: idle_def app_config_def on_secondary_def app_mem_def app_cm_def ref_key_def key_of_def)
  qed simp
  show ?thesis
    unfolding demo_start_def
    by (cases rule: start_loop_cases[of demo_env "demo_cfg dry" ?p]) (use off in \<open>auto simp: new_machine_def\<close>)
qed

text \<open>Its first tick, on a store that refuses nothing: \<open>DOWN\<close>, and the window is as long as the delay.\<close>

lemma demo_tick:
  obtains ob' where "tick demo_env (demo_cfg dry) (in_world (app_mem ''main'' [] []) (demo_start dry)) = Some ob'"
    "ob_last_status ob' = DOWN" "m_first_down_at (ob_machine ob') = 0"
proof -
  let ?ob = "in_world (app_mem ''main'' [] []) (demo_start dry)"
  have ok: "observer_ok demo_env (demo_cfg dry) ?ob" using reachable_ok[OF demo_reachable] by simp
  then have target: "ap_target (ob_active ?ob) = Some (demo_prober PingTimeout)"
    using demo_unswitched by (auto simp: observer_ok_def)
  then have "tick demo_env (demo_cfg dry) ?ob \<noteq> None" by (simp add: tick_def split: prod.split)
  then obtain ob' where t: "tick demo_env (demo_cfg dry) ?ob = Some ob'" by blast
  have down: "ob_last_status ob' = DOWN"
    using tick_last_status(1)[OF t target] demo_verdict[of PingTimeout] by auto
  have start: "\<not> m_in_down (ob_machine (demo_start dry))"
    unfolding demo_start_def
    by (cases rule: start_loop_cases[of demo_env "demo_cfg dry" "idle (app_mem ''main'' [] [])"]) (auto simp: new_machine_def)
  from t have "m_first_down_at (ob_machine ob') = 0"
  proof (cases rule: tick_cases)
    case (plain t status)
    then show ?thesis using down start by (simp add: observe_simps)
  next
    case (latched t g ob1)
    then show ?thesis using start by (simp add: observe_simps)
  qed
  with t down show thesis by (rule that)
qed

lemma demo_switches:
  obtains ob' where "tick demo_env (demo_cfg False) (in_world (app_mem ''main'' [] []) (demo_start False)) = Some ob'"
    "ob_last_status ob' = DOWN" "m_first_down_at (ob_machine ob') = 0" "m_switched (ob_machine ob')"
proof -
  obtain ob' where t: "tick demo_env (demo_cfg False) (in_world (app_mem ''main'' [] []) (demo_start False)) = Some ob'"
    "ob_last_status ob' = DOWN" "m_first_down_at (ob_machine ob') = 0" by (rule demo_tick)
  have "m_switched (ob_machine ob')"
    by (rule outage_latches[OF demo_reachable t(1) demo_keeps[of id] t(2) demo_unswitched])
       (use t(3) app_switch_clean[of _ False] in
         \<open>auto simp: demo_verdict time_sub_def sat64_def min_duration_def max_duration_def k8s_act_def\<close>)
  with t show thesis by (rule that)
qed

lemma demo_moved:
  assumes "tick demo_env (demo_cfg False) (in_world (app_mem ''main'' [] []) (demo_start False)) = Some ob'"
    "m_switched (ob_machine ob')"
  shows "all_moved (app_config False) (mem_cms (world (ob_proc ob'))) (mem_deps (world (ob_proc ob')))"
    "mem_cms (world (ob_proc ob')) \<noteq> mem_cms (app_mem ''main'' [] [])"
    "same_but_key (app_config False) (mem_cms (app_mem ''main'' [] []) k) (mem_cms (world (ob_proc ob')) k)"
proof -
  have doc: "api_documented (en_api demo_env) mem_cms mem_deps" by (simp add: mem_api_documented)
  note moved = latch_leaves_moved[OF demo_reachable assms(1) demo_keeps doc demo_unswitched assms(2)]
  show m: "all_moved (app_config False) (mem_cms (world (ob_proc ob'))) (mem_deps (world (ob_proc ob')))"
    "same_but_key (app_config False) (mem_cms (app_mem ''main'' [] []) k) (mem_cms (world (ob_proc ob')) k)"
    using moved by simp_all
  show "mem_cms (world (ob_proc ob')) \<noteq> mem_cms (app_mem ''main'' [] [])"
  proof
    assume "mem_cms (world (ob_proc ob')) = mem_cms (app_mem ''main'' [] [])"
    with m(1) show False by (simp add: all_moved_def app_eval)
  qed
qed

section \<open>Witnesses\<close>

theorem labels_follow_prober_witness: "ob_role (demo_start False) = ''primary''"
  using labels_follow_prober[OF demo_reachable[of False]] demo_unswitched by auto


definition late_env :: "(mem, gostring) loop_env" where
  "late_env = demo_env\<lparr>en_now := \<lambda>w. (second, w)\<rparr>"

theorem self_probes_follow_loop_witness:
  "\<exists>ob'. tick late_env (demo_cfg False)
       (in_world (app_mem ''main'' [] []) (start_loop late_env (demo_cfg False) (idle (app_mem ''main'' [] [])))) = Some ob' \<and>
     liveness (Some (ob_heartbeat ob')) (15 * second) (17 * second) = 503"
proof -
  have r: "reachable late_env (demo_cfg False) (start_loop late_env (demo_cfg False) (idle (app_mem ''main'' [] [])))"
    by (rule reachable.start[OF before_loop_idle])
  have "fst (en_now late_env w) = second" for w by (simp add: late_env_def)
  moreover have "second \<noteq> 0" "is_duration second" "is_duration (17 * second - second)" "15 * second < 17 * second - second"
    by (simp_all add: second_def is_duration_def min_duration_def max_duration_def)
  ultimately show ?thesis
    using self_probes_follow_loop[OF r, of "app_mem ''main'' [] []" second "17 * second" _ _ _ "15 * second"] by blast
qed


theorem every_line_has_a_template_witness:
  "list_all (\<lambda>e. le_event e \<in> set known_events \<or> read_failed_line e \<or> tls_warning e) (logs (ob_proc (demo_start False)))"
  by (rule every_line_has_a_template[OF demo_reachable])


theorem switch_is_final_and_complete_witness:
  "\<exists>ob'. tick demo_env (demo_cfg False) (in_world (app_mem ''main'' [] []) (demo_start False)) = Some ob' \<and>
     all_moved (app_config False) (mem_cms (world (ob_proc ob'))) (mem_deps (world (ob_proc ob')))"
proof -
  obtain ob' where t: "tick demo_env (demo_cfg False) (in_world (app_mem ''main'' [] []) (demo_start False)) = Some ob'"
    "ob_last_status ob' = DOWN" "m_first_down_at (ob_machine ob') = 0" "m_switched (ob_machine ob')" by (rule demo_switches)
  have doc: "api_documented (en_api demo_env) mem_cms mem_deps" by (simp add: mem_api_documented)
  from switch_is_final_and_complete[where cms = mem_cms and deps = mem_deps, OF demo_reachable t(1) demo_keeps doc] demo_unswitched t(4)
  have "all_moved (app_config False) (mem_cms (world (ob_proc ob'))) (mem_deps (world (ob_proc ob')))" by simp
  with t(1) show ?thesis by blast
qed


theorem restart_adopts_switch_witness:
  "\<exists>ob' p. tick demo_env (demo_cfg False) (in_world (app_mem ''main'' [] []) (demo_start False)) = Some ob' \<and>
     mem_cms (world p) = mem_cms (world (ob_proc ob')) \<and>
     ob_role (start_loop demo_env (demo_cfg False) p) = ''secondary''"
proof -
  obtain ob' where t: "tick demo_env (demo_cfg False) (in_world (app_mem ''main'' [] []) (demo_start False)) = Some ob'"
    "ob_last_status ob' = DOWN" "m_first_down_at (ob_machine ob') = 0" "m_switched (ob_machine ob')" by (rule demo_switches)
  define p where "p = idle ((world (ob_proc ob'))\<lparr>mem_refuses := []\<rparr>)"
  have doc: "api_documented (en_api demo_env) mem_cms mem_deps" by (simp add: mem_api_documented)
  have cms: "mem_cms (world p) = mem_cms (world (ob_proc ob'))" by (simp add: p_def idle_def)
  have "cm_name c = snd k" if "mem_cms (world p) k = Some c" for k c
    using demo_moved(3)[OF t(1,4), of k] that app_mem_up[of "''main''" "[]"]
    unfolding cms same_but_key_def mem_up_def by (cases "mem_cms (app_mem ''main'' [] []) k") auto
  then have up: "mem_up (world p)" by (simp add: mem_up_def p_def idle_def)
  have serves: "api_serves (en_api demo_env) mem_cms mem_up" by (simp add: mem_api_serves)
  have "ob_role (start_loop demo_env (demo_cfg False) p) = ''secondary''"
    using restart_adopts_switch[where P = mem_up and p = p and cms = mem_cms and deps = mem_deps,
        OF demo_reachable t(1) demo_unswitched t(4) demo_keeps doc demo_cfg_simps(4) _ demo_cfg_simps(6) serves up cms] by simp
  with t(1) cms show ?thesis by blast
qed

theorem sustained_outage_is_switched_witness:
  "\<exists>ob'. tick demo_env (demo_cfg False) (in_world (app_mem ''main'' [] []) (demo_start False)) = Some ob' \<and>
     m_switched (ob_machine ob')"
proof -
  obtain ob' where t: "tick demo_env (demo_cfg False) (in_world (app_mem ''main'' [] []) (demo_start False)) = Some ob'"
    "ob_last_status ob' = DOWN" "m_first_down_at (ob_machine ob') = 0" by (rule demo_tick)
  have "m_switched (ob_machine ob')"
    by (rule sustained_outage_is_switched[OF demo_reachable t(1) demo_keeps[of id] t(2) demo_unswitched])
       (use t(3) app_switch_clean[of _ False] in
         \<open>auto simp: demo_verdict time_sub_def sat64_def min_duration_def max_duration_def k8s_act_def\<close>)
  with t(1) show ?thesis by blast
qed

end
