(* ===== verification/Alarm_Event.thy ===== *)
theory Alarm_Event
  imports Go_Json K8s_Switch
begin

text \<open>
  The distributed-quorum path: \<open>pkg/event\<close> (the SNS-wrapped CloudWatch alarm) and
  \<open>pkg/switchhandler\<close> (act on the ALARM transition only), which is stated over any actuator.
\<close>

section \<open>Decoding\<close>

record alarm =
  al_name :: gostring
  al_state :: gostring

definition actionable :: "alarm \<Rightarrow> bool" where
  "actionable a \<longleftrightarrow> al_state a = ''ALARM''"

definition zero_alarm :: alarm where
  "zero_alarm = \<lparr>al_name = [], al_state = []\<rparr>"

text \<open>
  \<open>json.Unmarshal\<close> into the program's structs: each decoder takes the value already there and
  returns the new one with whether a type error was met. Decoding goes on after a type error, null
  leaves a string or a struct as it is and empties a slice, unknown keys are ignored and a repeated
  key decodes into what the earlier one left.
\<close>

fun decode_string :: "gostring \<Rightarrow> json \<Rightarrow> gostring \<times> bool" where
  "decode_string old (JStr s) = (s, False)"
| "decode_string old JNull = (old, False)"
| "decode_string old _ = (old, True)"

fun decode_fields ::
  "('a \<Rightarrow> gostring \<times> json \<Rightarrow> 'a \<times> bool) \<Rightarrow> 'a \<Rightarrow> (gostring \<times> json) list \<Rightarrow> 'a \<times> bool" where
  "decode_fields field old [] = (old, False)"
| "decode_fields field old (kv # kvs) =
     (case field old kv of (x, e) \<Rightarrow>
        case decode_fields field x kvs of (y, e') \<Rightarrow> (y, e \<or> e'))"

fun decode_struct :: "('a \<Rightarrow> gostring \<times> json \<Rightarrow> 'a \<times> bool) \<Rightarrow> 'a \<Rightarrow> json \<Rightarrow> 'a \<times> bool" where
  "decode_struct field old (JObj kvs) = decode_fields field old kvs"
| "decode_struct field old JNull = (old, False)"
| "decode_struct field old _ = (old, True)"

text \<open>An element decodes into the one the slice already has at its index, else into the zero value.\<close>

fun decode_elems :: "('a \<Rightarrow> json \<Rightarrow> 'a \<times> bool) \<Rightarrow> 'a \<Rightarrow> 'a list \<Rightarrow> json list \<Rightarrow> 'a list \<times> bool" where
  "decode_elems elem zero olds [] = ([], False)"
| "decode_elems elem zero olds (v # vs) =
     (case elem (case olds of [] \<Rightarrow> zero | x # _ \<Rightarrow> x) v of (y, e) \<Rightarrow>
        case decode_elems elem zero (tl olds) vs of (ys, e') \<Rightarrow> (y # ys, e \<or> e'))"

fun decode_slice :: "('a \<Rightarrow> json \<Rightarrow> 'a \<times> bool) \<Rightarrow> 'a \<Rightarrow> 'a list \<Rightarrow> json \<Rightarrow> 'a list \<times> bool" where
  "decode_slice elem zero olds (JArr vs) = decode_elems elem zero olds vs"
| "decode_slice elem zero olds JNull = ([], False)"
| "decode_slice elem zero olds _ = (olds, True)"

text \<open>The envelope is the list of its records' messages; a record is its \<open>Sns.Message\<close>.\<close>

definition sns_field :: "gostring \<Rightarrow> gostring \<times> json \<Rightarrow> gostring \<times> bool" where
  "sns_field m kv = (if key_matches ''Message'' (fst kv) then decode_string m (snd kv) else (m, False))"

definition record_field :: "gostring \<Rightarrow> gostring \<times> json \<Rightarrow> gostring \<times> bool" where
  "record_field m kv = (if key_matches ''Sns'' (fst kv) then decode_struct sns_field m (snd kv) else (m, False))"

definition envelope_field :: "gostring list \<Rightarrow> gostring \<times> json \<Rightarrow> gostring list \<times> bool" where
  "envelope_field ms kv =
     (if key_matches ''Records'' (fst kv) then decode_slice (decode_struct record_field) [] ms (snd kv)
      else (ms, False))"

definition alarm_field :: "alarm \<Rightarrow> gostring \<times> json \<Rightarrow> alarm \<times> bool" where
  "alarm_field a kv =
     (if key_matches ''AlarmName'' (fst kv) then
        (case decode_string (al_name a) (snd kv) of (s, e) \<Rightarrow> (a\<lparr>al_name := s\<rparr>, e))
      else if key_matches ''NewStateValue'' (fst kv) then
        (case decode_string (al_state a) (snd kv) of (s, e) \<Rightarrow> (a\<lparr>al_state := s\<rparr>, e))
      else (a, False))"

datatype event_error = BadSyntax gostring | BadType gostring

definition unmarshal :: "('a \<Rightarrow> gostring \<times> json \<Rightarrow> 'a \<times> bool) \<Rightarrow> 'a \<Rightarrow> gostring \<Rightarrow> event_error + 'a" where
  "unmarshal field zero raw =
     (case parse_json raw of
        None \<Rightarrow> Inl (BadSyntax raw)
      | Some v \<Rightarrow>
          (case decode_struct field zero v of (x, e) \<Rightarrow> if e then Inl (BadType raw) else Inr x))"

definition parse_event :: "gostring \<Rightarrow> event_error + alarm" where
  "parse_event raw =
     bind_result (unmarshal envelope_field [] raw) (\<lambda>env.
       case env of
         [] \<Rightarrow> Inr zero_alarm
       | message # _ \<Rightarrow> unmarshal alarm_field zero_alarm message)"

section \<open>The handler\<close>

datatype 'e handle_error = EventError event_error | SwitchError 'e

text \<open>The outcome and the line printed, if any.\<close>

definition handle ::
  "('s \<Rightarrow> (bool \<times> 'e option) \<times> 's) \<Rightarrow> gostring \<Rightarrow> 's \<Rightarrow> ('e handle_error option \<times> gostring list) \<times> 's" where
  "handle switch raw s =
     (case parse_event raw of
        Inl e \<Rightarrow> ((Some (EventError e), []), s)
      | Inr a \<Rightarrow>
          if \<not> actionable a then
            ((None, [''alarm '' @ go_quote (al_name a) @ '' state '' @ go_quote (al_state a) @
                     '' not actionable, ignoring (no auto-failback)'']), s)
          else
            (case switch s of
               ((_, Some err), s') \<Rightarrow> ((Some (SwitchError err), []), s')
             | ((True, None), s') \<Rightarrow>
                 ((None, [''alarm '' @ go_quote (al_name a) @ '': SWITCHED to secondary'']), s')
             | ((False, None), s') \<Rightarrow>
                 ((None, [''alarm '' @ go_quote (al_name a) @ '': already on secondary, no-op'']), s')))"

section \<open>Properties\<close>

text \<open>The notification SNS delivers for a CloudWatch alarm, as the documentation shows it.\<close>

definition alarm_message :: "gostring \<Rightarrow> gostring \<Rightarrow> gostring" where
  "alarm_message name st =
     ''{'' @ json_string ''AlarmName'' @ '':'' @ json_string name @ '','' @
     json_string ''NewStateValue'' @ '':'' @ json_string st @ ''}''"

definition sns_event :: "gostring \<Rightarrow> gostring" where
  "sns_event message =
     ''{'' @ json_string ''Records'' @ '':[{'' @ json_string ''Sns'' @ '':{'' @
     json_string ''Message'' @ '':'' @ json_string message @ ''}}]}''"

lemma utf8_names:
  "valid_utf8 ''AlarmName''" "valid_utf8 ''NewStateValue''" "valid_utf8 ''Records''" "valid_utf8 ''Sns''"
  "valid_utf8 ''Message''"
  by (rule valid_utf8_ascii; simp)+

lemma parse_alarm_message:
  assumes "valid_utf8 name" "valid_utf8 st"
  shows "parse_json (alarm_message name st) =
     Some (JObj [(''AlarmName'', JStr name), (''NewStateValue'', JStr st)])"
  using assms utf8_names
  by (simp add: parse_json_def alarm_message_def lex_json_pieces punctuation_def max_depth_def)

lemma parse_sns_event:
  assumes "valid_utf8 message"
  shows "parse_json (sns_event message) =
     Some (JObj [(''Records'', JArr [JObj [(''Sns'', JObj [(''Message'', JStr message)])]])])"
  using assms utf8_names
  by (simp add: parse_json_def sns_event_def lex_json_pieces punctuation_def max_depth_def)

lemma valid_utf8_alarm_message: "valid_utf8 (alarm_message name st)"
proof -
  have "valid_utf8 [c]" if "byte c < 128" for c using that by (intro valid_utf8_ascii) simp
  then show ?thesis unfolding alarm_message_def by (intro valid_utf8_append valid_utf8_json_string) simp_all
qed

lemma parse_event_sns:
  assumes "valid_utf8 name" "valid_utf8 st"
  shows "parse_event (sns_event (alarm_message name st)) = Inr \<lparr>al_name = name, al_state = st\<rparr>"
  by (simp add: parse_event_def unmarshal_def parse_sns_event[OF valid_utf8_alarm_message]
      parse_alarm_message[OF assms] envelope_field_def record_field_def sns_field_def alarm_field_def
      key_matches_def lower_char_def zero_alarm_def less_eq_char_def)

text \<open>
  C35: The alarm survives the trip. An SNS event that wraps the JSON of a CloudWatch alarm decodes
  to exactly the alarm's name and state, whatever characters they hold (quotes, control characters,
  multi-byte runes), through both layers of JSON escaping.
\<close>

theorem alarm_event_roundtrip:
  assumes "valid_utf8 name" and "valid_utf8 st"
  shows "parse_event (sns_event (alarm_message name st)) = Inr \<lparr>al_name = name, al_state = st\<rparr>"
  using assms by (rule parse_event_sns)

theorem alarm_event_roundtrip_witness:
  "parse_event (sns_event (alarm_message [CHR 0x22, CHR 0x0A, CHR ''<''] ''ALARM'')) =
     Inr \<lparr>al_name = [CHR 0x22, CHR 0x0A, CHR ''<''], al_state = ''ALARM''\<rparr>"
  by (rule alarm_event_roundtrip; rule valid_utf8_ascii; simp)



end
