(* ===== verification/Base64_Decode.thy ===== *)
theory Base64_Decode
  imports Go_Net
begin

text \<open>
  \<open>base64.StdEncoding.DecodeString\<close> of the Go library, which \<open>pkg/eksauth\<close> reads the CA of a cluster
  with: quanta of four symbols, newlines skipped, padding required, and the offset of the byte an
  input is rejected at. The round trip with the encoder of \<open>Go_Net\<close> closes the theory.
\<close>

section \<open>Symbols\<close>

datatype b64_sym = Val nat | Pad | Bad

definition b64_sym_of :: "char \<Rightarrow> b64_sym" where
  "b64_sym_of c =
     (let n = of_char c :: nat
      in if c = CHR ''='' then Pad
         else if CHR ''A'' \<le> c \<and> c \<le> CHR ''Z'' then Val (n - 65)
         else if CHR ''a'' \<le> c \<and> c \<le> CHR ''z'' then Val (n - 71)
         else if CHR ''0'' \<le> c \<and> c \<le> CHR ''9'' then Val (n + 4)
         else if c = CHR ''+'' then Val 62
         else if c = CHR ''/'' then Val 63
         else Bad)"

text \<open>The symbols of an input from an offset on, each with its offset; newlines are not symbols.\<close>

fun b64_syms :: "nat \<Rightarrow> gostring \<Rightarrow> (nat \<times> b64_sym) list" where
  "b64_syms i [] = []"
| "b64_syms i (c # s) =
     (if c \<in> {CHR 0x0A, CHR 0x0D} then b64_syms (i + 1) s else (i, b64_sym_of c) # b64_syms (i + 1) s)"

section \<open>Quanta\<close>

definition first_byte :: "nat \<Rightarrow> nat \<Rightarrow> char" where
  "first_byte a b = char_of (a * 4 + b div 16)"

definition second_byte :: "nat \<Rightarrow> nat \<Rightarrow> char" where
  "second_byte b c = char_of (b mod 16 * 16 + c div 4)"

definition third_byte :: "nat \<Rightarrow> nat \<Rightarrow> char" where
  "third_byte c d = char_of (c mod 4 * 64 + d)"

text \<open>After the padding nothing may follow: the offset of the first symbol that does is the error.\<close>

fun padded_end :: "gostring \<Rightarrow> (nat \<times> b64_sym) list \<Rightarrow> nat + gostring" where
  "padded_end out [] = Inr out"
| "padded_end out ((m, s) # rest) = Inl m"

text \<open>The quanta of an input of length \<open>n\<close>: the offset of an error, or the bytes.\<close>

fun b64_quanta :: "nat \<Rightarrow> (nat \<times> b64_sym) list \<Rightarrow> nat + gostring" where
  "b64_quanta n syms =
     (case syms of
        [] \<Rightarrow> Inr []
      | (i, Val a) # r1 \<Rightarrow>
          (case r1 of
             [] \<Rightarrow> Inl (n - 1)
           | (j, Val b) # r2 \<Rightarrow>
               (case r2 of
                  [] \<Rightarrow> Inl (n - 2)
                | (k, Val c) # r3 \<Rightarrow>
                    (case r3 of
                       [] \<Rightarrow> Inl (n - 3)
                     | (l, Val d) # rest \<Rightarrow>
                         map_sum id (\<lambda>s. [first_byte a b, second_byte b c, third_byte c d] @ s) (b64_quanta n rest)
                     | (l, Pad) # rest \<Rightarrow> padded_end [first_byte a b, second_byte b c] rest
                     | (l, Bad) # rest \<Rightarrow> Inl l)
                | (k, Pad) # r3 \<Rightarrow>
                    (case r3 of
                       [] \<Rightarrow> Inl n
                     | (l, s) # rest \<Rightarrow> if s = Pad then padded_end [first_byte a b] rest else Inl (l - 1))
                | (k, Bad) # r3 \<Rightarrow> Inl k)
           | (j, s) # r2 \<Rightarrow> Inl j)
      | (i, s) # r1 \<Rightarrow> Inl i)"

declare b64_quanta.simps [simp del]

definition b64_decode :: "gostring \<Rightarrow> gostring + gostring" where
  "b64_decode s =
     map_sum (\<lambda>i. ''illegal base64 data at input byte '' @ show_nat i) id (b64_quanta (length s) (b64_syms 0 s))"

section \<open>The round trip\<close>

lemma char_codes: "(c = d) = (of_char c = (of_char d :: nat))" "(c \<le> d) = (of_char c \<le> (of_char d :: nat))"
  by (simp_all add: of_char_eq_iff less_eq_char_def)

lemma b64_sym_of_char: "k < 64 \<Longrightarrow> b64_sym_of (b64_char k) = Val k"
  by (auto simp: b64_sym_of_def b64_char_def char_codes Let_def)

lemma b64_char_solid: "k < 64 \<Longrightarrow> b64_char k \<notin> {CHR 0x0A, CHR 0x0D}"
  by (auto simp: b64_char_def char_codes)

lemma b64_syms_char [simp]: "k < 64 \<Longrightarrow> b64_syms i (b64_char k # s) = (i, Val k) # b64_syms (i + 1) s"
  using b64_sym_of_char[of k] b64_char_solid[of k] by simp

lemma b64_syms_pad [simp]: "b64_syms i (CHR ''='' # s) = (i, Pad) # b64_syms (i + 1) s"
  by (simp add: b64_sym_of_def)

declare b64_syms.simps(2) [simp del]

lemma of_char_bound: "of_char (c :: char) < (256 :: nat)"
  using of_char_mod_256[of c, where 'a = nat] by (metis mod_less_divisor zero_less_numeral)

text \<open>The pieces of three bytes are symbols, and give the bytes back.\<close>

lemma char_parts:
  "of_char (c :: char) div 4 < (64 :: nat)" "of_char c div 16 < (16 :: nat)" "of_char c div 64 < (4 :: nat)"
  "of_char c mod 4 < (4 :: nat)" "of_char c mod 16 < (16 :: nat)" "of_char c mod 64 < (64 :: nat)"
  using of_char_bound[of c] by (simp_all add: less_mult_imp_div_less)

lemma glued [simp]:
  "x < 4 \<Longrightarrow> y < 16 \<Longrightarrow> x * 16 + y < (64 :: nat)" "x < 16 \<Longrightarrow> y < 4 \<Longrightarrow> x * 4 + y < (64 :: nat)"
  "x < 4 \<Longrightarrow> x * 16 < (64 :: nat)" "x < 16 \<Longrightarrow> x * 4 < (64 :: nat)"
  by simp_all

lemma joined_bytes [simp]:
  "first_byte (of_char a div 4) (of_char a mod 4 * 16) = a"
  "y < 16 \<Longrightarrow> first_byte (of_char a div 4) (of_char a mod 4 * 16 + y) = a"
  "y < 16 \<Longrightarrow> y = of_char b div 16 \<Longrightarrow> second_byte (x * 16 + y) (of_char b mod 16 * 4) = b"
  "y < 16 \<Longrightarrow> y = of_char b div 16 \<Longrightarrow> z < 4 \<Longrightarrow> second_byte (x * 16 + y) (of_char b mod 16 * 4 + z) = b"
  "z < 4 \<Longrightarrow> z = of_char c div 64 \<Longrightarrow> third_byte (x * 4 + z) (of_char c mod 64) = c"
proof -
  have whole: "k = of_char x div n \<Longrightarrow> char_of (k * n + of_char x mod n) = x" for x :: char and k n :: nat
    by (simp only: div_mult_mod_eq char_of_char)
  show "first_byte (of_char a div 4) (of_char a mod 4 * 16) = a"
    using whole[of "of_char a div 4" a 4] by (simp add: first_byte_def)
  show "y < 16 \<Longrightarrow> first_byte (of_char a div 4) (of_char a mod 4 * 16 + y) = a"
    using whole[of "of_char a div 4" a 4] by (simp add: first_byte_def)
  show "y < 16 \<Longrightarrow> y = of_char b div 16 \<Longrightarrow> second_byte (x * 16 + y) (of_char b mod 16 * 4) = b"
    using whole[of y b 16] by (simp only: second_byte_def mod_mult_self3 mod_less) simp
  show "y < 16 \<Longrightarrow> y = of_char b div 16 \<Longrightarrow> z < 4 \<Longrightarrow> second_byte (x * 16 + y) (of_char b mod 16 * 4 + z) = b"
    using whole[of y b 16] by (simp only: second_byte_def mod_mult_self3 mod_less) simp
  show "z < 4 \<Longrightarrow> z = of_char c div 64 \<Longrightarrow> third_byte (x * 4 + z) (of_char c mod 64) = c"
    using whole[of z c 64] by (simp only: third_byte_def mod_mult_self3 mod_less)
qed

lemma b64_quanta_encoded: "b64_quanta n (b64_syms i (base64 s)) = Inr s"
proof (induction s arbitrary: i rule: base64.induct)
  case 1
  then show ?case by (simp add: b64_quanta.simps)
next
  case (2 a)
  then show ?case by (simp add: b64_quanta.simps char_parts)
next
  case (3 a b)
  then show ?case by (simp add: b64_quanta.simps char_parts)
next
  case (4 a b c s)
  then show ?case by (subst b64_quanta.simps) (simp add: char_parts)
qed

lemma b64_decode_base64: "b64_decode (base64 s) = Inr s"
  by (simp add: b64_decode_def b64_quanta_encoded)

end
