(* ===== verification/Kube_Clients.thy ===== *)
theory Kube_Clients
  imports Base64_Decode K8s_Switch
begin

text \<open>
  How the two commands get their Kubernetes client: \<open>pkg/eksauth\<close> (endpoint and CA from the EKS API,
  a bearer token from the IAM authenticator), \<open>mustClientset\<close> of \<open>cmd/switch-lambda\<close> and
  \<open>mustK8sClient\<close> of \<open>cmd/svchealthcheck\<close>. The AWS SDK, the token generator and \<open>client-go\<close> are
  parameters; what they are relied on for is \<open>clients_documented\<close>.
\<close>

section \<open>What the libraries provide\<close>

text \<open>The fields of \<open>rest.Config\<close> the program writes; the rest is what a kubeconfig brings.\<close>

record 'x rest_config =
  rc_host :: gostring
  rc_token :: gostring
  rc_ca :: gostring
  rc_timeout :: duration
  rc_rest :: "'x option"

text \<open>The fields of the described cluster that are read, each behind a pointer that may be nil.\<close>

record certificate =
  ca_data :: "gostring option"

record eks_cluster =
  ec_certificate :: "certificate option"
  ec_endpoint :: "gostring option"

record 'w kube_client =
  kc_api :: "'w k8s_api"
  kc_server_version :: "'w \<Rightarrow> gostring option \<times> 'w"

record ('a, 'g, 'x, 'w) kube_env =
  ke_aws_config :: "'w \<Rightarrow> (gostring + 'a) \<times> 'w"
  ke_describe :: "'a \<Rightarrow> gostring \<Rightarrow> 'w \<Rightarrow> (gostring + eks_cluster option) \<times> 'w"
  ke_generator :: "bool \<Rightarrow> bool \<Rightarrow> 'w \<Rightarrow> (gostring + 'g) \<times> 'w"
  ke_get_token :: "'g \<Rightarrow> gostring \<Rightarrow> 'w \<Rightarrow> (gostring + gostring) \<times> 'w"
  ke_kubeconfig :: "gostring \<Rightarrow> gostring \<Rightarrow> 'w \<Rightarrow> (gostring + 'x rest_config) \<times> 'w"
  ke_in_cluster :: "'w \<Rightarrow> (gostring + 'x rest_config) \<times> 'w"
  ke_new_client :: "'x rest_config \<Rightarrow> gostring + 'w kube_client"

section \<open>EKS\<close>

text \<open>A call that may also panic on a nil pointer.\<close>

datatype 'r attempt = Panicked | Failed gostring | Done 'r

fun attempted :: "gostring + 'r \<Rightarrow> 'r attempt" where
  "attempted (Inl e) = Failed e"
| "attempted (Inr x) = Done x"

definition cluster_token ::
  "('a, 'g, 'x, 'w) kube_env \<Rightarrow> gostring \<Rightarrow> 'w proc \<Rightarrow> (gostring + gostring) \<times> 'w proc" where
  "cluster_token ke name p =
     (case outside (ke_generator ke False False) p of
        (Inl e, p1) \<Rightarrow> (Inl (''token generator: '' @ e), p1)
      | (Inr gen, p1) \<Rightarrow>
          (case outside (ke_get_token ke gen name) p1 of
             (Inl e, p2) \<Rightarrow> (Inl (''get token: '' @ e), p2)
           | (Inr tk, p2) \<Rightarrow> (Inr tk, p2)))"

text \<open>\<open>*desc.Cluster.CertificateAuthority.Data\<close> and \<open>*desc.Cluster.Endpoint\<close>.\<close>

definition described_ca :: "eks_cluster option \<Rightarrow> gostring option" where
  "described_ca desc = Option.bind (Option.bind desc ec_certificate) ca_data"

definition described_endpoint :: "eks_cluster option \<Rightarrow> gostring option" where
  "described_endpoint desc = Option.bind desc ec_endpoint"

definition eks_clientset ::
  "('a, 'g, 'x, 'w) kube_env \<Rightarrow> gostring \<Rightarrow> 'w proc \<Rightarrow> 'w kube_client attempt \<times> 'w proc" where
  "eks_clientset ke name p =
     (case outside (ke_aws_config ke) p of
        (Inl e, p1) \<Rightarrow> (Failed (''aws config: '' @ e), p1)
      | (Inr aws, p1) \<Rightarrow>
          (case outside (ke_describe ke aws name) p1 of
             (Inl e, p2) \<Rightarrow> (Failed (''describe cluster '' @ name @ '': '' @ e), p2)
           | (Inr desc, p2) \<Rightarrow>
               (case described_ca desc of
                  None \<Rightarrow> (Panicked, p2)
                | Some data \<Rightarrow>
                    (case b64_decode data of
                       Inl e \<Rightarrow> (Failed (''decode cluster CA: '' @ e), p2)
                     | Inr ca \<Rightarrow>
                         (case cluster_token ke name p2 of
                            (Inl e, p3) \<Rightarrow> (Failed e, p3)
                          | (Inr tk, p3) \<Rightarrow>
                              (case described_endpoint desc of
                                 None \<Rightarrow> (Panicked, p3)
                               | Some endpoint \<Rightarrow>
                                   (attempted (ke_new_client ke
                                      \<lparr>rc_host = endpoint, rc_token = tk, rc_ca = ca, rc_timeout = 0, rc_rest = None\<rparr>),
                                    p3)))))))"

section \<open>The clients of the commands\<close>

text \<open>The configuration of a kubeconfig when one is named, else the pod's own.\<close>

definition local_config ::
  "('a, 'g, 'x, 'w) kube_env \<Rightarrow> environment \<Rightarrow> 'w proc \<Rightarrow> (gostring + 'x rest_config) \<times> 'w proc" where
  "local_config ke env p =
     (let kc = os_getenv env ''KUBECONFIG''
      in if kc \<noteq> [] then outside (ke_kubeconfig ke [] kc) p else outside (ke_in_cluster ke) p)"

definition must_clientset ::
  "('a, 'g, 'x, 'w) kube_env \<Rightarrow> environment \<Rightarrow> 'w proc \<Rightarrow> 'w kube_client attempt \<times> 'w proc" where
  "must_clientset ke env p =
     (let name = os_getenv env ''EKS_CLUSTER_NAME''
      in if name \<noteq> [] then
           (case eks_clientset ke name p of
              (Failed e, p1) \<Rightarrow> (Failed (''eks client: '' @ e), p1)
            | r \<Rightarrow> r)
         else
           (case local_config ke env p of
              (Inl e, p1) \<Rightarrow> (Failed (''k8s config: '' @ e), p1)
            | (Inr cfg, p1) \<Rightarrow>
                (case ke_new_client ke cfg of
                   Inl e \<Rightarrow> (Failed (''k8s client: '' @ e), p1)
                 | Inr cs \<Rightarrow> (Done cs, p1))))"

definition must_k8s_client ::
  "('a, 'g, 'x, 'w) kube_env \<Rightarrow> environment \<Rightarrow> 'w proc \<Rightarrow> (gostring + 'w kube_client) \<times> 'w proc" where
  "must_k8s_client ke env p =
     (case local_config ke env p of
        (Inl e, p1) \<Rightarrow> (Inl (''k8s config (the k8s actuator needs in-cluster or KUBECONFIG): '' @ e), p1)
      | (Inr cfg, p1) \<Rightarrow>
          (case ke_new_client ke (cfg\<lparr>rc_timeout := 5 * second\<rparr>) of
             Inl e \<Rightarrow> (Inl (''k8s client: '' @ e), p1)
           | Inr cs \<Rightarrow> (Inr cs, p1)))"

section \<open>What is relied on\<close>

text \<open>
  Building a client changes no object of the cluster, and the client it gives has the API of
  \<open>api_documented\<close>.
\<close>

definition leaves_cluster ::
  "('w \<Rightarrow> obj_key \<Rightarrow> configmap option) \<Rightarrow> ('w \<Rightarrow> obj_key \<Rightarrow> deployment option) \<Rightarrow> ('w \<Rightarrow> 'r \<times> 'w) \<Rightarrow> bool" where
  "leaves_cluster cms deps f \<longleftrightarrow> (\<forall>w. cms (snd (f w)) = cms w \<and> deps (snd (f w)) = deps w)"

definition clients_documented ::
  "('a, 'g, 'x, 'w) kube_env \<Rightarrow> ('w \<Rightarrow> obj_key \<Rightarrow> configmap option) \<Rightarrow> ('w \<Rightarrow> obj_key \<Rightarrow> deployment option) \<Rightarrow> bool" where
  "clients_documented ke cms deps \<longleftrightarrow>
     leaves_cluster cms deps (ke_aws_config ke) \<and> (\<forall>a n. leaves_cluster cms deps (ke_describe ke a n)) \<and>
     (\<forall>f c. leaves_cluster cms deps (ke_generator ke f c)) \<and> (\<forall>g n. leaves_cluster cms deps (ke_get_token ke g n)) \<and>
     (\<forall>m k. leaves_cluster cms deps (ke_kubeconfig ke m k)) \<and> leaves_cluster cms deps (ke_in_cluster ke) \<and>
     (\<forall>c cs. ke_new_client ke c = Inr cs \<longrightarrow> api_documented (kc_api cs) cms deps)"

lemma leaves_cluster_outside:
  "leaves_cluster cms deps f \<Longrightarrow> outside f p = (x, p') \<Longrightarrow>
     cms (world p') = cms (world p) \<and> deps (world p') = deps (world p)"
  unfolding leaves_cluster_def by (drule spec[of _ "world p"]) (auto simp: outside_eq)

lemma attempted_simps [simp]:
  "attempted r = Done x \<longleftrightarrow> r = Inr x" "attempted r \<noteq> Panicked" "Panicked \<noteq> attempted r"
  "attempted r = Failed e \<longleftrightarrow> r = Inl e"
  by (cases r; simp)+

section \<open>Properties\<close>

text \<open>Every way an EKS client comes to an end.\<close>

lemma eks_clientset_cases:
  assumes "eks_clientset ke name p = (r, p')"
  obtains
    (config) e where "outside (ke_aws_config ke) p = (Inl e, p')" "r = Failed (''aws config: '' @ e)"
  | (describe) aws p1 e where "outside (ke_aws_config ke) p = (Inr aws, p1)"
      "outside (ke_describe ke aws name) p1 = (Inl e, p')" "r = Failed (''describe cluster '' @ name @ '': '' @ e)"
  | (no_ca) aws p1 desc where "outside (ke_aws_config ke) p = (Inr aws, p1)"
      "outside (ke_describe ke aws name) p1 = (Inr desc, p')" "described_ca desc = None" "r = Panicked"
  | (bad_ca) aws p1 desc data e where "outside (ke_aws_config ke) p = (Inr aws, p1)"
      "outside (ke_describe ke aws name) p1 = (Inr desc, p')" "described_ca desc = Some data"
      "b64_decode data = Inl e" "r = Failed (''decode cluster CA: '' @ e)"
  | (token) aws p1 desc p2 e where "outside (ke_aws_config ke) p = (Inr aws, p1)"
      "outside (ke_describe ke aws name) p1 = (Inr desc, p2)" "described_ca desc \<noteq> None"
      "cluster_token ke name p2 = (Inl e, p')" "r = Failed e"
  | (no_endpoint) aws p1 desc p2 tk where "outside (ke_aws_config ke) p = (Inr aws, p1)"
      "outside (ke_describe ke aws name) p1 = (Inr desc, p2)" "described_endpoint desc = None"
      "cluster_token ke name p2 = (Inr tk, p')" "r = Panicked"
  | (client) aws p1 desc p2 tk data ca endpoint where "outside (ke_aws_config ke) p = (Inr aws, p1)"
      "outside (ke_describe ke aws name) p1 = (Inr desc, p2)" "described_ca desc = Some data" "b64_decode data = Inr ca"
      "cluster_token ke name p2 = (Inr tk, p')" "described_endpoint desc = Some endpoint"
      "r = attempted (ke_new_client ke
             \<lparr>rc_host = endpoint, rc_token = tk, rc_ca = ca, rc_timeout = 0, rc_rest = None\<rparr>)"
proof -
  obtain x p1 where c: "outside (ke_aws_config ke) p = (x, p1)" by force
  show thesis
  proof (cases x)
    case (Inl e)
    then show ?thesis using assms c by (intro config) (auto simp: eks_clientset_def)
  next
    case aws: (Inr aws)
    obtain y p2 where d: "outside (ke_describe ke aws name) p1 = (y, p2)" by force
    show ?thesis
    proof (cases y)
      case (Inl e)
      then show ?thesis using assms c aws d by (intro describe) (auto simp: eks_clientset_def)
    next
      case desc: (Inr desc)
      obtain t p3 where t: "cluster_token ke name p2 = (t, p3)" by force
      note steps = assms[unfolded eks_clientset_def] c aws d desc t
      consider "described_ca desc = None"
        | data e where "described_ca desc = Some data" "b64_decode data = Inl e"
        | data ca where "described_ca desc = Some data" "b64_decode data = Inr ca"
        by (metis not_None_eq sum.exhaust)
      then show ?thesis
      proof cases
        case 1
        then show ?thesis using steps by (intro no_ca) auto
      next
        case 2
        then show ?thesis using steps by (intro bad_ca) auto
      next
        case (3 data ca)
        then show ?thesis
          using steps
          by (cases t; cases "described_endpoint desc")
             (auto intro: token no_endpoint client)
      qed
    qed
  qed
qed

lemma clients_documented_steps:
  assumes "clients_documented ke cms deps"
  shows "outside (ke_aws_config ke) p = (x1, p') \<Longrightarrow> cms (world p') = cms (world p) \<and> deps (world p') = deps (world p)"
    "outside (ke_describe ke a n) p = (x2, p') \<Longrightarrow> cms (world p') = cms (world p) \<and> deps (world p') = deps (world p)"
    "outside (ke_generator ke b c) p = (x3, p') \<Longrightarrow> cms (world p') = cms (world p) \<and> deps (world p') = deps (world p)"
    "outside (ke_get_token ke g n) p = (x4, p') \<Longrightarrow> cms (world p') = cms (world p) \<and> deps (world p') = deps (world p)"
    "outside (ke_kubeconfig ke m k) p = (x5, p') \<Longrightarrow> cms (world p') = cms (world p) \<and> deps (world p') = deps (world p)"
    "outside (ke_in_cluster ke) p = (x5, p') \<Longrightarrow> cms (world p') = cms (world p) \<and> deps (world p') = deps (world p)"
    "ke_new_client ke c' = Inr cs \<Longrightarrow> api_documented (kc_api cs) cms deps"
  using assms unfolding clients_documented_def by (blast dest: leaves_cluster_outside)+

lemma cluster_token_frame:
  assumes "clients_documented ke cms deps" "cluster_token ke name p = (r, p')"
  shows "cms (world p') = cms (world p) \<and> deps (world p') = deps (world p)"
  using assms(2) by (auto simp: cluster_token_def dest!: clients_documented_steps[OF assms(1)] split: sum.splits prod.splits)

lemma eks_clientset_doc:
  assumes "clients_documented ke cms deps" "eks_clientset ke name p = (r, p')"
  shows "cms (world p') = cms (world p) \<and> deps (world p') = deps (world p) \<and>
     (\<forall>cs. r = Done cs \<longrightarrow> api_documented (kc_api cs) cms deps)"
  using assms(2)
  by (cases rule: eks_clientset_cases)
     (auto dest!: clients_documented_steps[OF assms(1)] cluster_token_frame[OF assms(1)])

lemma local_config_frame:
  assumes "clients_documented ke cms deps" "local_config ke env p = (r, p')"
  shows "cms (world p') = cms (world p) \<and> deps (world p') = deps (world p)"
  using assms(2) clients_documented_steps(5,6)[OF assms(1)] by (auto simp: local_config_def Let_def split: if_splits)

lemma must_clientset_doc:
  assumes "clients_documented ke cms deps" "must_clientset ke env p = (r, p')"
  shows "cms (world p') = cms (world p) \<and> deps (world p') = deps (world p) \<and>
     (\<forall>cs. r = Done cs \<longrightarrow> api_documented (kc_api cs) cms deps)"
  using assms(2)
  by (auto simp: must_clientset_def Let_def
      dest!: eks_clientset_doc[OF assms(1)] local_config_frame[OF assms(1)] clients_documented_steps(7)[OF assms(1)]
      split: if_splits prod.splits attempt.splits sum.splits)

lemma must_k8s_client_doc:
  assumes "clients_documented ke cms deps" "must_k8s_client ke env p = (r, p')"
  shows "cms (world p') = cms (world p) \<and> deps (world p') = deps (world p) \<and> logs p' = logs p \<and> metrics p' = metrics p \<and>
     (\<forall>cs. r = Inr cs \<longrightarrow> api_documented (kc_api cs) cms deps)"
  using assms(2) local_config_frame[OF assms(1)] clients_documented_steps(7)[OF assms(1)]
  by (fastforce simp: must_k8s_client_def local_config_def Let_def outside_eq split: if_splits prod.splits sum.splits)

text \<open>
  C37: The EKS client is the described cluster's. When the cluster is described with an endpoint and
  the base64 text of a CA, and a token is issued, the client is built with that endpoint, that
  token, the bytes of the CA and no timeout, and nothing else decides it. The function panics on
  a cluster described without a CA (one that EKS is still creating), and only a missing CA or a
  missing endpoint makes it panic.
\<close>

theorem eks_client_exact:
  assumes "outside (ke_aws_config ke) p = (Inr aws, p1)" and "outside (ke_describe ke aws name) p1 = (Inr desc, p2)"
  shows "(described_ca desc = Some (base64 ca) \<and> described_endpoint desc = Some host \<and>
      cluster_token ke name p2 = (Inr tk, p3) \<longrightarrow>
      eks_clientset ke name p =
        (attempted (ke_new_client ke
           \<lparr>rc_host = host, rc_token = tk, rc_ca = ca, rc_timeout = 0, rc_rest = None\<rparr>), p3)) \<and>
     (described_ca desc = None \<longrightarrow> fst (eks_clientset ke name p) = Panicked) \<and>
     (fst (eks_clientset ke name p) = Panicked \<longrightarrow> described_ca desc = None \<or> described_endpoint desc = None)"
proof (intro conjI impI)
  assume "fst (eks_clientset ke name p) = Panicked"
  then obtain p' where "eks_clientset ke name p = (Panicked, p')" by (metis prod.collapse)
  then show "described_ca desc = None \<or> described_endpoint desc = None"
    by (cases rule: eks_clientset_cases) (use assms in auto)
qed (use assms b64_decode_base64 in \<open>auto simp: eks_clientset_def\<close>)

text \<open>An EKS cluster as the API describes it, and a kubeconfig, over the store of the small deployment.\<close>

definition demo_kube :: "eks_cluster option \<Rightarrow> (unit, unit, unit, mem) kube_env" where
  "demo_kube desc =
     \<lparr>ke_aws_config = \<lambda>w. (Inr (), w), ke_describe = \<lambda>a n w. (Inr desc, w), ke_generator = \<lambda>f c w. (Inr (), w),
      ke_get_token = \<lambda>g n w. (Inr (''k8s-aws-v1.'' @ n), w),
      ke_kubeconfig = \<lambda>m k w. (Inr \<lparr>rc_host = k, rc_token = [], rc_ca = [], rc_timeout = 0, rc_rest = None\<rparr>, w),
      ke_in_cluster = \<lambda>w. (Inl ''unable to load in-cluster configuration'', w),
      ke_new_client = \<lambda>c. if rc_host c = [] then Inl ''host must be a URL''
        else Inr \<lparr>kc_api = mem_api, kc_server_version = \<lambda>w. (None, w)\<rparr>\<rparr>"

definition demo_cluster :: "gostring \<Rightarrow> eks_cluster option" where
  "demo_cluster ca = Some \<lparr>ec_certificate = Some \<lparr>ca_data = Some (base64 ca)\<rparr>, ec_endpoint = Some ''https://eks''\<rparr>"

lemma demo_kube_documented: "clients_documented (demo_kube desc) mem_cms mem_deps"
  using mem_api_documented
  by (auto simp: clients_documented_def leaves_cluster_def demo_kube_def split: if_splits)

theorem eks_client_exact_witness:
  "eks_clientset (demo_kube (demo_cluster ''PEM'')) ''prod'' (idle (app_mem ''main'' [] [])) =
     (Done \<lparr>kc_api = mem_api, kc_server_version = \<lambda>w. (None, w)\<rparr>, idle (app_mem ''main'' [] [])) \<and>
   fst (eks_clientset (demo_kube (Some \<lparr>ec_certificate = None, ec_endpoint = None\<rparr>)) ''new''
     (idle (app_mem ''main'' [] []))) = Panicked"
proof -
  let ?p = "idle (app_mem ''main'' [] [])"
  have aws: "outside (ke_aws_config (demo_kube desc)) ?p = (Inr (), ?p)"
    and ds: "outside (ke_describe (demo_kube desc) () n) ?p = (Inr desc, ?p)"
    and tk: "cluster_token (demo_kube desc) n ?p = (Inr (''k8s-aws-v1.'' @ n), ?p)" for desc n
    by (simp_all add: demo_kube_def outside_def cluster_token_def)
  have new: "attempted (ke_new_client (demo_kube desc)
      \<lparr>rc_host = ''https://eks'', rc_token = t, rc_ca = ca, rc_timeout = 0, rc_rest = None\<rparr>) =
      Done \<lparr>kc_api = mem_api, kc_server_version = \<lambda>w. (None, w)\<rparr>" for desc t ca
    by (simp add: demo_kube_def)
  have desc: "described_ca (demo_cluster ''PEM'') = Some (base64 ''PEM'')"
    "described_endpoint (demo_cluster ''PEM'') = Some ''https://eks''"
    "described_ca (Some \<lparr>ec_certificate = None, ec_endpoint = None\<rparr>) = None"
    by (simp_all add: demo_cluster_def described_ca_def described_endpoint_def)
  show ?thesis
    using eks_client_exact[OF aws ds, THEN conjunct1, rule_format, OF conjI, OF desc(1) conjI, OF desc(2) tk]
      eks_client_exact[OF aws ds, THEN conjunct2, THEN conjunct1, rule_format, OF desc(3)]
    by (simp only: new)
qed

end
