(* ===== verification/Switch_Lambda.thy ===== *)
theory Switch_Lambda
  imports Alarm_Event Kube_Clients
begin

text \<open>
  \<open>cmd/switch-lambda\<close>: the configuration from the environment, the Kubernetes client, the one-shot
  mode, and the invocations of the Lambda runtime, each of which is one call of the handler.
\<close>

section \<open>The configuration\<close>

definition getenv_or :: "environment \<Rightarrow> gostring \<Rightarrow> gostring \<Rightarrow> gostring" where
  "getenv_or env k def = (if os_getenv env k \<noteq> [] then os_getenv env k else def)"

datatype lambda_error =
    BadConfigMap refs_error
  | BadDeployments refs_error
  | NoClient gostring
  | OneshotFailed "switch_error list handle_error"

text \<open>The actuator configuration and the namespaces warned about.\<close>

definition lambda_config :: "environment \<Rightarrow> lambda_error + actuator_config \<times> gostring list" where
  "lambda_config env =
     (let ns = getenv_or env ''NAMESPACE'' ''default''
      in case parse_refs_required (getenv_or env ''CONFIGMAP'' ''cb-conn'') ns of
           Inl e \<Rightarrow> Inl (BadConfigMap e)
         | Inr cms \<Rightarrow>
             (case parse_refs (os_getenv env ''DEPLOYMENTS'') ns of
                Inl e \<Rightarrow> Inl (BadDeployments e)
              | Inr deps \<Rightarrow>
                  Inr (\<lparr>cfg_configmaps = cms, cfg_key = getenv_or env ''CONFIG_KEY'' ''connstring'',
                        cfg_deployments = deps, cfg_secondary = os_getenv env ''SECONDARY_CONN'',
                        cfg_dry_run = (os_getenv env ''DRY_RUN'' = ''true'')\<rparr>,
                       unpaired_namespaces cms deps)))"

section \<open>The process\<close>

text \<open>A line of \<open>log.Printf\<close>.\<close>

definition printed :: "gostring \<Rightarrow> 'w proc \<Rightarrow> 'w proc" where
  "printed line p = log_event LevelInfo line [] p"

definition unpaired_line :: "gostring list \<Rightarrow> gostring" where
  "unpaired_line ns =
     ''WARNING: '' @ show_nat (length ns) @ '' namespace(s) hold a deployment target but no configmap target: '' @
     join '' '' ns @ '' (those apps read a ConfigMap this switch never patches)''"

definition ready_line :: "actuator_config \<Rightarrow> gostring" where
  "ready_line cfg =
     ''switch-lambda ready: configmaps=['' @ join '' '' (map ref_string (cfg_configmaps cfg)) @
     ''] deployments=['' @ join '' '' (map ref_string (cfg_deployments cfg)) @ ''] secondary='' @
     go_quote (cfg_secondary cfg) @ '' dryRun='' @ (if cfg_dry_run cfg then ''true'' else ''false'')"

text \<open>One call of the handler, at the time \<open>now\<close> its stamps take.\<close>

definition invoke ::
  "'w k8s_api \<Rightarrow> actuator_config \<Rightarrow> gostring \<Rightarrow> gostring \<Rightarrow> 'w proc \<Rightarrow>
   switch_error list handle_error option \<times> 'w proc" where
  "invoke api cfg now raw p =
     (case handle (k8s_switch api cfg now) raw p of
        ((err, lines), p1) \<Rightarrow> (err, foldl (\<lambda>q line. printed line q) p1 lines))"

datatype 'w lambda_exit = Fatal lambda_error | Crashed | Exit | Serving "'w k8s_api" actuator_config

text \<open>\<open>main\<close>: the one-shot event is handled once; otherwise the process serves invocations.\<close>

definition lambda_main ::
  "('a, 'g, 'x, 'w) kube_env \<Rightarrow> gostring \<Rightarrow> environment \<Rightarrow> 'w proc \<Rightarrow> 'w lambda_exit \<times> 'w proc" where
  "lambda_main ke now env p =
     (case lambda_config env of
        Inl e \<Rightarrow> (Fatal e, p)
      | Inr (cfg, unpaired) \<Rightarrow>
          (case must_clientset ke env (if unpaired \<noteq> [] then printed (unpaired_line unpaired) p else p) of
             (Panicked, p1) \<Rightarrow> (Crashed, p1)
           | (Failed e, p1) \<Rightarrow> (Fatal (NoClient e), p1)
           | (Done cs, p1) \<Rightarrow>
               (let p2 = printed (ready_line cfg) p1; ev = os_getenv env ''ONESHOT_EVENT''
                in if ev \<noteq> [] then
                     (case invoke (kc_api cs) cfg now ev p2 of
                        (Some e, p3) \<Rightarrow> (Fatal (OneshotFailed e), p3)
                      | (None, p3) \<Rightarrow> (Exit, p3))
                   else (Serving (kc_api cs) cfg, p2))))"

text \<open>The invocations of a serving process, each with its time and its payload.\<close>

fun serve_invocations ::
  "'w k8s_api \<Rightarrow> actuator_config \<Rightarrow> (gostring \<times> gostring) list \<Rightarrow> 'w proc \<Rightarrow> 'w proc" where
  "serve_invocations api cfg [] p = p"
| "serve_invocations api cfg ((now, raw) # evs) p = serve_invocations api cfg evs (snd (invoke api cfg now raw p))"

section \<open>Properties\<close>

lemma printed_frame [simp]: "world (printed line p) = world p" "metrics (printed line p) = metrics p"
  by (simp_all add: printed_def)

lemma foldl_printed_frame [simp]:
  "world (foldl (\<lambda>q line. printed line q) p lines) = world p"
  "metrics (foldl (\<lambda>q line. printed line q) p lines) = metrics p"
  by (induction lines arbitrary: p) simp_all

lemma lambda_config_targets:
  "lambda_config env = Inr (cfg, ns) \<Longrightarrow> cfg_configmaps cfg \<noteq> [] \<and> (cfg_dry_run cfg \<longleftrightarrow> os_getenv env ''DRY_RUN'' = ''true'')"
  by (auto simp: lambda_config_def parse_refs_required_def Let_def bind_result_Inr_iff split: sum.splits if_splits)

text \<open>An invocation either leaves the world alone or is one call of \<open>Switch\<close>.\<close>

lemma invoke_cases:
  assumes "invoke api cfg now raw p = (err, p')"
  obtains
    (ignored) "\<forall>a. parse_event raw = Inr a \<longrightarrow> al_state a \<noteq> ''ALARM''" "world p' = world p"
  | (switched) a sw serr p1 where "parse_event raw = Inr a" "al_state a = ''ALARM''"
      "k8s_switch api cfg now p = ((sw, serr), p1)" "world p' = world p1" "err = map_option SwitchError serr"
proof (cases "\<exists>a. parse_event raw = Inr a \<and> al_state a = ''ALARM''")
  case True
  then obtain a where a: "parse_event raw = Inr a" "al_state a = ''ALARM''" by blast
  obtain sw serr p1 where "k8s_switch api cfg now p = ((sw, serr), p1)" by (metis prod.collapse)
  then show ?thesis
    using assms a by (intro switched[of a sw serr p1])
      (auto simp: invoke_def handle_def actionable_def split: option.splits bool.splits)
next
  case False
  then show ?thesis
    using assms by (intro ignored) (auto simp: invoke_def handle_def actionable_def split: sum.splits)
qed

text \<open>Every way the process starts.\<close>

lemma lambda_main_cases:
  fixes ke :: "('a, 'g, 'x, 'w) kube_env"
  assumes "clients_documented ke cms deps" "lambda_main ke now env p = (r, p')"
  obtains
    (stopped) "(\<exists>e. r = Fatal e) \<or> r = Crashed" "cms (world p') = cms (world p)" "deps (world p') = deps (world p)"
  | (oneshot) cfg unpaired and cs :: "'w kube_client" and p1 err where "lambda_config env = Inr (cfg, unpaired)" "api_documented (kc_api cs) cms deps"
      "os_getenv env ''ONESHOT_EVENT'' \<noteq> []" "cms (world p1) = cms (world p)" "deps (world p1) = deps (world p)"
      "invoke (kc_api cs) cfg now (os_getenv env ''ONESHOT_EVENT'') p1 = (err, p')"
      "r = (case err of None \<Rightarrow> Exit | Some e \<Rightarrow> Fatal (OneshotFailed e))"
  | (serving) cfg unpaired api where "lambda_config env = Inr (cfg, unpaired)" "api_documented api cms deps"
      "os_getenv env ''ONESHOT_EVENT'' = []" "cms (world p') = cms (world p)" "deps (world p') = deps (world p)"
      "r = Serving api cfg"
proof (cases "lambda_config env")
  case (Inl e)
  then show ?thesis using assms(2) by (intro stopped) (auto simp: lambda_main_def)
next
  case (Inr cu)
  obtain cfg unpaired where cu: "cu = (cfg, unpaired)" by force
  define p0 where "p0 = (if unpaired \<noteq> [] then printed (unpaired_line unpaired) p else p)"
  have p0: "world p0 = world p" by (simp add: p0_def)
  obtain c p1 where c: "must_clientset ke env p0 = (c, p1)" by force
  note doc = must_clientset_doc[OF assms(1) c, unfolded p0]
  show ?thesis
  proof (cases c)
    case (Done cs)
    let ?p2 = "printed (ready_line cfg) p1"
    show ?thesis
    proof (cases "os_getenv env ''ONESHOT_EVENT'' = []")
      case True
      then show ?thesis
        using assms(2) doc Inr cu c Done
        by (intro serving[of cfg unpaired "kc_api cs"]) (auto simp: lambda_main_def p0_def[symmetric] Let_def)
    next
      case False
      obtain err q where inv: "invoke (kc_api cs) cfg now (os_getenv env ''ONESHOT_EVENT'') ?p2 = (err, q)" by force
      then show ?thesis
        using assms(2) doc Inr cu c Done False
        by (intro oneshot[of cfg unpaired cs ?p2 err])
          (auto simp: lambda_main_def p0_def[symmetric] Let_def split: option.splits)
    qed
  qed (use assms(2) doc Inr cu c in \<open>auto intro!: stopped simp: lambda_main_def p0_def[symmetric]\<close>)
qed

lemma serving_config:
  assumes "clients_documented ke cms deps" "lambda_main ke now env p = (Serving api cfg, p1)"
  shows "api_documented api cms deps" "cms (world p1) = cms (world p)" "deps (world p1) = deps (world p)"
    "\<exists>ns. lambda_config env = Inr (cfg, ns)"
  by (rule lambda_main_cases[OF assms]; auto split: option.splits)+

lemma all_moved_settles:
  assumes "api_documented api cms deps" "all_moved cfg (cms (world p)) (deps (world p))"
  shows "cms (world (serve_invocations api cfg evs p)) = cms (world p) \<and>
     deps (world (serve_invocations api cfg evs p)) = deps (world p)"
  using assms(2)
proof (induction evs arbitrary: p)
  case (Cons ev evs)
  obtain now raw where ev: "ev = (now, raw)" by force
  obtain err q where inv: "invoke api cfg now raw p = (err, q)" by force
  then have "cms (world q) = cms (world p) \<and> deps (world q) = deps (world p)"
  proof (cases rule: invoke_cases)
    case (switched a sw serr p1)
    then show ?thesis
      using k8s_switch_settled[OF assms(1) switched(3)] Cons.prems by (simp add: all_moved_def)
  qed simp
  then show ?case using Cons.IH[of q] Cons.prems by (simp add: ev inv)
qed simp

text \<open>
  C36: The one-shot mode tells the truth. When the Lambda is started with an ALARM event and exits
  without an error, outside dry-run, whichever way its Kubernetes client was made, every ConfigMap
  target holds the secondary connection string and every Deployment target is stamped; there is at
  least one ConfigMap target.
\<close>

theorem oneshot_alarm_moves:
  assumes "clients_documented ke cms deps" and "os_getenv env ''DRY_RUN'' \<noteq> ''true''"
    and "parse_event (os_getenv env ''ONESHOT_EVENT'') = Inr a" and "al_state a = ''ALARM''"
    and "lambda_main ke now env p = (Exit, p')"
  shows "\<exists>cfg ns. lambda_config env = Inr (cfg, ns) \<and> cfg_configmaps cfg \<noteq> [] \<and>
     all_moved cfg (cms (world p')) (deps (world p'))"
  using assms(1,5)
proof (cases rule: lambda_main_cases)
  case (oneshot cfg unpaired cs p1 err)
  have "err = None" using oneshot(7) by (cases err) auto
  from oneshot(6)[unfolded this] have "all_moved cfg (cms (world p')) (deps (world p'))"
  proof (cases rule: invoke_cases)
    case (switched b sw serr q)
    then have "k8s_switch (kc_api cs) cfg now p1 = ((sw, None), q)" by simp
    then have "k8s_moved (kc_api cs) cms deps cfg q" by (rule k8s.nil_error_moved)
    then show ?thesis
      using oneshot(2) switched(4) lambda_config_targets[OF oneshot(1)] assms(2) by (simp add: k8s_moved_def)
  qed (use assms(3,4) in simp)
  then show ?thesis using oneshot(1) lambda_config_targets[OF oneshot(1)] by blast
qed auto

text \<open>
  C22: Redelivered alarms change nothing. Starting the Lambda changes no object of the cluster; and
  once one of its invocations has handled an ALARM without an error, outside dry-run, every target
  is on the secondary and no sequence of further invocations, whatever their payloads and whatever
  reads fail, changes a ConfigMap or a Deployment.
\<close>

theorem redelivered_alarms_change_nothing:
  assumes "clients_documented ke cms deps" and "os_getenv env ''DRY_RUN'' \<noteq> ''true''"
    and "lambda_main ke now env p = (Serving api cfg, p1)"
  shows "cms (world p1) = cms (world p) \<and> deps (world p1) = deps (world p) \<and>
     (invoke api cfg t raw q = (None, q') \<and> parse_event raw = Inr a \<and> al_state a = ''ALARM'' \<longrightarrow>
        all_moved cfg (cms (world q')) (deps (world q')) \<and>
        cms (world (serve_invocations api cfg evs q')) = cms (world q') \<and>
        deps (world (serve_invocations api cfg evs q')) = deps (world q'))"
proof (intro conjI impI)
  note serving = serving_config[OF assms(1,3)]
  show "cms (world p1) = cms (world p)" "deps (world p1) = deps (world p)" by (rule serving)+
  assume inv: "invoke api cfg t raw q = (None, q') \<and> parse_event raw = Inr a \<and> al_state a = ''ALARM''"
  then have "invoke api cfg t raw q = (None, q')" by blast
  then show moved: "all_moved cfg (cms (world q')) (deps (world q'))"
  proof (cases rule: invoke_cases)
    case (switched b sw serr q1)
    then have "k8s_switch api cfg t q = ((sw, None), q1)" by simp
    then have "k8s_moved api cms deps cfg q1" by (rule k8s.nil_error_moved)
    then show ?thesis
      using serving(1,4) switched(4) lambda_config_targets assms(2) by (auto simp: k8s_moved_def)
  qed (use inv in simp)
  show "cms (world (serve_invocations api cfg evs q')) = cms (world q')"
    "deps (world (serve_invocations api cfg evs q')) = deps (world q')"
    using all_moved_settles[OF serving(1) moved] by simp_all
qed

section \<open>A small deployment\<close>

definition lambda_env :: "gostring \<Rightarrow> gostring \<Rightarrow> environment" where
  "lambda_env secondary event = [''NAMESPACE'' \<mapsto> ''a'', ''CONFIGMAP'' \<mapsto> ''cfg'', ''CONFIG_KEY'' \<mapsto> ''conn'',
     ''DEPLOYMENTS'' \<mapsto> ''api'', ''SECONDARY_CONN'' \<mapsto> secondary, ''EKS_CLUSTER_NAME'' \<mapsto> ''prod'',
     ''ONESHOT_EVENT'' \<mapsto> event]"

definition demo_alarm :: gostring where
  "demo_alarm = sns_event (alarm_message ''q'' ''ALARM'')"

lemma lambda_config_vars:
  "\<forall>k \<in> {''NAMESPACE'', ''CONFIGMAP'', ''CONFIG_KEY'', ''DEPLOYMENTS'', ''SECONDARY_CONN'', ''DRY_RUN''}.
     os_getenv env k = os_getenv env' k \<Longrightarrow> lambda_config env = lambda_config env'"
  by (simp add: lambda_config_def getenv_or_def Let_def cong: sum.case_cong)

lemma lambda_env_config:
  "lambda_config (lambda_env ''dr'' ev) = Inr (app_config False, [])"
  "lambda_config (lambda_env [] ev) = Inr ((app_config False)\<lparr>cfg_secondary := []\<rparr>, [])"
proof -
  have any: "lambda_config (lambda_env sec ev) = lambda_config (lambda_env sec [])" for sec
    by (rule lambda_config_vars) (simp add: os_getenv_def lambda_env_def)
  have "lambda_config (lambda_env ''dr'' []) = Inr (app_config False, [])"
    "lambda_config (lambda_env [] []) = Inr ((app_config False)\<lparr>cfg_secondary := []\<rparr>, [])" by code_simp+
  then show "lambda_config (lambda_env ''dr'' ev) = Inr (app_config False, [])"
    "lambda_config (lambda_env [] ev) = Inr ((app_config False)\<lparr>cfg_secondary := []\<rparr>, [])" using any by metis+
qed

lemma lambda_env_vars:
  "os_getenv (lambda_env sec ev) ''ONESHOT_EVENT'' = ev" "os_getenv (lambda_env sec ev) ''EKS_CLUSTER_NAME'' = ''prod''"
  "os_getenv (lambda_env sec ev) ''DRY_RUN'' = []"
  by (simp_all add: os_getenv_def lambda_env_def)

lemma demo_alarm_event: "parse_event demo_alarm = Inr \<lparr>al_name = ''q'', al_state = ''ALARM''\<rparr>" "demo_alarm \<noteq> []"
  unfolding demo_alarm_def by (intro parse_event_sns valid_utf8_ascii; simp) (simp add: sns_event_def)

definition prod_kube :: "(unit, unit, unit, mem) kube_env" where
  "prod_kube = demo_kube (demo_cluster ''PEM'')"

lemma prod_clientset:
  "must_clientset prod_kube (lambda_env sec ev) p =
     (Done \<lparr>kc_api = mem_api, kc_server_version = \<lambda>w. (None, w)\<rparr>, p)"
proof -
  have "eks_clientset prod_kube ''prod'' p = (Done \<lparr>kc_api = mem_api, kc_server_version = \<lambda>w. (None, w)\<rparr>, p)"
    unfolding prod_kube_def demo_cluster_def
    by (simp add: eks_clientset_def cluster_token_def described_ca_def described_endpoint_def b64_decode_base64
        demo_kube_def outside_def del: base64.simps)
  then show ?thesis by (simp add: must_clientset_def lambda_env_vars)
qed

lemma prod_documented: "clients_documented prod_kube mem_cms mem_deps"
  unfolding prod_kube_def by (rule demo_kube_documented)

text \<open>The first invocation of an ALARM over the small deployment.\<close>

definition demo_ready :: "mem proc" where
  "demo_ready = printed (ready_line (app_config False)) (idle (app_mem ''main'' [] []))"

lemma demo_serving:
  "lambda_main prod_kube ''t'' (lambda_env ''dr'' []) (idle (app_mem ''main'' [] [])) =
     (Serving mem_api (app_config False), demo_ready)"
  by (simp add: lambda_main_def lambda_env_config prod_clientset lambda_env_vars demo_ready_def)

lemma demo_ready_world: "world demo_ready = app_mem ''main'' [] []"
  by (simp add: demo_ready_def idle_def)

lemma demo_invocation:
  assumes "world p = app_mem ''main'' [] []"
  shows "fst (invoke mem_api (app_config False) ''t'' demo_alarm p) = None"
  using app_switch_clean[OF assms, of False]
  by (auto simp: invoke_def handle_def actionable_def demo_alarm_event split: prod.splits bool.splits)

theorem oneshot_alarm_moves_witness:
  "\<exists>p'. lambda_main prod_kube ''t'' (lambda_env ''dr'' demo_alarm) (idle (app_mem ''main'' [] [])) = (Exit, p') \<and>
     all_moved (app_config False) (mem_cms (world p')) (mem_deps (world p'))"
proof -
  obtain p' where "invoke mem_api (app_config False) ''t'' demo_alarm demo_ready = (None, p')"
    using demo_invocation[OF demo_ready_world] by (metis prod.collapse)
  then have main: "lambda_main prod_kube ''t'' (lambda_env ''dr'' demo_alarm) (idle (app_mem ''main'' [] [])) = (Exit, p')"
    using demo_alarm_event(2)
    by (simp add: lambda_main_def lambda_env_config prod_clientset lambda_env_vars demo_ready_def)
  show ?thesis
    using main oneshot_alarm_moves[OF prod_documented _ _ _ main]
    by (simp add: demo_alarm_event lambda_env_config lambda_env_vars)
qed

theorem redelivered_alarms_change_nothing_witness:
  "\<exists>q'. invoke mem_api (app_config False) ''t'' demo_alarm demo_ready = (None, q') \<and>
     all_moved (app_config False) (mem_cms (world q')) (mem_deps (world q')) \<and>
     mem_deps (world (serve_invocations mem_api (app_config False) [(''u'', demo_alarm), (''v'', demo_alarm)] q')) =
       mem_deps (world q')"
proof -
  obtain q' where inv: "invoke mem_api (app_config False) ''t'' demo_alarm demo_ready = (None, q')"
    using demo_invocation[OF demo_ready_world] by (metis prod.collapse)
  have dry: "os_getenv (lambda_env ''dr'' []) ''DRY_RUN'' \<noteq> ''true''" by (simp add: lambda_env_vars)
  show ?thesis
    using inv redelivered_alarms_change_nothing[OF prod_documented dry demo_serving, of "''t''" demo_alarm demo_ready q'
        "\<lparr>al_name = ''q'', al_state = ''ALARM''\<rparr>" "[(''u'', demo_alarm), (''v'', demo_alarm)]", THEN conjunct2, THEN conjunct2] demo_alarm_event(1)
    by simp
qed

text \<open>
  The entry point does not check the secondary connection string: left unset, an ALARM patches every
  ConfigMap with the empty string and reports success.
\<close>

theorem unset_secondary_is_written:
  "let r = lambda_main prod_kube ''t'' (lambda_env [] demo_alarm) (idle (app_mem ''main'' [] []))
   in fst r = Exit \<and> map_option (\<lambda>c. key_of (cm_data c) ''conn'') (mem_cms (world (snd r)) (''a'', ''cfg'')) = Some []"
  by (simp add: lambda_main_def lambda_env_config prod_clientset lambda_env_vars demo_alarm_event invoke_def
      handle_def actionable_def app_eval log_event_def printed_def)

end
