(* ===== verification/Fleet.thy ===== *)
theory Fleet
  imports Switch_Steps Poll_Properties Switch_Lambda
begin

text \<open>
  The two programs together. Several replicas of the observer and the alarm Lambda share one
  cluster and one failover, and none knows of the others. Here each start of an observer, each tick
  and each invocation is one move of a fleet; what a move may do to the cluster is the guarantee
  of \<open>Switch_Steps\<close>, and what an observer claims is an assertion that the others cannot break.
\<close>

section \<open>The members\<close>

text \<open>
  An observer process with its environment and flags, before its startup (\<open>None\<close>) or in its loop, and
  a serving Lambda.
\<close>

datatype ('w, 'e) member =
    Observer "('w, 'e) loop_env" loop_config "('w, 'e) observer option"
  | Alarms "'w k8s_api" actuator_config

inductive member_moves :: "('w, 'e) member \<Rightarrow> 'w \<Rightarrow> ('w, 'e) member \<Rightarrow> 'w \<Rightarrow> bool" where
  starts: "before_loop p \<Longrightarrow> member_moves (Observer env cfg None) (world p)
     (Observer env cfg (Some (start_loop env cfg p))) (world (ob_proc (start_loop env cfg p)))"
| ticks: "tick env cfg (in_world w ob) = Some ob' \<Longrightarrow>
     member_moves (Observer env cfg (Some ob)) w (Observer env cfg (Some ob')) (world (ob_proc ob'))"
| dies: "member_moves (Observer env cfg (Some ob)) w (Observer env cfg None) w"
| invokes: "member_moves (Alarms api cfg) (world p) (Alarms api cfg) (world (snd (invoke api cfg now raw p)))"

inductive_cases member_movesE: "member_moves m w m' w'"

text \<open>A member of the failover \<open>cfg0\<close>: its flags name the failover, its environment is as documented.\<close>

fun belongs ::
  "('w \<Rightarrow> obj_key \<Rightarrow> configmap option) \<Rightarrow> ('w \<Rightarrow> obj_key \<Rightarrow> deployment option) \<Rightarrow> actuator_config \<Rightarrow>
   ('w, 'e) member \<Rightarrow> bool" where
  "belongs cms deps cfg0 (Observer env cfg st) \<longleftrightarrow> env_keeps (\<lambda>w. (cms w, deps w)) env \<and>
     api_documented (en_api env) cms deps \<and> same_failover cfg0 (k8s_config cfg)"
| "belongs cms deps cfg0 (Alarms api cfg) \<longleftrightarrow> api_documented api cms deps \<and> same_failover cfg0 cfg"

fun unstarted :: "('w, 'e) member \<Rightarrow> bool" where
  "unstarted (Observer env cfg st) \<longleftrightarrow> st = None"
| "unstarted (Alarms api cfg) \<longleftrightarrow> True"

text \<open>Members join before their startup, or as a serving Lambda; anything else keeps the failover.\<close>

abbreviation fleet_run ::
  "('w \<Rightarrow> obj_key \<Rightarrow> configmap option) \<Rightarrow> ('w \<Rightarrow> obj_key \<Rightarrow> deployment option) \<Rightarrow> actuator_config \<Rightarrow>
   'w \<times> ('w, 'e) member list \<Rightarrow> 'w \<times> ('w, 'e) member list \<Rightarrow> bool" where
  "fleet_run cms deps cfg0 \<equiv>
     execution (\<lambda>m. belongs cms deps cfg0 m \<and> unstarted m) member_moves (keeps_failover cms deps cfg0)"

section \<open>What the members guarantee\<close>

text \<open>A whole \<open>Switch\<close> is an interleaving of its own steps with nothing.\<close>

lemma k8s_switch_keeps:
  assumes doc: "api_documented api cms deps" and run: "k8s_switch api cfg now p = ((sw, err), p')"
  shows "keeps_failover cms deps cfg (world p) (world p')"
proof -
  let ?s = "\<lparr>sr_cfg = cfg, sr_now = now, sr_pc = switch_begin cfg\<rparr>"
  have "(switch_turn api cfg now ^^ switch_bound cfg) (switch_begin cfg, p) = (Finished sw err, p')"
    by (simp add: switch_bound_turns run)
  then have "switches_run api cms deps cfg (world p, [?s]) (world p', [?s][0 := ([?s] ! 0)\<lparr>sr_pc := Finished sw err\<rparr>])"
    by (intro turns_run[where n = "switch_bound cfg"]) simp_all
  moreover have "switcher_ok api cms deps cfg ?s (world p)"
    by (intro switches.start_ok) (simp add: launched_def same_failover_def)
  ultimately show ?thesis using switches.execution_ok[of cfg api cms deps] doc by fastforce
qed

lemma decision_keeps:
  assumes "env_keeps (\<lambda>w. (cms w, deps w)) env" "api_documented (en_api env) cms deps"
    and "run_switch (en_now env) (switch_deps_of env cfg) info ev p = (latch, q)"
  shows "keeps_failover cms deps (k8s_config cfg) (world p) (world q)"
proof -
  note keep = switch_deps_keep(1)[OF assms(1)] switch_deps_keep(2)[OF assms(1), of cfg]
  have d: "sd_act (switch_deps_of env cfg) =
      (if act_k8s (lc_acts cfg) then Some (\<lambda>p. k8s_switch (en_api env) (k8s_config cfg) (en_stamp env (world p)) p) else None)"
    by (auto simp: switch_deps_of_def k8s_act_def)
  obtain sw err p' where k: "k8s_switch (en_api env) (k8s_config cfg) (en_stamp env (world p)) p = ((sw, err), p')"
    by (metis prod.collapse)
  have "keeps_failover cms deps (k8s_config cfg) (world p) (world p')" by (rule k8s_switch_keeps[OF assms(2) k])
  then show ?thesis
    using run_switch_cluster[OF keep, of info ev p] assms(3)
    by (cases "act_k8s (lc_acts cfg)") (simp_all add: d k keeps_failover_def)
qed

lemma tick_keeps:
  assumes "reachable env cfg ob" "tick env cfg (in_world w ob) = Some ob'"
    and "env_keeps (\<lambda>w. (cms w, deps w)) env" "api_documented (en_api env) cms deps"
  shows "keeps_failover cms deps (k8s_config cfg) w (world (ob_proc ob'))"
proof -
  have ok: "observer_ok env cfg (in_world w ob)" using reachable_ok[OF assms(1)] by simp
  from ok assms(2,3) show ?thesis
  proof (cases rule: tick_cluster_cases)
    case quiet
    then show ?thesis by (intro keeps_failover_same) simp_all
  next
    case (decided t w2 g p info ev latch q)
    then show ?thesis
      using decision_keeps[OF assms(3,4) decided(10)] by (simp add: keeps_failover_def)
  qed
qed

lemma invoke_keeps:
  assumes "api_documented api cms deps"
  shows "keeps_failover cms deps cfg (world p) (world (snd (invoke api cfg now raw p)))"
proof -
  obtain err p' where inv: "invoke api cfg now raw p = (err, p')" by force
  then show ?thesis
  proof (cases rule: invoke_cases)
    case (switched a sw serr p1)
    then show ?thesis using k8s_switch_keeps[OF assms switched(3)] inv by simp
  qed (simp add: inv)
qed

lemma start_k8s_doc:
  assumes "api_documented (en_api env) cms deps" "start_k8s env cfg p = (switched, p')"
  shows "cms (world p') = cms (world p) \<and> deps (world p') = deps (world p) \<and>
     (switched \<longrightarrow> (\<forall>c \<in> set (lc_cm_refs cfg). on_secondary (k8s_config cfg) (cms (world p)) c))"
  using assms(2)
proof (cases rule: start_k8s_cases)
  case (on p1 stale p2)
  have "reconcile_already_switched (en_api env) (cfg_configmaps (k8s_config cfg)) (cfg_key (k8s_config cfg))
      (cfg_secondary (k8s_config cfg)) p1 = ((switched, stale), p2)" using on(4) by simp
  from reconcile_doc[OF assms(1) this] show ?thesis using on(3,6) by auto
qed simp

lemma start_cluster:
  assumes "api_documented (en_api env) cms deps"
  shows "cms (world (ob_proc (start_loop env cfg p))) = cms (world p) \<and>
     deps (world (ob_proc (start_loop env cfg p))) = deps (world p) \<and>
     (ob_role (start_loop env cfg p) = ''secondary'' \<longrightarrow>
        (\<forall>c \<in> set (lc_cm_refs cfg). on_secondary (k8s_config cfg) (cms (world p)) c))"
proof (cases rule: start_loop_cases[of env cfg p])
  case (fresh switched p1 q)
  then show ?thesis using start_k8s_doc[OF assms fresh(1)] by simp
next
  case (adopted g p1 q)
  then show ?thesis using start_k8s_doc[OF assms adopted(1)] by simp
qed

section \<open>What an observer claims\<close>

definition claims_truly :: "('w \<Rightarrow> obj_key \<Rightarrow> configmap option) \<Rightarrow> loop_config \<Rightarrow> ('w, 'e) observer \<Rightarrow> 'w \<Rightarrow> bool" where
  "claims_truly cms cfg ob w \<longleftrightarrow>
     (ob_role ob = ''secondary'' \<and> act_k8s (lc_acts cfg) \<longrightarrow>
        (\<forall>c \<in> set (lc_cm_refs cfg). on_secondary (k8s_config cfg) (cms w) c))"

fun member_ok ::
  "('w \<Rightarrow> obj_key \<Rightarrow> configmap option) \<Rightarrow> ('w \<Rightarrow> obj_key \<Rightarrow> deployment option) \<Rightarrow> actuator_config \<Rightarrow>
   ('w, 'e) member \<Rightarrow> 'w \<Rightarrow> bool" where
  "member_ok cms deps cfg0 (Observer env cfg st) w \<longleftrightarrow> belongs cms deps cfg0 (Observer env cfg st) \<and>
     (\<forall>ob. st = Some ob \<longrightarrow> reachable env cfg ob \<and> claims_truly cms cfg ob w)"
| "member_ok cms deps cfg0 (Alarms api cfg) w \<longleftrightarrow> belongs cms deps cfg0 (Alarms api cfg :: ('w, 'e) member)"

lemma claims_truly_keeps:
  "claims_truly cms cfg ob w \<Longrightarrow> keeps_failover cms deps (k8s_config cfg) w w' \<Longrightarrow> claims_truly cms cfg ob w'"
  unfolding claims_truly_def keeps_failover_def by blast

lemma claims_truly_keeps0:
  assumes "claims_truly cms cfg ob w" "same_failover cfg0 (k8s_config cfg)" "keeps_failover cms deps cfg0 w w'"
  shows "claims_truly cms cfg ob w'"
  using assms(1,3) same_failover_targets(1)[OF assms(2)] unfolding claims_truly_def keeps_failover_def by simp

lemma tick_claims:
  assumes "reachable env cfg ob" "tick env cfg (in_world w ob) = Some ob'"
    and "env_keeps (\<lambda>w. (cms w, deps w)) env" "api_documented (en_api env) cms deps" "claims_truly cms cfg ob w"
  shows "claims_truly cms cfg ob' (world (ob_proc ob'))"
  using assms(2)
proof (cases rule: tick_cases)
  case (plain t status)
  then have "claims_truly cms cfg ob' w" using assms(5) by (simp add: claims_truly_def)
  then show ?thesis by (rule claims_truly_keeps[OF _ tick_keeps[OF assms(1-4)]])
next
  case (latched t g ob1)
  show ?thesis
  proof (cases "lc_dry_run cfg")
    case True
    then have "claims_truly cms cfg ob' w" using latched assms(5) by (simp add: claims_truly_def)
    then show ?thesis by (rule claims_truly_keeps[OF _ tick_keeps[OF assms(1-4)]])
  next
    case False
    have "\<not> m_switched (ob_machine ob)" "m_switched (ob_machine ob')"
      using latched by (simp_all add: observe_required)
    from latch_leaves_moved(1)[OF assms(1-4) this _ False] show ?thesis
      by (simp add: claims_truly_def all_moved_def)
  qed
qed

lemma member_move:
  assumes ok: "member_ok cms deps cfg0 m w" and move: "member_moves m w m' w'"
  shows "member_ok cms deps cfg0 m' w' \<and> keeps_failover cms deps cfg0 w w'"
  using move
proof (cases rule: member_moves.cases)
  case (starts p env cfg)
  note doc = start_cluster[of env cms deps cfg p]
  have b: "belongs cms deps cfg0 (Observer env cfg None :: ('a, 'b) member)" using ok starts by simp
  have "claims_truly cms cfg (start_loop env cfg p) w'"
    using doc b starts by (auto simp: claims_truly_def)
  moreover have "keeps_failover cms deps cfg0 w w'"
    using doc b starts by (intro keeps_failover_same) simp_all
  ultimately show ?thesis using b starts reachable.start[OF starts(5)] by auto
next
  case (ticks env cfg ob ob')
  have b: "env_keeps (\<lambda>w. (cms w, deps w)) env" "api_documented (en_api env) cms deps"
    "same_failover cfg0 (k8s_config cfg)" "reachable env cfg ob" "claims_truly cms cfg ob w"
    using ok ticks by simp_all
  show ?thesis
    using b ticks(1-3) reachable.tick[OF b(4) ticks(4)] tick_claims[OF b(4) ticks(4) b(1,2,5)]
      same_failover_keeps[OF b(3) tick_keeps[OF b(4) ticks(4) b(1,2)]] by simp
next
  case (dies env cfg ob)
  then show ?thesis using ok by simp
next
  case (invokes api cfg p now raw)
  have b: "api_documented api cms deps" "same_failover cfg0 cfg" using ok invokes by simp_all
  show ?thesis
    using b invokes same_failover_keeps[OF b(2) invoke_keeps[OF b(1)], of p now raw] by simp
qed

interpretation fleet: rely_guarantee "\<lambda>m. belongs cms deps cfg0 m \<and> unstarted m" member_moves
    "keeps_failover cms deps cfg0" "member_ok cms deps cfg0" "keeps_failover cms deps cfg0"
  for cms :: "'w \<Rightarrow> obj_key \<Rightarrow> configmap option" and deps cfg0
proof (unfold_locales, goal_cases)
  case (1 m w)
  then show ?case by (cases m) auto
next
  case (2 m w m' w')
  then show ?case by (rule conjunct1[OF member_move])
next
  case (3 m w m' w')
  then show ?case by (rule conjunct2[OF member_move])
next
  case (5 m w w')
  then show ?case by (cases m) (auto intro: claims_truly_keeps0)
qed (auto intro: keeps_failover_trans)

section \<open>Properties\<close>

lemma keeps_all_moved:
  assumes "same_failover cfg0 cfg" "keeps_failover cms deps cfg0 w w'" "all_moved cfg (cms w) (deps w)"
  shows "all_moved cfg (cms w') (deps w')"
  using assms(2,3) same_failover_targets[OF assms(1)] by (simp add: keeps_failover_def all_moved_def)

text \<open>
  C7: A fleet tells the truth. Take any number of observers and Lambdas of one failover, on a cluster they
  share; let them start, tick, die, restart and be invoked in any order, mixed with anything else
  that keeps the failover. Then every observer that reports the secondary and acts on Kubernetes
  has each of its ConfigMap targets on the secondary at this moment, whoever put it there; applications
  once moved are still moved; and no stamp became dishonest.
\<close>

theorem fleet_reports_truly:
  assumes "fleet_run cms deps cfg0 (w0, []) (w, ms)"
  shows "(\<forall>env cfg ob. Observer env cfg (Some ob) \<in> set ms \<and> ob_role ob = ''secondary'' \<and> act_k8s (lc_acts cfg) \<longrightarrow>
        (\<forall>c \<in> set (lc_cm_refs cfg). on_secondary (k8s_config cfg) (cms w) c)) \<and>
     (all_moved cfg0 (cms w0) (deps w0) \<longrightarrow> all_moved cfg0 (cms w) (deps w)) \<and>
     (stamps_honest cfg0 (cms w0) (deps w0) \<longrightarrow> stamps_honest cfg0 (cms w) (deps w))"
proof (intro conjI allI impI)
  have keep: "keeps_failover cms deps cfg0 w0 w" by (rule fleet.all_ok(2)[OF assms])
  show "\<forall>c \<in> set (lc_cm_refs cfg). on_secondary (k8s_config cfg) (cms w) c"
    if "Observer env cfg (Some ob) \<in> set ms \<and> ob_role ob = ''secondary'' \<and> act_k8s (lc_acts cfg)" for env cfg ob
    using fleet.all_ok(1)[OF assms, of "Observer env cfg (Some ob)"] that by (simp add: claims_truly_def)
  show "all_moved cfg0 (cms w) (deps w)" if "all_moved cfg0 (cms w0) (deps w0)"
    using keeps_all_moved[of cfg0 cfg0, OF _ keep that] by (simp add: same_failover_def)
  show "stamps_honest cfg0 (cms w) (deps w)" if "stamps_honest cfg0 (cms w0) (deps w0)"
    by (rule keeps_failover_honest[OF keep that])
qed

text \<open>
  C14: A latched switch outlives its observer. When a tick of one observer of the fleet latches, acting on
  Kubernetes outside dry-run, all its targets are moved, and they stay moved whatever the fleet does
  from there: its other ticks, other replicas with their own verdicts, redelivered alarms, restarts.
\<close>

theorem latched_targets_stay_moved:
  assumes "fleet_run cms deps cfg0 (w0, []) (w1, ms1)"
    and "i < length ms1" and "ms1 ! i = Observer env cfg (Some ob)"
    and "tick env cfg (in_world w1 ob) = Some ob'"
    and "\<not> m_switched (ob_machine ob)" and "m_switched (ob_machine ob')"
    and "act_k8s (lc_acts cfg)" and "\<not> lc_dry_run cfg"
    and "fleet_run cms deps cfg0 (world (ob_proc ob'), ms1[i := Observer env cfg (Some ob')]) (w, ms)"
  shows "all_moved (k8s_config cfg) (cms w) (deps w)"
proof -
  have ok: "\<forall>m \<in> set ms1. member_ok cms deps cfg0 m w1" using fleet.all_ok(1)[OF assms(1)] by blast
  then have "member_ok cms deps cfg0 (Observer env cfg (Some ob)) w1" using assms(2,3) by (metis nth_mem)
  then have b: "env_keeps (\<lambda>w. (cms w, deps w)) env" "api_documented (en_api env) cms deps"
    "same_failover cfg0 (k8s_config cfg)" "reachable env cfg ob" by simp_all
  have "member_moves (ms1 ! i) w1 (Observer env cfg (Some ob')) (world (ob_proc ob'))"
    unfolding assms(3) using assms(4) by (rule member_moves.ticks)
  from interleaved.moves[where move = member_moves, OF assms(2) this] ok
  have "\<forall>m \<in> set (ms1[i := Observer env cfg (Some ob')]). member_ok cms deps cfg0 m (world (ob_proc ob'))"
    using fleet.step_ok by fastforce
  then have "keeps_failover cms deps cfg0 (world (ob_proc ob')) w"
    using fleet.execution_ok[OF assms(9)] by simp
  then show ?thesis
    using latch_leaves_moved(1)[OF b(4) assms(4) b(1,2) assms(5-8)]
    by (rule keeps_all_moved[where cms = cms and deps = deps, OF b(3)])
qed

section \<open>Witnesses\<close>

text \<open>
  An observer and a Lambda over the small deployment: both join, the observer starts on the cluster
  still on the primary, and its first tick switches.
\<close>

abbreviation demo_run ::
  "mem \<times> (mem, gostring) member list \<Rightarrow> mem \<times> (mem, gostring) member list \<Rightarrow> bool" where
  "demo_run \<equiv> fleet_run mem_cms mem_deps (app_config False)"

definition demo_fleet :: "(mem, gostring) observer option \<Rightarrow> (mem, gostring) member list" where
  "demo_fleet st = [Observer demo_env (demo_cfg False) st, Alarms mem_api (app_config False)]"

lemma demo_fleet_started:
  "demo_run (app_mem ''main'' [] [], []) (app_mem ''main'' [] [], demo_fleet (Some (demo_start False)))"
proof -
  let ?step = "interleaved (\<lambda>m :: (mem, gostring) member. belongs mem_cms mem_deps (app_config False) m \<and> unstarted m)
    member_moves (keeps_failover mem_cms mem_deps (app_config False))"
  let ?w = "app_mem ''main'' [] []"
  let ?w1 = "world (ob_proc (demo_start False))"
  have doc: "api_documented (en_api demo_env) mem_cms mem_deps" by (simp add: mem_api_documented)
  have same: "same_failover (app_config False) (app_config False)" by (simp add: same_failover_def)
  have "?step (?w, []) (?w, [] @ [Observer demo_env (demo_cfg False) None])"
    by (rule interleaved.joins) (simp add: demo_keeps mem_api_documented same)
  then have s1: "demo_run (?w, []) (?w, [Observer demo_env (demo_cfg False) None])"
    by (intro r_into_rtranclp) simp
  have "?step (?w, [Observer demo_env (demo_cfg False) None])
      (?w, [Observer demo_env (demo_cfg False) None] @ [Alarms mem_api (app_config False)])"
    by (rule interleaved.joins) (simp add: mem_api_documented same)
  then have s2: "?step (?w, [Observer demo_env (demo_cfg False) None]) (?w, demo_fleet None)"
    by (simp add: demo_fleet_def)
  have "?step (?w, demo_fleet None) (?w1, (demo_fleet None)[0 := Observer demo_env (demo_cfg False) (Some (demo_start False))])"
    using member_moves.starts[OF before_loop_idle, of demo_env "demo_cfg False" ?w]
    by (intro interleaved.moves) (simp_all add: demo_fleet_def demo_start_def idle_world)
  then have s3: "?step (?w, demo_fleet None) (?w1, demo_fleet (Some (demo_start False)))"
    by (simp add: demo_fleet_def)
  have s4: "?step (?w1, demo_fleet (Some (demo_start False))) (?w, demo_fleet (Some (demo_start False)))"
    using start_cluster[OF doc, of "demo_cfg False" "idle ?w"]
    by (intro interleaved.others keeps_failover_same) (simp_all add: demo_start_def idle_world)
  note s12 = rtranclp_trans[OF s1 r_into_rtranclp[where r = ?step, OF s2]]
  note s34 = rtranclp_trans[OF r_into_rtranclp[where r = ?step, OF s3] r_into_rtranclp[where r = ?step, OF s4]]
  show ?thesis by (rule rtranclp_trans[OF s12 s34])
qed

lemma demo_fleet_tick:
  assumes "tick demo_env (demo_cfg False) (in_world (app_mem ''main'' [] []) (demo_start False)) = Some ob'"
  shows "demo_run (app_mem ''main'' [] [], demo_fleet (Some (demo_start False)))
     (world (ob_proc ob'), (demo_fleet (Some (demo_start False)))[0 := Observer demo_env (demo_cfg False) (Some ob')])"
  using member_moves.ticks[OF assms]
  by (intro r_into_rtranclp interleaved.moves) (simp_all add: demo_fleet_def)

theorem fleet_reports_truly_witness:
  "\<exists>ob' w. demo_run (app_mem ''main'' [] [], []) (w, demo_fleet (Some ob')) \<and> ob_role ob' = ''secondary'' \<and>
     on_secondary (app_config False) (mem_cms w) \<lparr>ref_namespace = ''a'', ref_name = ''cfg''\<rparr>"
proof -
  obtain ob' where t: "tick demo_env (demo_cfg False) (in_world (app_mem ''main'' [] []) (demo_start False)) = Some ob'"
    "m_switched (ob_machine ob')" by (rule demo_switches)
  have run: "demo_run (app_mem ''main'' [] [], []) (world (ob_proc ob'), demo_fleet (Some ob'))"
    using rtranclp_trans[OF demo_fleet_started demo_fleet_tick[OF t(1)]] by (simp add: demo_fleet_def)
  have "ob_role ob' = ''secondary''"
    using reachable_ok[OF reachable.tick[OF demo_reachable t(1)]] t(2) by (auto simp: observer_ok_def)
  with fleet_reports_truly[OF run] run show ?thesis
    by (intro exI[of _ ob'] exI[of _ "world (ob_proc ob')"]) (auto simp: demo_fleet_def demo_cfg_def k8s_config_def app_config_def)
qed

text \<open>After the switch, an alarm is redelivered.\<close>

theorem latched_targets_stay_moved_witness:
  "\<exists>ob' w. demo_run (app_mem ''main'' [] [], demo_fleet (Some (demo_start False))) (w, demo_fleet (Some ob')) \<and>
     all_moved (app_config False) (mem_cms w) (mem_deps w)"
proof -
  obtain ob' where t: "tick demo_env (demo_cfg False) (in_world (app_mem ''main'' [] []) (demo_start False)) = Some ob'"
    "m_switched (ob_machine ob')" by (rule demo_switches)
  let ?fleet = "(demo_fleet (Some (demo_start False)))[0 := Observer demo_env (demo_cfg False) (Some ob')]"
  let ?p = "idle (world (ob_proc ob'))"
  let ?w = "world (snd (invoke mem_api (app_config False) ''u'' demo_alarm ?p))"
  have "member_moves (?fleet ! 1) (world ?p) (Alarms mem_api (app_config False)) ?w"
    using member_moves.invokes[of mem_api "app_config False" ?p "''u''" demo_alarm] by (simp add: demo_fleet_def)
  then have redelivered: "demo_run (world (ob_proc ob'), ?fleet) (?w, ?fleet[1 := Alarms mem_api (app_config False)])"
    unfolding idle_world by (intro r_into_rtranclp interleaved.moves) (simp_all add: demo_fleet_def)
  have "all_moved (k8s_config (demo_cfg False)) (mem_cms ?w) (mem_deps ?w)"
    by (rule latched_targets_stay_moved[OF demo_fleet_started _ _ t(1) demo_unswitched t(2) _ _ redelivered])
       (simp_all add: demo_fleet_def)
  moreover have "demo_run (app_mem ''main'' [] [], demo_fleet (Some (demo_start False))) (?w, demo_fleet (Some ob'))"
    using rtranclp_trans[OF demo_fleet_tick[OF t(1)] redelivered] by (simp add: demo_fleet_def)
  ultimately show ?thesis by auto
qed

end
