(* ===== verification/Failover_Spec.thy ===== *)
theory Failover_Spec
  imports Switch_Steps
begin

text \<open>
  What a failover is, with the API calls and the ledgers left out: the set of ConfigMap targets that
  name the secondary and the set of Deployment targets that were restarted onto it. Only two things
  ever happen to it, one target at a time, and each step of \<open>K8sActuator.Switch\<close>, in any company, is one of
  them or changes nothing.
\<close>

section \<open>The specification\<close>

type_synonym failover = "ref set \<times> ref set"

inductive failover_step :: "actuator_config \<Rightarrow> failover \<Rightarrow> failover \<Rightarrow> bool" for cfg :: actuator_config where
  unchanged: "failover_step cfg (M, R) (M, R)"
| moved: "c \<in> set (cfg_configmaps cfg) \<Longrightarrow> failover_step cfg (M, R) (insert c M, R)"
| restarted: "r \<in> set (cfg_deployments cfg) \<Longrightarrow>
     \<forall>c \<in> set (cfg_configmaps cfg). ref_namespace c = ref_namespace r \<longrightarrow> c \<in> M \<Longrightarrow>
     failover_step cfg (M, R) (M, insert r R)"

inductive_cases failover_stepE: "failover_step cfg s s'"

text \<open>Every state of a failover that starts with nothing restarted: a restarted target read the secondary.\<close>

definition failover_inv :: "actuator_config \<Rightarrow> failover \<Rightarrow> bool" where
  "failover_inv cfg s \<longleftrightarrow>
     (\<forall>r \<in> snd s. \<forall>c \<in> set (cfg_configmaps cfg). ref_namespace c = ref_namespace r \<longrightarrow> c \<in> fst s)"

lemma failover_step_mono: "failover_step cfg s s' \<Longrightarrow> fst s \<subseteq> fst s' \<and> snd s \<subseteq> snd s'"
  by (auto elim: failover_step.cases)

lemma failover_step_inv: "failover_step cfg s s' \<Longrightarrow> failover_inv cfg s \<Longrightarrow> failover_inv cfg s'"
  by (erule failover_step.cases) (auto simp: failover_inv_def)

lemma failover_steps_inv:
  assumes "(failover_step cfg)\<^sup>*\<^sup>* s s'" "failover_inv cfg s"
  shows "failover_inv cfg s' \<and> fst s \<subseteq> fst s' \<and> snd s \<subseteq> snd s'"
  using assms(1)
proof (induction rule: rtranclp_induct)
  case (step t u)
  then show ?case using failover_step_inv failover_step_mono by blast
qed (use assms(2) in simp)

text \<open>The failover a cluster shows.\<close>

definition failover_of ::
  "actuator_config \<Rightarrow> (obj_key \<Rightarrow> configmap option) \<Rightarrow> (obj_key \<Rightarrow> deployment option) \<Rightarrow> failover" where
  "failover_of cfg m d =
     ({c \<in> set (cfg_configmaps cfg). on_secondary cfg m c}, {r \<in> set (cfg_deployments cfg). stamped cfg d r})"

lemma failover_of_honest: "stamps_honest cfg m d \<longleftrightarrow> failover_inv cfg (failover_of cfg m d)"
  by (auto simp: stamps_honest_def failover_inv_def failover_of_def)

lemma failover_of_moved:
  "all_moved cfg m d \<longleftrightarrow> failover_of cfg m d = (set (cfg_configmaps cfg), set (cfg_deployments cfg))"
  by (auto simp: all_moved_def failover_of_def)

section \<open>One target at a time\<close>

lemma ref_key_eq: "ref_key r = ref_key r' \<longleftrightarrow> r = r'"
  by (cases r; cases r') (simp add: ref_key_def)

text \<open>A step touches the ConfigMaps or the Deployments, and one target of them.\<close>

lemma switch_step_one:
  assumes doc: "api_documented api cms deps" and step: "switch_step api cfg now pc p = (pc', p')"
    and ok: "switch_ok cfg (cms (world p)) (deps (world p)) pc"
  shows "deps (world p') = deps (world p) \<and>
       (\<exists>r. \<forall>r'. on_secondary cfg (cms (world p')) r' \<longrightarrow> r' = r \<or> on_secondary cfg (cms (world p)) r') \<or>
     cms (world p') = cms (world p) \<and>
       (\<exists>r. \<forall>r'. stamped cfg (deps (world p')) r' \<longrightarrow> r' = r \<or> stamped cfg (deps (world p)) r')"
proof (cases pc)
  case (PatchRead rs led)
  have "cms (world p') = cms (world p) \<and> deps (world p') = deps (world p)"
  proof (cases rs)
    case (Cons r rs')
    obtain g p1 where g: "outside (get_cm api (ref_namespace r) (ref_name r)) p = (g, p1)" by force
    then have "p' = p1" using step by (auto simp: PatchRead Cons Let_def split: sum.splits if_splits)
    then show ?thesis using get_cm_doc(1,2)[OF doc g] by simp
  qed (use step in \<open>auto simp: PatchRead split: if_splits\<close>)
  then show ?thesis by auto
next
  case (PatchWrite r cm rs led)
  obtain u p1 where u: "outside (update_cm api (ref_namespace r) (set_cm cfg cm)) p = (u, p1)" by force
  have name: "cm_name cm = ref_name r" using ok by (simp add: PatchWrite)
  note udoc = update_cm_doc[OF doc u, unfolded set_cm_simps name ref_key_def[symmetric]]
  have w: "world p' = world p1" using step u by (auto simp: PatchWrite set_cm_def Let_def split: sum.splits)
  have "r' = r \<or> on_secondary cfg (cms (world p)) r'" if "on_secondary cfg (cms (world p1)) r'" for r'
    using udoc(2) that ref_key_eq[of r' r] by (auto simp: stored_cm_def on_secondary_def split: if_splits)
  then show ?thesis using udoc(1) by (auto simp: w)
next
  case (RollRead rs led acc)
  obtain rolled es where acc: "acc = (rolled, es)" by force
  have "cms (world p') = cms (world p) \<and> deps (world p') = deps (world p)"
  proof (cases rs)
    case (Cons r rs')
    obtain g p1 where g: "outside (get_dep api (ref_namespace r) (ref_name r)) p = (g, p1)" by force
    then show ?thesis
      using step get_dep_doc(1,2)[OF doc g] by (auto simp: RollRead Cons acc split: sum.splits if_splits)
  qed (use step in \<open>auto simp: RollRead acc Let_def split: if_splits\<close>)
  then show ?thesis by auto
next
  case (RollWrite r dep rs led acc)
  obtain rolled es where acc: "acc = (rolled, es)" by force
  obtain u p1 where u: "outside (update_dep api (ref_namespace r) (set_dep cfg now dep)) p = (u, p1)" by force
  have name: "dep_name dep = ref_name r" using ok by (simp add: RollWrite)
  note udoc = update_dep_doc[OF doc u, unfolded set_dep_simps name ref_key_def[symmetric]]
  have w: "world p' = world p1" using step u by (auto simp: RollWrite acc set_dep_def Let_def split: sum.splits)
  have "r' = r \<or> stamped cfg (deps (world p)) r'" if "stamped cfg (deps (world p1)) r'" for r'
    using udoc(2) that ref_key_eq[of r' r] stored_copy_dep(3)[of r cfg now dep "deps (world p)" "deps (world p1)" r'] by auto
  then show ?thesis using udoc(1) by (auto simp: w)
qed (use step in auto)

text \<open>
  A change that keeps the failover and touches one target is a step of the specification.
\<close>

lemma one_target_step:
  assumes keep: "keeps_failover cms deps cfg w w'"
    and one: "deps w' = deps w \<and> (\<exists>r. \<forall>r'. on_secondary cfg (cms w') r' \<longrightarrow> r' = r \<or> on_secondary cfg (cms w) r') \<or>
      cms w' = cms w \<and> (\<exists>r. \<forall>r'. stamped cfg (deps w') r' \<longrightarrow> r' = r \<or> stamped cfg (deps w) r')"
  shows "failover_step cfg (failover_of cfg (cms w) (deps w)) (failover_of cfg (cms w') (deps w'))"
  using one
proof (elim disjE conjE exE)
  fix r assume d: "deps w' = deps w" and r: "\<forall>r'. on_secondary cfg (cms w') r' \<longrightarrow> r' = r \<or> on_secondary cfg (cms w) r'"
  show ?thesis
  proof (cases "r \<in> set (cfg_configmaps cfg) \<and> on_secondary cfg (cms w') r")
    case True
    then have "failover_of cfg (cms w') (deps w') =
        (insert r (fst (failover_of cfg (cms w) (deps w))), snd (failover_of cfg (cms w) (deps w)))"
      using r d keep by (auto simp: failover_of_def keeps_failover_def)
    then show ?thesis using failover_step.moved[of r cfg] True by (metis prod.collapse)
  next
    case False
    then have "failover_of cfg (cms w') (deps w') = failover_of cfg (cms w) (deps w)"
      using r d keep by (auto simp: failover_of_def keeps_failover_def)
    then show ?thesis using failover_step.unchanged[of cfg] by (metis prod.collapse)
  qed
next
  fix r assume c: "cms w' = cms w" and r: "\<forall>r'. stamped cfg (deps w') r' \<longrightarrow> r' = r \<or> stamped cfg (deps w) r'"
  show ?thesis
  proof (cases "r \<in> set (cfg_deployments cfg) \<and> stamped cfg (deps w') r \<and> \<not> stamped cfg (deps w) r")
    case True
    then have "failover_of cfg (cms w') (deps w') =
        (fst (failover_of cfg (cms w) (deps w)), insert r (snd (failover_of cfg (cms w) (deps w))))"
      using r c keep by (auto simp: failover_of_def keeps_failover_def)
    moreover have "\<forall>c \<in> set (cfg_configmaps cfg). ref_namespace c = ref_namespace r \<longrightarrow>
        c \<in> fst (failover_of cfg (cms w) (deps w))"
      using keep c True by (auto simp: keeps_failover_def failover_of_def)
    ultimately show ?thesis using failover_step.restarted[of r cfg] True by (metis prod.collapse)
  next
    case False
    then have "failover_of cfg (cms w') (deps w') = failover_of cfg (cms w) (deps w)"
      using r c keep by (auto simp: failover_of_def keeps_failover_def)
    then show ?thesis using failover_step.unchanged[of cfg] by (metis prod.collapse)
  qed
qed

section \<open>Refinement\<close>

lemma switcher_refines:
  assumes doc: "api_documented api cms deps" and ok: "switcher_ok api cms deps cfg0 s w"
    and move: "switcher_moves api s w s' w'"
  shows "failover_step cfg0 (failover_of cfg0 (cms w) (deps w)) (failover_of cfg0 (cms w') (deps w'))"
proof -
  obtain p pc p' where p: "w = world p" "w' = world p'" "s' = s\<lparr>sr_pc := pc\<rparr>"
    "switch_step api (sr_cfg s) (sr_now s) (sr_pc s) p = (pc, p')"
    using move by (rule switcher_movesE)
  have s: "same_failover cfg0 (sr_cfg s)" "switch_ok (sr_cfg s) (cms (world p)) (deps (world p)) (sr_pc s)"
    using doc ok p(1) by (simp_all add: switcher_ok_def)
  show ?thesis
    using switch_step_one[OF doc p(4) s(2)] conjunct2[OF switcher_move[OF doc ok move]]
    unfolding same_failover_targets[OF s(1)] p(1,2) by (intro one_target_step)
qed

text \<open>Switches among themselves: nothing else acts on the cluster.\<close>

abbreviation switches_alone ::
  "'w k8s_api \<Rightarrow> actuator_config \<Rightarrow> 'w \<times> switcher list \<Rightarrow> 'w \<times> switcher list \<Rightarrow> bool" where
  "switches_alone api cfg0 \<equiv> execution (launched cfg0) (switcher_moves api) (=)"

lemma alone_step:
  "interleaved start move (=) s s' \<Longrightarrow> (\<And>w. keeps w w) \<Longrightarrow> interleaved start move keeps s s'"
  by (erule interleaved.cases) (auto intro: interleaved.intros)

lemma switches_alone_refine:
  assumes doc: "api_documented api cms deps" and "switches_alone api cfg0 s0 s" and "snd s0 = []"
  shows "(\<forall>x \<in> set (snd s). switcher_ok api cms deps cfg0 x (fst s)) \<and>
     (failover_step cfg0)\<^sup>*\<^sup>* (failover_of cfg0 (cms (fst s0)) (deps (fst s0))) (failover_of cfg0 (cms (fst s)) (deps (fst s)))"
  using assms(2)
proof (induction rule: rtranclp_induct)
  case base
  then show ?case using assms(3) by simp
next
  case (step s s')
  have run: "interleaved (launched cfg0) (switcher_moves api) (keeps_failover cms deps cfg0) s s'"
    by (rule alone_step[OF step(2)]) simp
  have ok: "\<forall>x \<in> set (snd s). switcher_ok api cms deps cfg0 x (fst s)" using step(3) by blast
  have "failover_step cfg0 (failover_of cfg0 (cms (fst s)) (deps (fst s))) (failover_of cfg0 (cms (fst s')) (deps (fst s')))"
    using step(2)
  proof (cases rule: interleaved.cases)
    case (joins l w ls)
    then show ?thesis by (simp add: failover_of_def failover_step.unchanged)
  next
    case (moves i ls w l w')
    then have "switcher_ok api cms deps cfg0 (ls ! i) w" using ok by simp
    from switcher_refines[OF doc this moves(4)] show ?thesis by (simp add: moves)
  next
    case (others w w' ls)
    then show ?thesis by (simp add: failover_of_def failover_step.unchanged)
  qed
  then show ?case
    using step(3) switches.step_ok[OF run ok] by (auto intro: rtranclp.rtrancl_into_rtrancl)
qed

text \<open>
  C13: Concurrent switches refine the failover. In every interleaving of the API calls of any number of
  switches, the cluster goes only through steps of the specification: one ConfigMap target at a
  time is moved, one Deployment target at a time is restarted, the latter only when the ConfigMaps of its
  namespace are moved, and nothing is undone. So stamps that were honest are, and the cluster is
  moved exactly when the specification has nothing left to do.
\<close>

theorem switches_refine_failover:
  assumes "api_documented api cms deps" and "switches_alone api cfg0 (w0, []) (w, ss)"
  shows "(failover_step cfg0)\<^sup>*\<^sup>* (failover_of cfg0 (cms w0) (deps w0)) (failover_of cfg0 (cms w) (deps w)) \<and>
     (stamps_honest cfg0 (cms w0) (deps w0) \<longrightarrow> stamps_honest cfg0 (cms w) (deps w)) \<and>
     (all_moved cfg0 (cms w) (deps w) \<longleftrightarrow>
        failover_of cfg0 (cms w) (deps w) = (set (cfg_configmaps cfg0), set (cfg_deployments cfg0)))"
proof -
  have run: "(failover_step cfg0)\<^sup>*\<^sup>* (failover_of cfg0 (cms w0) (deps w0)) (failover_of cfg0 (cms w) (deps w))"
    using switches_alone_refine[OF assms] by simp
  then show ?thesis
    using failover_steps_inv[OF run] by (simp add: failover_of_honest failover_of_moved)
qed

text \<open>A lone switch of the small deployment, to its end.\<close>

theorem switches_refine_failover_witness:
  "\<exists>w. switches_alone mem_api (app_config False) (app_mem ''main'' [] [], []) (w, [app_switcher\<lparr>sr_pc := Finished True None\<rparr>]) \<and>
     (failover_step (app_config False))\<^sup>*\<^sup>* (failover_of (app_config False) (mem_cms (app_mem ''main'' [] [])) (mem_deps (app_mem ''main'' [] [])))
       (failover_of (app_config False) (mem_cms w) (mem_deps w))"
proof -
  have l: "launched (app_config False) app_switcher"
    by (simp add: launched_def same_failover_def)
  obtain p' where k: "k8s_switch mem_api (app_config False) ''t'' (idle (app_mem ''main'' [] [])) = ((True, None), p')"
    using app_switch by (metis prod.collapse)
  let ?w = "app_mem ''main'' [] []"
  have "interleaved (launched (app_config False)) (switcher_moves mem_api) (=) (?w, []) (?w, [] @ [app_switcher])"
    by (rule interleaved.joins[where start = "launched (app_config False)", OF l])
  then have join: "switches_alone mem_api (app_config False) (?w, []) (?w, [app_switcher])"
    by (intro r_into_rtranclp) simp
  have "(switch_turn mem_api (app_config False) ''t'' ^^ switch_bound (app_config False))
      (switch_begin (app_config False), idle ?w) = (Finished True None, p')"
    by (simp add: switch_bound_turns k)
  then have "switches_alone mem_api (app_config False) (world (idle ?w), [app_switcher])
      (world p', [app_switcher][0 := ([app_switcher] ! 0)\<lparr>sr_pc := Finished True None\<rparr>])"
    by (intro turns_run[where n = "switch_bound (app_config False)"]) simp_all
  then have "switches_alone mem_api (app_config False) (?w, [app_switcher])
      (world p', [app_switcher\<lparr>sr_pc := Finished True None\<rparr>])"
    by (simp only: idle_world) simp
  note run = rtranclp_trans[OF join this]
  show ?thesis using run switches_refine_failover[OF mem_api_documented run] by blast
qed

end
