(* ===== verification/Observer_Main.thy ===== *)
theory Observer_Main
  imports Kube_Clients Poll_Properties
begin

text \<open>
  \<open>main\<close> of \<open>cmd/svchealthcheck\<close> from the parsed flags to the poll loop, and the HTTP server it runs
  beside it: the checks, the connection to the primary, the Kubernetes client, the targets, the first
  state of the loop, and what each route answers in every state of the process.
\<close>

section \<open>Flags and environment\<close>

text \<open>The flags read after the first checks.\<close>

record main_flags = flags +
  fl_conn :: gostring
  fl_bucket :: gostring
  fl_user :: gostring
  fl_pass :: gostring
  fl_critical :: gostring
  fl_addr :: gostring
  fl_failover_delay :: duration
  fl_secondary :: gostring
  fl_namespace :: gostring
  fl_configmap :: gostring
  fl_config_key :: gostring
  fl_deployments :: gostring
  fl_dry_run :: bool
  fl_tls_cert_path :: gostring
  fl_tls_skip_verify :: bool
  fl_webhook_user :: gostring
  fl_webhook_pass :: gostring

text \<open>The flags of a command line that sets none.\<close>

definition default_flags :: main_flags where
  "default_flags =
     \<lparr>fl_log_level = ''info'', fl_actuators = [], fl_mode = [], fl_webhook_url = [], fl_webhook_headers = [],
      fl_webhook_ca_cert = [], fl_webhook_skip_verify = False, fl_webhook_timeout = 3 * second, fl_webhook_retries = 2,
      fl_probe_timeout = 2 * second, fl_interval = 5 * second, fl_conn = ''couchbase://localhost'',
      fl_bucket = ''travel-sample'', fl_user = ''Administrator'', fl_pass = ''password'', fl_critical = ''kv'',
      fl_addr = '':8080'', fl_failover_delay = 150 * second, fl_secondary = [], fl_namespace = ''default'',
      fl_configmap = ''cb-conn'', fl_config_key = ''connstring'', fl_deployments = [], fl_dry_run = False,
      fl_tls_cert_path = [], fl_tls_skip_verify = False, fl_webhook_user = [], fl_webhook_pass = []\<rparr>"

text \<open>
  The SDK: a cluster's ping, the ping of a bucket, and the wait for a bucket, whose result is ignored.
  Connecting only reads its arguments.
\<close>

record ('w, 'e) sdk_cluster =
  sdk_ping :: "('w, 'e) ping"
  sdk_bucket :: "gostring \<Rightarrow> ('w, 'e) ping"
  sdk_wait :: "gostring \<Rightarrow> duration \<Rightarrow> 'w \<Rightarrow> 'w"

record connect_options =
  co_user :: gostring
  co_pass :: gostring
  co_trust :: tls_trust

record ('a, 'g, 'x, 'w, 'e) main_env =
  mn_environ :: environment
  mn_read_file :: "gostring \<Rightarrow> gostring + gostring"
  mn_has_certs :: "gostring \<Rightarrow> bool"
  mn_connect :: "gostring \<Rightarrow> connect_options \<Rightarrow> gostring + ('w, 'e) sdk_cluster"
  mn_kube :: "('a, 'g, 'x, 'w) kube_env"
  mn_now :: "'w \<Rightarrow> instant \<times> 'w"
  mn_stamp :: "'w \<Rightarrow> gostring"
  mn_http :: "http_client \<Rightarrow> 'w http_env"
  mn_float :: "rat \<Rightarrow> gostring"

definition options_of :: "main_flags \<Rightarrow> tls_trust \<Rightarrow> connect_options" where
  "options_of fl sec = \<lparr>co_user = fl_user fl, co_pass = fl_pass fl, co_trust = sec\<rparr>"

definition prober_of :: "main_flags \<Rightarrow> ('w, 'e) sdk_cluster \<Rightarrow> ('w, 'e) gocb_prober" where
  "prober_of fl c = \<lparr>gp_cluster = sdk_ping c, gp_bucket = Some (sdk_bucket c (fl_bucket fl)),
     gp_timeout = fl_probe_timeout fl\<rparr>"

definition critical_of :: "main_flags \<Rightarrow> gostring list" where
  "critical_of fl = split_on (CHR '','') (fl_critical fl)"

section \<open>The loop's configuration\<close>

text \<open>A nil \<open>*http.Client\<close>, and the calls of a nil Kubernetes client: no actuator that is off uses them.\<close>

definition nil_client :: http_client where
  "nil_client = \<lparr>hc_trust = SystemRoots, hc_timeout = 0\<rparr>"

definition nil_api :: "'w k8s_api" where
  "nil_api = \<lparr>get_cm = \<lambda>ns n w. (Inl ''nil client'', w), update_cm = \<lambda>ns c w. (Inl ''nil client'', w),
     get_dep = \<lambda>ns n w. (Inl ''nil client'', w), update_dep = \<lambda>ns d w. (Inl ''nil client'', w)\<rparr>"

definition client_of :: "checked \<Rightarrow> http_client" where
  "client_of ck = (case ck_client ck of Some c \<Rightarrow> c | None \<Rightarrow> nil_client)"

definition webhook_of :: "environment \<Rightarrow> main_flags \<Rightarrow> checked \<Rightarrow> http_notifier" where
  "webhook_of env fl ck =
     \<lparr>hn_url = fl_webhook_url fl, hn_user = resolve_cred env (fl_webhook_user fl) ''WEBHOOK_USER'',
      hn_pass = resolve_cred env (fl_webhook_pass fl) ''WEBHOOK_PASS'', hn_headers = ck_headers ck,
      hn_retries = fl_webhook_retries fl, hn_backoff = None, hn_dry_run = fl_dry_run fl\<rparr>"

definition loop_config_of :: "environment \<Rightarrow> main_flags \<Rightarrow> checked \<Rightarrow> ref list \<Rightarrow> ref list \<Rightarrow> loop_config" where
  "loop_config_of env fl ck cms deps =
     \<lparr>lc_conn = fl_conn fl, lc_secondary = fl_secondary fl, lc_critical = critical_of fl,
      lc_config_key = fl_config_key fl, lc_cm_refs = cms, lc_dep_refs = deps, lc_dry_run = fl_dry_run fl,
      lc_failover_delay = fl_failover_delay fl, lc_acts = ck_actuators ck, lc_webhook = webhook_of env fl ck,
      lc_webhook_client = client_of ck\<rparr>"

definition loop_env_of ::
  "('a, 'g, 'x, 'w, 'e) main_env \<Rightarrow> main_flags \<Rightarrow> checked \<Rightarrow> tls_trust \<Rightarrow> ('w, 'e) gocb_prober \<Rightarrow>
   'w kube_client option \<Rightarrow> ('w, 'e) loop_env" where
  "loop_env_of env fl ck sec primary client =
     \<lparr>en_now = mn_now env, en_primary = primary,
      en_connect = map_sum id (prober_of fl) (mn_connect env (fl_secondary fl) (options_of fl sec)),
      en_api = (case client of Some cs \<Rightarrow> kc_api cs | None \<Rightarrow> nil_api), en_stamp = mn_stamp env,
      en_http = mn_http env (client_of ck), en_float = mn_float env\<rparr>"

section \<open>The process\<close>

text \<open>What the handlers of the server share with the loop; observe-only has no heartbeat.\<close>

record ('w, 'e) service =
  sv_acts :: actuators
  sv_critical :: "gostring list"
  sv_max_age :: duration
  sv_client :: "'w kube_client option"
  sv_active :: "('w, 'e) gocb_prober option active_prober"
  sv_heartbeat :: "heartbeat option"
  sv_first_eval :: bool

definition new_service ::
  "main_flags \<Rightarrow> checked \<Rightarrow> ('w, 'e) gocb_prober \<Rightarrow> 'w kube_client option \<Rightarrow> ('w, 'e) service" where
  "new_service fl ck primary client =
     \<lparr>sv_acts = ck_actuators ck, sv_critical = critical_of fl, sv_max_age = dur_mul 3 (fl_interval fl),
      sv_client = client, sv_active = new_active_prober (Some primary),
      sv_heartbeat = (if any_actuator (ck_actuators ck) then Some 0 else None), sv_first_eval = False\<rparr>"

text \<open>
  How \<open>main\<close> goes on: exit status 2 with a message, \<open>log.Fatal\<close>, serving for ever, or the loop with
  what it works on.
\<close>

datatype ('w, 'e) main_outcome =
    ExitTwo gostring
  | FatalLog gostring
  | FatalRefs gostring refs_error
  | ServeOnly "('w, 'e) service"
  | RunLoop "('w, 'e) service" "('w, 'e) loop_env" loop_config

text \<open>The targets, parsed with the k8s actuator only.\<close>

definition parse_targets :: "main_flags \<Rightarrow> actuators \<Rightarrow> gostring \<times> refs_error + ref list \<times> ref list" where
  "parse_targets fl acts =
     (if \<not> act_k8s acts then Inr ([], [])
      else
        (case parse_refs_required (fl_configmap fl) (fl_namespace fl) of
           Inl e \<Rightarrow> Inl (''--configmap: '', e)
         | Inr cms \<Rightarrow>
             (case parse_refs (fl_deployments fl) (fl_namespace fl) of
                Inl e \<Rightarrow> Inl (''--deployments: '', e)
              | Inr deps \<Rightarrow> Inr (cms, deps))))"

definition optional_client ::
  "('a, 'g, 'x, 'w, 'e) main_env \<Rightarrow> actuators \<Rightarrow> 'w proc \<Rightarrow> (gostring + 'w kube_client option) \<times> 'w proc" where
  "optional_client env acts p =
     (if act_k8s acts then
        (case must_k8s_client (mn_kube env) (mn_environ env) p of (r, p1) \<Rightarrow> (map_sum id Some r, p1))
      else (Inr None, p))"

text \<open>From the first connection on.\<close>

definition main_connected ::
  "('a, 'g, 'x, 'w, 'e) main_env \<Rightarrow> main_flags \<Rightarrow> checked \<Rightarrow> tls_trust \<Rightarrow> ('w, 'e) sdk_cluster \<Rightarrow> 'w proc \<Rightarrow>
   ('w, 'e) main_outcome \<times> 'w proc" where
  "main_connected env fl ck sec cluster p =
     (let acts = ck_actuators ck; primary = prober_of fl cluster;
          p1 = world_update (sdk_wait cluster (fl_bucket fl) (5 * second)) p
      in case optional_client env acts p1 of
           (Inl e, p2) \<Rightarrow> (FatalLog e, p2)
         | (Inr client, p2) \<Rightarrow>
             (let sv = new_service fl ck primary client;
                  p3 = log_event LevelInfo ''startup''
                         [(''mode'', AStr (if any_actuator acts then ''active'' else ''observe'')),
                          (''critical'', AStr (fl_critical fl)), (''addr'', AStr (fl_addr fl))] p2
              in if \<not> any_actuator acts then (ServeOnly (sv\<lparr>sv_first_eval := True\<rparr>), p3)
                 else
                   (case parse_targets fl acts of
                      Inl (flag, e) \<Rightarrow> (FatalRefs flag e, p3)
                    | Inr (cms, deps) \<Rightarrow>
                        (RunLoop sv (loop_env_of env fl ck sec primary client)
                           (loop_config_of (mn_environ env) fl ck cms deps), p3))))"

definition observer_main ::
  "('a, 'g, 'x, 'w, 'e) main_env \<Rightarrow> main_flags \<Rightarrow> 'w proc \<Rightarrow> ('w, 'e) main_outcome \<times> 'w proc" where
  "observer_main env fl p =
     (case check_flags (mn_environ env) (mn_read_file env) (mn_has_certs env) fl p of
        (Inl e, p1) \<Rightarrow> (ExitTwo e, p1)
      | (Inr ck, p1) \<Rightarrow>
          (case build_security_config (mn_read_file env) (mn_has_certs env) (fl_tls_cert_path fl) (fl_tls_skip_verify fl) of
             (sec, warning) \<Rightarrow>
               let p2 = (case warning of None \<Rightarrow> p1 | Some line \<Rightarrow> log_event LevelInfo line [] p1)
               in case sec of
                    Inl e \<Rightarrow> (FatalLog e, p2)
                  | Inr trust \<Rightarrow>
                      (case mn_connect env (fl_conn fl) (options_of fl trust) of
                         Inl e \<Rightarrow> (FatalLog e, p2)
                       | Inr cluster \<Rightarrow> main_connected env fl ck trust cluster p2)))"

section \<open>The HTTP server\<close>

datatype http_answer =
    HealthReport response
  | Answered nat gostring
  | Exposition "series \<Rightarrow> rat option"
  | NotFound
  | Aborted

text \<open>\<open>/healthz\<close> reads the clock only when the loop has ticked.\<close>

definition serve_live :: "('w \<Rightarrow> instant \<times> 'w) \<Rightarrow> ('w, 'e) service \<Rightarrow> 'w \<Rightarrow> http_answer \<times> 'w" where
  "serve_live now sv w =
     (if sv_heartbeat sv = None \<or> sv_heartbeat sv = Some 0 then (Answered (liveness (sv_heartbeat sv) (sv_max_age sv) 0) [], w)
      else (case now w of (t, w1) \<Rightarrow> (Answered (liveness (sv_heartbeat sv) (sv_max_age sv) t) [], w1)))"

text \<open>\<open>/readyz\<close> calls the API server only after the first evaluation, and only with the k8s actuator.\<close>

definition serve_ready :: "('w, 'e) service \<Rightarrow> 'w \<Rightarrow> http_answer \<times> 'w" where
  "serve_ready sv w =
     (let answer = (\<lambda>e. case readiness (ready_check (sv_first_eval sv) (act_k8s (sv_acts sv)) e) of (n, t) \<Rightarrow> Answered n t)
      in if sv_first_eval sv \<and> act_k8s (sv_acts sv) then
           (case sv_client sv of
              None \<Rightarrow> (Aborted, w)
            | Some cs \<Rightarrow> (case kc_server_version cs w of (e, w1) \<Rightarrow> (answer e, w1)))
         else (answer None, w))"

text \<open>\<open>/health/couchbase\<close> probes on every request; a nil probe target panics, which aborts the request.\<close>

definition serve_couchbase :: "('w \<Rightarrow> instant \<times> 'w) \<Rightarrow> ('w, 'e) service \<Rightarrow> 'w \<Rightarrow> http_answer \<times> 'w" where
  "serve_couchbase now sv w =
     (case ap_target (sv_active sv) of
        None \<Rightarrow> (Aborted, w)
      | Some g \<Rightarrow>
          (case serve_health (active_probe gocb_probe (new_active_prober g)) (sv_critical sv)
                  (\<lambda>w. case now w of (t, w1) \<Rightarrow> (rfc3339 t, w1)) w of
             (rsp, w1) \<Rightarrow> (HealthReport rsp, w1)))"

text \<open>The mux, on a clean path.\<close>

definition serve_route ::
  "('w \<Rightarrow> instant \<times> 'w) \<Rightarrow> ('w, 'e) service \<Rightarrow> metric_call list \<Rightarrow> gostring \<Rightarrow> 'w \<Rightarrow> http_answer \<times> 'w" where
  "serve_route now sv ms path w =
     (if path = ''/health/couchbase'' then serve_couchbase now sv w
      else if path = ''/healthz'' then serve_live now sv w
      else if path = ''/readyz'' then serve_ready sv w
      else if path = ''/metrics'' then (Exposition (shown ms), w)
      else (NotFound, w))"

text \<open>What the handlers see while the loop is in a state.\<close>

definition service_at :: "('w, 'e) service \<Rightarrow> ('w, 'e) observer \<Rightarrow> ('w, 'e) service" where
  "service_at sv ob =
     sv\<lparr>sv_active := ob_active ob, sv_heartbeat := Some (ob_heartbeat ob), sv_first_eval := ob_first_eval ob\<rparr>"

section \<open>Every way the process starts\<close>

lemma observer_main_cases:
  assumes "observer_main env fl p = (r, p')"
  obtains
    (two) e where "r = ExitTwo e" "world p' = world p"
  | (early) e where "r = FatalLog e" "world p' = world p"
  | (connected) ck trust cluster p1 p2 where
      "check_flags (mn_environ env) (mn_read_file env) (mn_has_certs env) fl p = (Inr ck, p1)"
      "fst (build_security_config (mn_read_file env) (mn_has_certs env) (fl_tls_cert_path fl) (fl_tls_skip_verify fl)) = Inr trust"
      "p2 = p1 \<or> (\<exists>line. snd (build_security_config (mn_read_file env) (mn_has_certs env) (fl_tls_cert_path fl)
           (fl_tls_skip_verify fl)) = Some line \<and> p2 = log_event LevelInfo line [] p1)"
      "mn_connect env (fl_conn fl) (options_of fl trust) = Inr cluster"
      "main_connected env fl ck trust cluster p2 = (r, p')"
proof -
  obtain c p1 where c: "check_flags (mn_environ env) (mn_read_file env) (mn_has_certs env) fl p = (c, p1)" by force
  have w1: "world p1 = world p" using check_flags_world[of "mn_environ env" _ _ fl p] c by (metis snd_conv)
  obtain sec warning where sec:
    "build_security_config (mn_read_file env) (mn_has_certs env) (fl_tls_cert_path fl) (fl_tls_skip_verify fl) = (sec, warning)"
    by force
  define p2 where "p2 = (case warning of None \<Rightarrow> p1 | Some line \<Rightarrow> log_event LevelInfo line [] p1)"
  have w2: "world p2 = world p" by (simp add: p2_def w1 split: option.split)
  note run = assms[unfolded observer_main_def c sec prod.case Let_def, folded p2_def]
  show thesis
  proof (cases c)
    case (Inl e)
    then show ?thesis using run w1 by (intro two) auto
  next
    case ck: (Inr ck)
    show ?thesis
    proof (cases sec)
      case (Inl e)
      then show ?thesis using run ck w2 by (intro early) auto
    next
      case trust: (Inr trust)
      show ?thesis
      proof (cases "mn_connect env (fl_conn fl) (options_of fl trust)")
        case (Inl e)
        then show ?thesis using run ck trust w2 by (intro early) auto
      next
        case (Inr cluster)
        then show ?thesis
          using run c sec ck trust by (intro connected[of ck p1 trust p2 cluster]) (auto simp: p2_def split: option.splits)
      qed
    qed
  qed
qed

lemma main_connected_cases:
  assumes "main_connected env fl ck trust cluster p = (r, p')"
  obtains
    (no_client) e where "optional_client env (ck_actuators ck)
        (world_update (sdk_wait cluster (fl_bucket fl) (5 * second)) p) = (Inl e, p')" "r = FatalLog e"
  | (started) client p2 where "optional_client env (ck_actuators ck)
        (world_update (sdk_wait cluster (fl_bucket fl) (5 * second)) p) = (Inr client, p2)"
      "p' = log_event LevelInfo ''startup''
         [(''mode'', AStr (if any_actuator (ck_actuators ck) then ''active'' else ''observe'')),
          (''critical'', AStr (fl_critical fl)), (''addr'', AStr (fl_addr fl))] p2"
      "(\<not> any_actuator (ck_actuators ck) \<and>
          r = ServeOnly ((new_service fl ck (prober_of fl cluster) client)\<lparr>sv_first_eval := True\<rparr>)) \<or>
       (any_actuator (ck_actuators ck) \<and>
          (\<exists>flag e. parse_targets fl (ck_actuators ck) = Inl (flag, e) \<and> r = FatalRefs flag e)) \<or>
       (any_actuator (ck_actuators ck) \<and>
          (\<exists>cms deps. parse_targets fl (ck_actuators ck) = Inr (cms, deps) \<and>
             r = RunLoop (new_service fl ck (prober_of fl cluster) client)
                   (loop_env_of env fl ck trust (prober_of fl cluster) client)
                   (loop_config_of (mn_environ env) fl ck cms deps)))"
proof -
  obtain c p2 where c: "optional_client env (ck_actuators ck)
      (world_update (sdk_wait cluster (fl_bucket fl) (5 * second)) p) = (c, p2)" by force
  note run = assms[unfolded main_connected_def Let_def c prod.case]
  show thesis
  proof (cases c)
    case (Inl e)
    then show ?thesis using run c by (intro no_client) auto
  next
    case (Inr client)
    then show ?thesis
      using run c by (intro started[of client p2]) (auto split: if_splits sum.splits prod.splits)
  qed
qed

lemma known_main_events:
  "''startup'' \<in> set known_events" "''mode_deprecated'' \<in> set known_events"
  "''webhook_window_tight'' \<in> set known_events" "''liveness_window_tight'' \<in> set known_events"
  by (simp_all add: known_events_def templates_def)

lemma check_flags_emits: "check_flags env rf hc fl p = (r, p') \<Longrightarrow> emits {} p p'"
  by (auto simp: check_flags_def window_warning_def Let_def intro!: emits_log known_main_events
      split: sum.splits prod.splits option.splits if_splits)

lemma optional_client_frame:
  assumes "optional_client env acts p = (r, p')"
  shows "logs p' = logs p" "metrics p' = metrics p"
  using assms
  by (auto simp: optional_client_def must_k8s_client_def local_config_def Let_def outside_eq
      split: if_splits prod.splits sum.splits)

lemma ignored_cert_is_tls_warning:
  "snd (build_security_config rf hc path skip) = Some line \<Longrightarrow>
     tls_warning \<lparr>le_level = LevelInfo, le_event = line, le_attrs = []\<rparr>"
  by (auto simp: build_security_config_def tls_warning_def has_prefix_def split: if_splits sum.splits)

lemma before_loop_emits: "before_loop p \<Longrightarrow> emits {} p q \<Longrightarrow> before_loop q"
  by (auto simp: before_loop_def emits_def list_all_iff rendered_def)

text \<open>What a loop that starts was built from.\<close>

lemma observer_main_loop:
  assumes "observer_main env fl p = (RunLoop sv lenv cfg, p')" "before_loop p"
  obtains ck trust cluster client p2 where
    "check_flags (mn_environ env) (mn_read_file env) (mn_has_certs env) fl p = (Inr ck, p2)"
    "mn_connect env (fl_conn fl) (options_of fl trust) = Inr cluster"
    "any_actuator (ck_actuators ck)"
    "act_k8s (ck_actuators ck) \<longrightarrow> client \<noteq> None"
    "parse_targets fl (ck_actuators ck) = Inr (lc_cm_refs cfg, lc_dep_refs cfg)"
    "sv = new_service fl ck (prober_of fl cluster) client"
    "lenv = loop_env_of env fl ck trust (prober_of fl cluster) client"
    "cfg = loop_config_of (mn_environ env) fl ck (lc_cm_refs cfg) (lc_dep_refs cfg)"
    "before_loop p'"
  using assms(1)
proof (cases rule: observer_main_cases)
  case (connected ck trust cluster p1 p2)
  have "before_loop p1" using before_loop_emits[OF assms(2) check_flags_emits[OF connected(1)]] .
  then have b2: "before_loop p2"
    using connected(3) ignored_cert_is_tls_warning by (auto simp: before_loop_def)
  from connected(5) show thesis
  proof (cases rule: main_connected_cases)
    case (started client q)
    have "before_loop q"
      using b2 optional_client_frame[OF started(1)] by (simp add: before_loop_def)
    then have "before_loop p'"
      using started(2) before_loop_emits[OF _ emits_log[OF emits_refl known_main_events(1)]] by blast
    moreover have "act_k8s (ck_actuators ck) \<longrightarrow> client \<noteq> None"
      using started(1) by (auto simp: optional_client_def map_sum_Inr_iff split: prod.splits)
    ultimately show thesis
      using started(3) connected(1,4) by (intro that[of ck p1 trust cluster client]) (auto simp: loop_config_of_def)
  qed simp
qed auto

section \<open>Properties\<close>

text \<open>
  C19: The loop starts only when it is configured. Whenever \<open>main\<close> goes on to its loop, some actuator is
  on, the loop's first state is reachable, so every property of the loop holds of the process from
  there on; the Kubernetes actuator has a client, at least one ConfigMap target and exactly the
  targets the flags name; and the webhook has a URL, headers that parsed and a client with the
  timeout of the flags.
\<close>

theorem loop_starts_configured:
  assumes "observer_main env fl p = (RunLoop sv lenv cfg, p')" and "before_loop p"
  shows "reachable lenv cfg (start_loop lenv cfg p') \<and> any_actuator (lc_acts cfg) \<and>
     (\<exists>d. parse_actuators (fl_actuators fl) (fl_mode fl) = Inr (lc_acts cfg, d)) \<and>
     (act_k8s (lc_acts cfg) \<longrightarrow>
        sv_client sv \<noteq> None \<and> lc_cm_refs cfg \<noteq> [] \<and>
        parse_refs (fl_configmap fl) (fl_namespace fl) = Inr (lc_cm_refs cfg) \<and>
        parse_refs (fl_deployments fl) (fl_namespace fl) = Inr (lc_dep_refs cfg)) \<and>
     (act_webhook (lc_acts cfg) \<longrightarrow>
        hn_url (lc_webhook cfg) \<noteq> [] \<and>
        resolve_headers (mn_environ env) (fl_webhook_headers fl) ''WEBHOOK_HEADER'' = Inr (hn_headers (lc_webhook cfg)) \<and>
        hc_timeout (lc_webhook_client cfg) = fl_webhook_timeout fl)"
  using assms
proof (rule observer_main_loop)
  fix ck trust cluster client p2
  assume flags: "check_flags (mn_environ env) (mn_read_file env) (mn_has_certs env) fl p = (Inr ck, p2)"
    and any: "any_actuator (ck_actuators ck)" and client: "act_k8s (ck_actuators ck) \<longrightarrow> client \<noteq> None"
    and targets: "parse_targets fl (ck_actuators ck) = Inr (lc_cm_refs cfg, lc_dep_refs cfg)"
    and sv: "sv = new_service fl ck (prober_of fl cluster) client"
    and cfg: "cfg = loop_config_of (mn_environ env) fl ck (lc_cm_refs cfg) (lc_dep_refs cfg)"
    and b: "before_loop p'"
  from cfg have acts: "lc_acts cfg = ck_actuators ck" "lc_webhook cfg = webhook_of (mn_environ env) fl ck"
    "lc_webhook_client cfg = client_of ck"
    by (metis loop_config.select_convs(9) loop_config.select_convs(10) loop_config.select_convs(11) loop_config_of_def)+
  note checked = check_flags_ok[OF flags]
  have "hc_timeout (client_of ck) = fl_webhook_timeout fl" if "act_webhook (ck_actuators ck)"
    using checked(2)[OF that] by (auto simp: client_of_def new_client_def split: if_splits sum.splits)
  then show ?thesis
    using reachable.start[OF b] any client targets checked
    by (auto simp: acts sv new_service_def parse_targets_def parse_refs_required_def webhook_of_def bind_result_Inr_iff
        split: sum.splits if_splits)
qed

text \<open>Waiting for a bucket changes no object of the Kubernetes cluster.\<close>

definition sdk_documented ::
  "('a, 'g, 'x, 'w, 'e) main_env \<Rightarrow> ('w \<Rightarrow> obj_key \<Rightarrow> configmap option) \<Rightarrow> ('w \<Rightarrow> obj_key \<Rightarrow> deployment option) \<Rightarrow> bool" where
  "sdk_documented env cms deps \<longleftrightarrow>
     (\<forall>conn opts c b d w. mn_connect env conn opts = Inr c \<longrightarrow>
        cms (sdk_wait c b d w) = cms w \<and> deps (sdk_wait c b d w) = deps w)"

lemma optional_client_doc:
  assumes "clients_documented (mn_kube env) cms deps" "optional_client env acts p = (r, p')"
  shows "cms (world p') = cms (world p) \<and> deps (world p') = deps (world p) \<and>
     (\<forall>cs. r = Inr (Some cs) \<longrightarrow> api_documented (kc_api cs) cms deps)"
  using assms(2) must_k8s_client_doc[OF assms(1)]
  by (fastforce simp: optional_client_def map_sum_Inr_iff split: if_splits prod.splits)

lemma start_loop_cluster:
  assumes "act_k8s (lc_acts cfg) \<Longrightarrow> api_documented (en_api lenv) cms deps"
  shows "cms (world (ob_proc (start_loop lenv cfg p))) = cms (world p) \<and>
     deps (world (ob_proc (start_loop lenv cfg p))) = deps (world p)"
proof -
  obtain switched p1 where k: "start_k8s lenv cfg p = (switched, p1)" by force
  have w: "world (ob_proc (start_loop lenv cfg p)) = world p1"
    by (cases rule: start_loop_cases[of lenv cfg p]) (use k in simp_all)
  from k show ?thesis
  proof (cases rule: start_k8s_cases)
    case (on p0 stale p2)
    have "cms (world p2) = cms (world p0) \<and> deps (world p2) = deps (world p0)"
      using reconcile_doc[OF assms[OF on(1)], where cfg = "k8s_config cfg" and p = p0] on(4) by simp
    then show ?thesis using on w by simp
  qed (simp add: w)
qed

text \<open>
  C20: Starting the observer leaves the cluster alone. Whatever the flags and however it ends, \<open>main\<close>
  changes no ConfigMap and no Deployment before the first tick of its loop, the reconcile included;
  and with the Kubernetes actuator on, the API the loop works on is the documented one.
\<close>

theorem startup_leaves_cluster:
  assumes "clients_documented (mn_kube env) cms deps" and "sdk_documented env cms deps"
    and "observer_main env fl p = (r, p')"
  shows "cms (world p') = cms (world p) \<and> deps (world p') = deps (world p) \<and>
     (\<forall>sv lenv cfg. r = RunLoop sv lenv cfg \<longrightarrow>
        (act_k8s (lc_acts cfg) \<longrightarrow> api_documented (en_api lenv) cms deps) \<and>
        cms (world (ob_proc (start_loop lenv cfg p'))) = cms (world p) \<and>
        deps (world (ob_proc (start_loop lenv cfg p'))) = deps (world p))"
  using assms(3)
proof (cases rule: observer_main_cases)
  case (connected ck trust cluster p1 p2)
  have "world p1 = world p" using check_flags_world[of "mn_environ env" _ _ fl p] connected(1) by (metis snd_conv)
  then have w: "world p2 = world p" using connected(3) by auto
  have wait: "cms (sdk_wait cluster b d x) = cms x" "deps (sdk_wait cluster b d x) = deps x" for b d x
    using assms(2) connected(4) by (simp_all add: sdk_documented_def)
  from connected(5) show ?thesis
  proof (cases rule: main_connected_cases)
    case (no_client e)
    then show ?thesis using optional_client_doc[OF assms(1) no_client(1)] w wait by simp
  next
    case (started client q)
    note doc = optional_client_doc[OF assms(1) started(1)]
    have same: "cms (world p') = cms (world p)" "deps (world p') = deps (world p)"
      using doc started(2) w wait by simp_all
    have "act_k8s (ck_actuators ck) \<Longrightarrow> client \<noteq> None"
      using started(1) by (auto simp: optional_client_def map_sum_Inr_iff split: prod.splits)
    then have api: "act_k8s (lc_acts cfg) \<Longrightarrow> api_documented (en_api lenv) cms deps"
      if "r = RunLoop sv lenv cfg" for sv lenv cfg
      using that started(3) doc by (auto simp: loop_env_of_def loop_config_of_def)
    show ?thesis using same api start_loop_cluster by metis
  qed
qed simp_all

lemma main_connected_observe:
  assumes "\<not> any_actuator (ck_actuators ck)"
  shows "fst (main_connected env fl ck trust cluster p) =
     ServeOnly ((new_service fl ck (prober_of fl cluster) None)\<lparr>sv_first_eval := True\<rparr>)"
  using assms by (simp add: main_connected_def optional_client_def any_actuator_def Let_def)

text \<open>
  C27: Observe-only is harmless. With no actuator, what \<open>main\<close> does and how it ends is the same whatever
  Kubernetes and the webhook client would be, it never reaches the loop, and the process it leaves
  serving is live and ready in every world and at every time, whatever the state of the database.
\<close>

theorem observe_only_is_harmless:
  assumes "parse_actuators (fl_actuators fl) (fl_mode fl) = Inr (no_actuators, d)"
  shows "observer_main (env\<lparr>mn_kube := ke, mn_http := h\<rparr>) fl p = observer_main env fl p \<and>
     (\<nexists>sv lenv cfg. fst (observer_main env fl p) = RunLoop sv lenv cfg) \<and>
     (\<forall>sv now ms w. fst (observer_main env fl p) = ServeOnly sv \<longrightarrow>
        serve_route now sv ms ''/healthz'' w = (Answered 200 [], w) \<and>
        serve_route now sv ms ''/readyz'' w = (Answered 200 [], w))"
proof -
  have none: "\<not> any_actuator (ck_actuators ck)" "\<not> act_k8s (ck_actuators ck)"
    if "check_flags (mn_environ env) (mn_read_file env) (mn_has_certs env) fl p = (Inr ck, p1)" for ck p1
  proof -
    have "ck_actuators ck = no_actuators" using check_flags_ok(1)[OF that] assms by simp
    then show "\<not> any_actuator (ck_actuators ck)" "\<not> act_k8s (ck_actuators ck)"
      by (simp_all add: any_actuator_def no_actuators_def)
  qed
  have same: "main_connected (env\<lparr>mn_kube := ke, mn_http := h\<rparr>) fl ck trust cluster q =
      main_connected env fl ck trust cluster q"
    if "\<not> any_actuator (ck_actuators ck)" for ck trust cluster q
    using that by (simp add: main_connected_def optional_client_def any_actuator_def Let_def)
  have indep: "observer_main (env\<lparr>mn_kube := ke, mn_http := h\<rparr>) fl p = observer_main env fl p"
    using none(1) by (auto simp: observer_main_def same Let_def split: prod.split sum.split)
  obtain r p' where run: "observer_main env fl p = (r, p')" by force
  have ends: "(\<nexists>sv lenv cfg. r = RunLoop sv lenv cfg) \<and>
      (\<forall>sv. r = ServeOnly sv \<longrightarrow> sv_heartbeat sv = None \<and> sv_first_eval sv \<and> \<not> act_k8s (sv_acts sv))"
    using run
  proof (cases rule: observer_main_cases)
    case (connected ck trust cluster p1 p2)
    note n = none[OF connected(1)]
    have "r = ServeOnly ((new_service fl ck (prober_of fl cluster) None)\<lparr>sv_first_eval := True\<rparr>)"
      using main_connected_observe[OF n(1), of env fl trust cluster p2] connected(5) by simp
    then show ?thesis using n by (simp add: new_service_def)
  qed simp_all
  then show ?thesis
    using indep by (simp add: run serve_route_def serve_live_def serve_ready_def liveness_def readiness_def ready_check_def)
qed

text \<open>
  C11: The routes follow the loop. In every state a started observer reaches: \<open>/health/couchbase\<close> answers
  with the report of a fresh probe of the very cluster its role names, 503 exactly when that report is
  \<open>DOWN\<close>; \<open>/healthz\<close> depends on the heartbeat and the clock only, never on the database; and
  \<open>/readyz\<close> answers 200 exactly when an evaluation has completed and, with the Kubernetes actuator,
  its API server answers. No handler panics.
\<close>

theorem routes_follow_loop:
  assumes "observer_main env fl p0 = (RunLoop sv lenv cfg, p)" and "before_loop p0" and "reachable lenv cfg ob"
  shows "(\<exists>g. (if ob_role ob = ''primary'' then g = en_primary lenv else secondary_prober lenv cfg = Some g) \<and>
       (\<forall>ms w. let (prs, w1) = (fst (fst (gocb_probe g w)), snd (gocb_probe g w));
             rep = compute prs (lc_critical cfg) (rfc3339 (fst (mn_now env w1)))
         in fst (serve_route (mn_now env) (service_at sv ob) ms ''/health/couchbase'' w) =
              HealthReport \<lparr>rsp_code = (if rep_status rep = DOWN then 503 else 200),
                rsp_content_type = ''application/json'', rsp_report = rep\<rparr>)) \<and>
     (\<forall>ms w. fst (serve_route (mn_now env) (service_at sv ob) ms ''/healthz'' w) =
        Answered (liveness (Some (ob_heartbeat ob)) (dur_mul 3 (fl_interval fl)) (fst (mn_now env w))) []) \<and>
     (\<forall>ms w. fst (serve_route (mn_now env) (service_at sv ob) ms ''/readyz'' w) = Answered 200 [] \<longleftrightarrow>
        ob_first_eval ob \<and>
        (act_k8s (lc_acts cfg) \<longrightarrow> (\<exists>cs. sv_client sv = Some cs \<and> fst (kc_server_version cs w) = None))) \<and>
     (\<forall>ms w path. fst (serve_route (mn_now env) (service_at sv ob) ms path w) \<noteq> Aborted)"
  using assms(1,2)
proof (rule observer_main_loop)
  fix ck trust cluster client p2
  assume client: "act_k8s (ck_actuators ck) \<longrightarrow> client \<noteq> None"
    and sv: "sv = new_service fl ck (prober_of fl cluster) client"
    and cfg: "cfg = loop_config_of (mn_environ env) fl ck (lc_cm_refs cfg) (lc_dep_refs cfg)"
  have acts: "lc_acts cfg = ck_actuators ck" "lc_critical cfg = critical_of fl"
    by (metis cfg loop_config.select_convs(9) loop_config_of_def) (metis cfg loop_config.select_convs(3) loop_config_of_def)
  obtain g where g: "ap_target (ob_active ob) = Some g"
    "if ob_role ob = ''primary'' then g = en_primary lenv else secondary_prober lenv cfg = Some g"
    using reachable_ok[OF assms(3)] by (auto simp: observer_ok_def)
  have couchbase: "fst (serve_route (mn_now env) (service_at sv ob) ms ''/health/couchbase'' w) =
      HealthReport \<lparr>rsp_code = (if rep_status rep = DOWN then 503 else 200),
        rsp_content_type = ''application/json'', rsp_report = rep\<rparr>"
    if "rep = compute (fst (fst (gocb_probe g w))) (lc_critical cfg) (rfc3339 (fst (mn_now env (snd (gocb_probe g w)))))"
    for ms w rep
  proof -
    obtain prs w1 where pr: "gocb_probe g w = ((prs, None), w1)" using gocb_probe_no_error[of g w] by (metis prod.collapse)
    obtain t w2 where "mn_now env w1 = (t, w2)" by force
    then show ?thesis
      using that pr
      by (simp add: serve_route_def serve_couchbase_def service_at_def g(1) sv new_service_def acts serve_health_def
          active_probe_def new_active_prober_def Let_def)
  qed
  have live: "fst (serve_route (mn_now env) (service_at sv ob) ms ''/healthz'' w) =
      Answered (liveness (Some (ob_heartbeat ob)) (dur_mul 3 (fl_interval fl)) (fst (mn_now env w))) []" for ms w
    by (simp add: serve_route_def serve_live_def service_at_def sv new_service_def liveness_def ticked_def split: prod.split)
  have ready: "fst (serve_route (mn_now env) (service_at sv ob) ms ''/readyz'' w) = Answered 200 [] \<longleftrightarrow>
      ob_first_eval ob \<and> (act_k8s (lc_acts cfg) \<longrightarrow> (\<exists>cs. sv_client sv = Some cs \<and> fst (kc_server_version cs w) = None))"
    "fst (serve_route (mn_now env) (service_at sv ob) ms ''/readyz'' w) \<noteq> Aborted" for ms w
    using client
    by (auto simp: serve_route_def serve_ready_def service_at_def sv new_service_def acts readiness_def ready_check_def
        Let_def split: prod.split option.split)
  have safe: "fst (serve_route (mn_now env) (service_at sv ob) ms path w) \<noteq> Aborted" for ms path w
    using couchbase[OF refl, of ms w] live[of ms w] ready(2)[of ms w]
    by (auto simp: serve_route_def split: if_splits)
  show ?thesis
    unfolding Let_def prod.case
    by (intro conjI exI[of _ g] allI) (rule g(2) live ready(1) safe couchbase[OF refl])+
qed

section \<open>A small deployment\<close>

definition demo_sdk :: "gostring \<Rightarrow> (mem, gostring) sdk_cluster" where
  "demo_sdk conn =
     (let g = demo_prober (if conn = ''main'' then PingTimeout else PingOk)
      in \<lparr>sdk_ping = gp_cluster g, sdk_bucket = \<lambda>b. the (gp_bucket g), sdk_wait = \<lambda>b d w. w\<rparr>)"

definition demo_main_env :: "(unit, unit, unit, mem, gostring) main_env" where
  "demo_main_env =
     \<lparr>mn_environ = [''KUBECONFIG'' \<mapsto> ''/kube''], mn_read_file = \<lambda>path. Inl ''no such file'', mn_has_certs = \<lambda>pem. False,
      mn_connect = \<lambda>conn opts. Inr (demo_sdk conn), mn_kube = demo_kube None, mn_now = \<lambda>w. (0, w), mn_stamp = \<lambda>w. ''t'',
      mn_http = \<lambda>c. en_http demo_env, mn_float = \<lambda>r. ''0''\<rparr>"

definition demo_flags :: "gostring \<Rightarrow> main_flags" where
  "demo_flags acts = default_flags
     \<lparr>fl_actuators := acts, fl_conn := ''main'', fl_failover_delay := 0, fl_secondary := ''dr'', fl_namespace := ''a'',
      fl_configmap := ''cfg'', fl_config_key := ''conn'', fl_deployments := ''api''\<rparr>"

text \<open>
  With the default durations the liveness window is wide enough for the Kubernetes actuator, and too
  tight for the webhook: two probes and three attempts take 16 of 15 seconds.
\<close>

lemma default_windows:
  "window_warning default_flags \<lparr>act_k8s = True, act_webhook = False\<rparr> = None"
  "window_warning default_flags \<lparr>act_k8s = False, act_webhook = True\<rparr> =
     Some (''webhook_window_tight'',
       [(''worst_case'', ADur (16 * second)), (''probe_budget'', ADur (4 * second)),
        (''webhook_budget'', ADur (12 * second)), (''window'', ADur (15 * second))])"
  by code_simp+

lemma demo_main_loop:
  obtains sv lenv cfg p where
    "observer_main demo_main_env (demo_flags ''k8s'') (idle (app_mem ''main'' [] [])) = (RunLoop sv lenv cfg, p)"
    "act_k8s (lc_acts cfg)"
proof -
  let ?r = "observer_main demo_main_env (demo_flags ''k8s'') (idle (app_mem ''main'' [] []))"
  have "case fst ?r of RunLoop sv lenv cfg \<Rightarrow> act_k8s (lc_acts cfg) | _ \<Rightarrow> False" by code_simp
  then show thesis using that by (cases ?r) (auto split: main_outcome.splits)
qed

theorem loop_starts_configured_witness:
  "\<exists>sv lenv cfg p. observer_main demo_main_env (demo_flags ''k8s'') (idle (app_mem ''main'' [] [])) = (RunLoop sv lenv cfg, p) \<and>
     reachable lenv cfg (start_loop lenv cfg p) \<and> lc_cm_refs cfg \<noteq> []"
proof (rule demo_main_loop)
  fix sv lenv cfg p
  assume run: "observer_main demo_main_env (demo_flags ''k8s'') (idle (app_mem ''main'' [] [])) = (RunLoop sv lenv cfg, p)"
    and "act_k8s (lc_acts cfg)"
  then have "reachable lenv cfg (start_loop lenv cfg p) \<and> lc_cm_refs cfg \<noteq> []"
    using loop_starts_configured[OF run before_loop_idle] by simp
  with run show ?thesis by (intro exI[of _ sv] exI[of _ lenv] exI[of _ cfg] exI[of _ p]) simp
qed

lemma demo_main_documented:
  "clients_documented (mn_kube demo_main_env) mem_cms mem_deps" "sdk_documented demo_main_env mem_cms mem_deps"
  by (simp_all add: demo_main_env_def demo_kube_documented sdk_documented_def demo_sdk_def Let_def)

theorem startup_leaves_cluster_witness:
  "mem_cms (world (snd (observer_main demo_main_env (demo_flags ''k8s'') (idle (app_mem ''main'' [] []))))) =
     mem_cms (app_mem ''main'' [] [])"
  using startup_leaves_cluster[OF demo_main_documented surjective_pairing, of "demo_flags ''k8s''" "idle (app_mem ''main'' [] [])"]
  by (simp add: idle_def)

theorem observe_only_is_harmless_witness:
  "\<exists>sv. fst (observer_main demo_main_env (demo_flags []) (idle (app_mem ''main'' [] []))) = ServeOnly sv \<and>
     serve_route (\<lambda>w. (0, w)) sv [] ''/healthz'' (app_mem ''main'' [] []) = (Answered 200 [], app_mem ''main'' [] [])"
proof -
  have parsed: "parse_actuators (fl_actuators (demo_flags [])) (fl_mode (demo_flags [])) = Inr (no_actuators, False)"
    by code_simp
  have "case fst (observer_main demo_main_env (demo_flags []) (idle (app_mem ''main'' [] []))) of ServeOnly sv \<Rightarrow> True | _ \<Rightarrow> False"
    by code_simp
  then obtain sv where "fst (observer_main demo_main_env (demo_flags []) (idle (app_mem ''main'' [] []))) = ServeOnly sv"
    by (auto split: main_outcome.splits)
  then show ?thesis
    using observe_only_is_harmless[where env = demo_main_env, OF parsed, THEN conjunct2, THEN conjunct2, rule_format, THEN conjunct1]
    by (intro exI[of _ sv]) simp
qed

theorem routes_follow_loop_witness:
  "\<exists>sv lenv cfg p. observer_main demo_main_env (demo_flags ''k8s'') (idle (app_mem ''main'' [] [])) = (RunLoop sv lenv cfg, p) \<and>
     fst (serve_route (mn_now demo_main_env) (service_at sv (start_loop lenv cfg p)) [] ''/readyz'' (app_mem ''main'' [] []))
       \<noteq> Aborted"
proof (rule demo_main_loop)
  fix sv lenv cfg p
  assume run: "observer_main demo_main_env (demo_flags ''k8s'') (idle (app_mem ''main'' [] [])) = (RunLoop sv lenv cfg, p)"
  have "reachable lenv cfg (start_loop lenv cfg p)"
    by (rule observer_main_loop[OF run before_loop_idle]) (rule reachable.start)
  then show ?thesis using run routes_follow_loop[OF run before_loop_idle] by blast
qed

end
