(* ===== verification/Json_Print.thy ===== *)
theory Json_Print
  imports Webhook_Notify Probers
begin

text \<open>
  The JSON the program writes is the JSON it would read: the compact text of a document
  (\<open>print_json\<close>) parses back to it, and the body of the webhook (\<open>encode_event\<close> of \<open>Webhook_Notify\<close>) and
  of the health endpoint (\<open>encode_report\<close>) are such texts.
\<close>

section \<open>Printing\<close>

lemma size_snd_member: "kv \<in> set kvs \<Longrightarrow> size (snd kv) < Suc (size_list (size_prod (\<lambda>_. 0) size) kvs)"
  by (induction kvs) (auto split: prod.splits)

function print_json :: "json \<Rightarrow> gostring" where
  "print_json JNull = ''null''"
| "print_json (JBool b) = show_bool b"
| "print_json (JNum n) = n"
| "print_json (JStr s) = json_string s"
| "print_json (JArr vs) = ''['' @ join '','' (map print_json vs) @ '']''"
| "print_json (JObj kvs) = json_object (map (\<lambda>kv. json_member (fst kv) (print_json (snd kv))) kvs)"
  by pat_completeness auto
termination
  by (relation "measure size") (auto dest: size_snd_member simp: less_Suc_eq_le size_list_estimation')

text \<open>The tokens of a document, and what a document needs to print as one: depth at most \<open>n\<close>.\<close>

fun commas :: "json_token list list \<Rightarrow> json_token list" where
  "commas [] = []"
| "commas [ts] = ts"
| "commas (ts # us # tss) = ts @ Comma # commas (us # tss)"

function json_tokens :: "json \<Rightarrow> json_token list" where
  "json_tokens JNull = [Scalar JNull]"
| "json_tokens (JBool b) = [Scalar (JBool b)]"
| "json_tokens (JNum n) = [Scalar (JNum n)]"
| "json_tokens (JStr s) = [Scalar (JStr s)]"
| "json_tokens (JArr vs) = LBracket # commas (map json_tokens vs) @ [RBracket]"
| "json_tokens (JObj kvs) =
     LBrace # commas (map (\<lambda>kv. [Scalar (JStr (fst kv)), Colon] @ json_tokens (snd kv)) kvs) @ [RBrace]"
  by pat_completeness auto
termination
  by (relation "measure size") (auto dest: size_snd_member simp: less_Suc_eq_le size_list_estimation')

definition number_ok :: "gostring \<Rightarrow> bool" where
  "number_ok s \<longleftrightarrow> json_number s \<and> list_all number_char s"

function json_ok :: "nat \<Rightarrow> json \<Rightarrow> bool" where
  "json_ok n JNull = True"
| "json_ok n (JBool b) = True"
| "json_ok n (JNum s) = number_ok s"
| "json_ok n (JStr s) = valid_utf8 s"
| "json_ok n (JArr vs) = (0 < n \<and> list_all (json_ok (n - 1)) vs)"
| "json_ok n (JObj kvs) = (0 < n \<and> list_all (\<lambda>kv. valid_utf8 (fst kv) \<and> json_ok (n - 1) (snd kv)) kvs)"
  by pat_completeness auto
termination
  by (relation "measure (size \<circ> snd)") (auto dest: size_snd_member simp: less_Suc_eq_le size_list_estimation')

section \<open>The lexer reads the tokens\<close>

definition delimited :: "gostring \<Rightarrow> bool" where
  "delimited s \<longleftrightarrow> s = [] \<or> \<not> number_char (hd s)"

lemma delimited_simps [simp]:
  "delimited []" "delimited (CHR '','' # s)" "delimited (CHR '']'' # s)" "delimited (CHR ''}'' # s)"
  by (simp_all add: delimited_def number_char_def is_digit_def less_eq_char_def)

lemma json_number_head:
  assumes "json_number n"
  obtains c t where "n = c # t" "is_digit c \<or> c = CHR ''-''"
proof (cases n)
  case Nil
  then show ?thesis using assms json_number_Nil by simp
next
  case (Cons c t)
  show ?thesis
  proof (cases "c = CHR ''-''")
    case False
    then have "takeWhile is_digit n \<noteq> []" using assms Cons by (simp add: json_number_def Let_def)
    then show ?thesis using Cons that by (auto split: if_splits)
  qed (use Cons that in auto)
qed

lemma number_head_plain:
  assumes "is_digit c \<or> c = CHR ''-''"
  shows "punctuation c = None \<and> c \<noteq> CHR 0x22 \<and> \<not> json_space c \<and>
     c \<noteq> CHR ''t'' \<and> c \<noteq> CHR ''f'' \<and> c \<noteq> CHR ''n''"
proof -
  let ?others = "[CHR 0x22, CHR 0x20, CHR 0x09, CHR 0x0A, CHR 0x0D] @ ''{}[]:,tfn''"
  have "list_all (\<lambda>x. \<not> (is_digit x \<or> x = CHR ''-'')) ?others" by code_simp
  then have "c \<notin> set ?others" using assms unfolding list_all_iff by blast
  then show ?thesis by (simp add: punctuation_def json_space_def)
qed

lemma lex_json_number:
  assumes "number_ok n" "delimited s"
  shows "lex_json (n @ s) = cons_token (Scalar (JNum n)) (lex_json s)"
proof -
  obtain c t where n: "n = c # t" "is_digit c \<or> c = CHR ''-''"
    using assms(1) json_number_head by (metis number_ok_def)
  note plain = number_head_plain[OF n(2)]
  have chars: "\<forall>x \<in> set n. number_char x" using assms(1) by (simp add: number_ok_def list_all_iff)
  have "takeWhile number_char (n @ s) = n" "dropWhile number_char (n @ s) = s"
    using chars assms(2) by (cases s; simp add: delimited_def takeWhile_append2 dropWhile_append2)+
  then have "lex_one (n @ s) = Some (Scalar (JNum n), s)"
    using assms(1) plain n(1) by (auto simp: lex_one_def Let_def number_ok_def)
  then show ?thesis
    using plain n(1) by (subst lex_json.simps) (simp add: cons_token_def)
qed

lemma lex_json_words:
  "lex_json (''null'' @ s) = cons_token (Scalar JNull) (lex_json s)"
  "lex_json (show_bool b @ s) = cons_token (Scalar (JBool b)) (lex_json s)"
  by (subst lex_json.simps; simp add: lex_one_def punctuation_def json_space_def cons_token_def show_bool_def)+

definition reads_as :: "gostring \<Rightarrow> json_token list \<Rightarrow> bool" where
  "reads_as x ts \<longleftrightarrow> (\<forall>s. delimited s \<longrightarrow> lex_json (x @ s) = map_option ((@) ts) (lex_json s))"

lemma cons_token_append: "cons_token k (map_option ((@) ts) r) = map_option ((@) (k # ts)) r"
  by (cases r) (simp_all add: cons_token_def)

lemma cons_token_None [simp]: "cons_token k None = None"
  by (simp add: cons_token_def)

lemma cons_token_single: "cons_token k r = map_option ((@) [k]) r"
  by (cases r) simp_all

lemma map_option_Nil [simp]: "map_option ((@) []) r = r"
  by (cases r) simp_all

lemma map_option_append: "map_option ((@) ts) (map_option ((@) us) r) = map_option ((@) (ts @ us)) r"
  by (cases r) simp_all

lemma reads_as_join:
  "\<forall>x \<in> set xs. reads_as (f x) (g x) \<Longrightarrow> reads_as (join '','' (map f xs)) (commas (map g xs))"
proof (induction xs rule: induct_list012)
  case (3 x y zs)
  then have IH: "reads_as (join '','' (map f (y # zs))) (commas (map g (y # zs)))" by simp
  show ?case
    unfolding reads_as_def
  proof (intro allI impI)
    fix s assume d: "delimited s"
    have "lex_json (f x @ '','' @ join '','' (map f (y # zs)) @ s) =
        map_option ((@) (g x)) (lex_json ('','' @ join '','' (map f (y # zs)) @ s))"
      using 3(3) by (simp add: reads_as_def)
    also have "lex_json ('','' @ join '','' (map f (y # zs)) @ s) =
        map_option ((@) (Comma # commas (map g (y # zs)))) (lex_json s)"
      using IH d by (simp add: lex_json_pieces punctuation_def reads_as_def cons_token_append del: list.map)
    finally show "lex_json (join '','' (map f (x # y # zs)) @ s) =
        map_option ((@) (commas (map g (x # y # zs)))) (lex_json s)"
      by (simp add: map_option_append)
  qed
qed (simp_all add: reads_as_def)

lemma reads_as_wrapped:
  assumes "reads_as x ts" "punctuation a = Some k" "punctuation b = Some l" "\<not> number_char b"
  shows "reads_as (a # x @ [b]) (k # ts @ [l])"
  unfolding reads_as_def
proof (intro allI impI)
  fix s
  have "lex_json (x @ b # s) = map_option ((@) ts) (lex_json (b # s))"
    using assms(1,4) by (simp add: reads_as_def delimited_def)
  then show "lex_json ((a # x @ [b]) @ s) = map_option ((@) (k # ts @ [l])) (lex_json s)"
    by (cases "lex_json s") (simp_all add: lex_json_punctuation[OF assms(2)] lex_json_punctuation[OF assms(3)])
qed

lemma reads_as_print: "json_ok n v \<Longrightarrow> reads_as (print_json v) (json_tokens v)"
proof (induction n v rule: json_ok.induct)
  case (5 n vs)
  have "reads_as (join '','' (map print_json vs)) (commas (map json_tokens vs))"
    by (rule reads_as_join) (use 5 in \<open>auto simp: list_all_iff\<close>)
  then show ?case
    using reads_as_wrapped[of _ _ "CHR ''[''" LBracket "CHR '']''" RBracket]
    by (simp add: punctuation_def number_char_def is_digit_def less_eq_char_def)
next
  case (6 n kvs)
  let ?f = "\<lambda>kv. json_member (fst kv) (print_json (snd kv))"
  let ?g = "\<lambda>kv. [Scalar (JStr (fst kv)), Colon] @ json_tokens (snd kv)"
  have "reads_as (join '','' (map ?f kvs)) (commas (map ?g kvs))"
  proof (rule reads_as_join, rule ballI)
    fix kv assume kv: "kv \<in> set kvs"
    with 6 have "reads_as (print_json (snd kv)) (json_tokens (snd kv))" "valid_utf8 (fst kv)"
      by (auto simp: list_all_iff)
    then show "reads_as (?f kv) (?g kv)"
      by (simp add: reads_as_def json_member_def lex_json_pieces punctuation_def cons_token_append)
  qed
  then show ?case
    using reads_as_wrapped[of _ _ "CHR ''{''" LBrace "CHR ''}''" RBrace]
    by (simp add: json_object_def punctuation_def number_char_def is_digit_def less_eq_char_def)
next
  case (1 n)
  then show ?case using lex_json_words(1) by (simp add: reads_as_def cons_token_single)
qed (simp_all add: reads_as_def lex_json_words lex_json_number lex_json_string cons_token_single)

section \<open>The parser builds the document\<close>

text \<open>A value is expected, in or out of an array that may be empty.\<close>

definition builds :: "json \<Rightarrow> nat \<Rightarrow> bool" where
  "builds v n \<longleftrightarrow>
     (\<forall>st ks. n + length st \<le> max_depth \<longrightarrow>
        json_run (json_tokens v @ ks) (NeedValue, st) = json_run ks (Have v, st) \<and>
        (\<forall>us st'. st = InArr us # st' \<longrightarrow>
           json_run (json_tokens v @ ks) (NeedValueOrEnd, st) = json_run ks (Have v, st)))"

lemma buildsD:
  "builds v n \<Longrightarrow> n + length st \<le> max_depth \<Longrightarrow>
     json_run (json_tokens v @ ks) (NeedValue, st) = json_run ks (Have v, st)"
  "builds v n \<Longrightarrow> n + Suc (length st) \<le> max_depth \<Longrightarrow>
     json_run (json_tokens v @ ks) (NeedValueOrEnd, InArr us # st) = json_run ks (Have v, InArr us # st)"
  unfolding builds_def by (blast, drule spec[of _ "InArr us # st"], drule spec[of _ ks]) auto

lemma run_elements:
  assumes "\<forall>v \<in> set (v # vs). builds v n" "n + Suc (length st) \<le> max_depth" "c \<in> {NeedValue, NeedValueOrEnd}"
  shows "json_run (commas (map json_tokens (v # vs)) @ RBracket # ks) (c, InArr us # st) =
     json_run ks (Have (JArr (us @ v # vs)), st)"
  using assms
proof (induction vs arbitrary: v us c)
  case Nil
  then show ?case using buildsD[of v n] by auto
next
  case (Cons w ws)
  have first: "json_run (json_tokens v @ ts) (c, InArr us # st) = json_run ts (Have v, InArr us # st)" for ts
    using Cons.prems buildsD[of v n] by auto
  show ?case
    using Cons.IH[of w NeedValue "us @ [v]"] Cons.prems by (simp add: first del: json_tokens.simps)
qed

lemma run_members:
  assumes "\<forall>kv \<in> set (kv # kvs). builds (snd kv) n" "n + Suc (length st) \<le> max_depth"
    and "c = NeedKey ps \<or> c = NeedKeyOrEnd \<and> ps = []"
  shows "json_run (commas (map (\<lambda>kv. [Scalar (JStr (fst kv)), Colon] @ json_tokens (snd kv)) (kv # kvs)) @ RBrace # ks) (c, st) =
     json_run ks (Have (JObj (ps @ kv # kvs)), st)"
  using assms
proof (induction kvs arbitrary: kv ps c)
  case Nil
  then show ?case using buildsD(1)[of "snd kv" n] by auto
next
  case (Cons w ws)
  have first: "json_run (json_tokens (snd kv) @ ts) (NeedValue, InObj ps (fst kv) # st) =
      json_run ts (Have (snd kv), InObj ps (fst kv) # st)" for ts
    using Cons.prems buildsD(1)[of "snd kv" n] by auto
  have key: "json_step (Scalar (JStr (fst kv))) (c, st) = Some (NeedColon ps (fst kv), st)"
    using Cons.prems(3) by auto
  show ?case
    using Cons.IH[of w "NeedKey (ps @ [kv])" "ps @ [kv]"] Cons.prems(1,2)
    by (simp add: first key del: json_tokens.simps)
qed

lemma builds_print: "json_ok n v \<Longrightarrow> builds v n"
proof (induction n v rule: json_ok.induct)
  case (5 n vs)
  have vs: "\<forall>v \<in> set vs. builds v (n - 1)" using 5 by (auto simp: list_all_iff)
  have n: "0 < n" using 5 by simp
  show ?case
    unfolding builds_def
  proof (intro allI impI conjI)
    fix st :: "json_frame list" and ks assume d: "n + length st \<le> max_depth"
    have run: "json_run (commas (map json_tokens vs) @ RBracket # ks) (NeedValueOrEnd, InArr [] # st) =
        json_run ks (Have (JArr vs), st)"
      using vs n d run_elements[of _ _ "n - 1" st NeedValueOrEnd ks "[]"] by (cases vs) auto
    show "json_run (json_tokens (JArr vs) @ ks) (NeedValue, st) = json_run ks (Have (JArr vs), st)"
      using run n d by simp
    show "json_run (json_tokens (JArr vs) @ ks) (NeedValueOrEnd, st) = json_run ks (Have (JArr vs), st)"
      if "st = InArr us # st'" for us st'
      using run n d that by simp
  qed
next
  case (6 n kvs)
  have kvs: "\<forall>kv \<in> set kvs. builds (snd kv) (n - 1)" using 6 by (auto simp: list_all_iff)
  have n: "0 < n" using 6 by simp
  show ?case
    unfolding builds_def
  proof (intro allI impI conjI)
    fix st :: "json_frame list" and ks assume d: "n + length st \<le> max_depth"
    have run: "json_run (commas (map (\<lambda>kv. [Scalar (JStr (fst kv)), Colon] @ json_tokens (snd kv)) kvs) @ RBrace # ks)
        (NeedKeyOrEnd, st) = json_run ks (Have (JObj kvs), st)"
      using kvs n d run_members[of _ _ "n - 1" st NeedKeyOrEnd "[]" ks] by (cases kvs) auto
    show "json_run (json_tokens (JObj kvs) @ ks) (NeedValue, st) = json_run ks (Have (JObj kvs), st)"
      using run n d by simp
    show "json_run (json_tokens (JObj kvs) @ ks) (NeedValueOrEnd, st) = json_run ks (Have (JObj kvs), st)"
      if "st = InArr us # st'" for us st'
      using run n d that by simp
  qed
qed (simp_all add: builds_def)

lemma parse_json_print:
  assumes "json_ok max_depth v"
  shows "parse_json (print_json v) = Some v" "parse_json (print_json v @ [CHR 0x0A]) = Some v"
proof -
  have tokens: "lex_json (print_json v @ s) = map_option ((@) (json_tokens v)) (lex_json s)" if "delimited s" for s
    using reads_as_print[OF assms] that by (simp add: reads_as_def)
  have "delimited [CHR 0x0A]" by (simp add: delimited_def number_char_def is_digit_def)
  moreover have "lex_json [CHR 0x0A] = Some []" by (subst lex_json.simps) (simp add: json_space_def)
  moreover have "json_run (json_tokens v) (NeedValue, []) = Some (Have v, [])"
    using buildsD(1)[OF builds_print[OF assms], of "[]" "[]"] by simp
  ultimately show "parse_json (print_json v) = Some v" "parse_json (print_json v @ [CHR 0x0A]) = Some v"
    using tokens[of "[]"] tokens[of "[CHR 0x0A]"] by (simp_all add: parse_json_def)
qed

section \<open>Numbers\<close>

lemma digit_char_digit: "n < 10 \<Longrightarrow> is_digit (digit_char n)" "n < 10 \<Longrightarrow> digit_char n = CHR ''0'' \<longleftrightarrow> n = 0"
proof -
  have "list_all (\<lambda>n. is_digit (digit_char n) \<and> (digit_char n = CHR ''0'' \<longleftrightarrow> n = 0)) [0..<10]" by code_simp
  then show "n < 10 \<Longrightarrow> is_digit (digit_char n)" "n < 10 \<Longrightarrow> digit_char n = CHR ''0'' \<longleftrightarrow> n = 0"
    by (simp_all add: list_all_iff)
qed

lemma show_nat_digits:
  "(\<forall>c \<in> set (show_nat n). is_digit c) \<and> show_nat n \<noteq> [] \<and> (hd (show_nat n) = CHR ''0'' \<longrightarrow> length (show_nat n) = 1)"
proof -
  have "(\<forall>c \<in> set (show_nat n). is_digit c) \<and> show_nat n \<noteq> [] \<and>
      (n < 10 \<longrightarrow> length (show_nat n) = 1) \<and> (hd (show_nat n) = CHR ''0'' \<longrightarrow> n = 0)"
  proof (induction n rule: show_nat.induct)
    case (1 n)
    then show ?case
      by (cases "n < 10") (auto simp: show_nat.simps[of n] digit_char_digit)
  qed
  then show ?thesis by auto
qed

lemma plain_number: "\<forall>c \<in> set s. is_digit c \<Longrightarrow> takeWhile is_digit s = s \<and> dropWhile is_digit s = []"
  by simp

lemma json_number_digits:
  assumes "\<forall>c \<in> set s. is_digit c" "s \<noteq> []" "hd s = CHR ''0'' \<longrightarrow> length s = 1"
  shows "json_number s" "json_number (CHR ''-'' # s)"
proof -
  have zero: "digits_only ''0''" by (simp add: digits_only_def is_digit_def less_eq_char_def)
  have no_sign: "take 1 s \<noteq> ''-''" using assms(1,2) by (cases s) (auto simp: is_digit_def less_eq_char_def)
  show "json_number s" "json_number (CHR ''-'' # s)"
    using assms no_sign zero by (simp_all add: json_number_def Let_def plain_number)
qed

lemma number_ok_show: "number_ok (show_nat n)" "number_ok (show_int i)"
proof -
  have chars: "list_all number_char (show_nat n)" for n
    using show_nat_digits[of n] by (auto simp: list_all_iff number_char_def)
  have nums: "json_number (show_nat n)" "json_number (CHR ''-'' # show_nat n)" for n
    using json_number_digits[of "show_nat n"] show_nat_digits[of n] by auto
  show "number_ok (show_nat n)" by (simp add: number_ok_def chars nums)
  show "number_ok (show_int i)" by (simp add: number_ok_def show_int_def chars nums number_char_def)
qed

section \<open>The health report\<close>

definition strings_json :: "gostring list \<Rightarrow> json" where
  "strings_json xs = (if xs = [] then JNull else JArr (map JStr xs))"

definition encode_health :: "service_health \<Rightarrow> gostring" where
  "encode_health sh = json_object
     [json_member ''status'' (json_string (sh_status sh)), json_member ''reachable'' (show_nat (sh_reachable sh)),
      json_member ''unreachable'' (json_strings (sh_unreachable sh))]"

text \<open>The services are a Go map: the encoder writes it in key order, which is the order they are kept in.\<close>

definition encode_report :: "report \<Rightarrow> gostring" where
  "encode_report rep = json_object
     [json_member ''status'' (json_string (rep_status rep)), json_member ''critical'' (json_strings (rep_critical rep)),
      json_member ''services'' (json_object (map (\<lambda>kv. json_member (fst kv) (encode_health (snd kv))) (rep_services rep))),
      json_member ''reason'' (json_string (rep_reason rep)), json_member ''checkedAt'' (json_string (rep_checked_at rep))]"

text \<open>What \<open>ServeHTTP\<close> writes after the status: the report and a newline.\<close>

definition health_body :: "response \<Rightarrow> gostring" where
  "health_body rsp = encode_report (rsp_report rsp) @ [CHR 0x0A]"

definition health_json :: "service_health \<Rightarrow> json" where
  "health_json sh = JObj
     [(''status'', JStr (sh_status sh)), (''reachable'', JNum (show_nat (sh_reachable sh))),
      (''unreachable'', strings_json (sh_unreachable sh))]"

definition report_json :: "report \<Rightarrow> json" where
  "report_json rep = JObj
     [(''status'', JStr (rep_status rep)), (''critical'', strings_json (rep_critical rep)),
      (''services'', JObj (map (\<lambda>kv. (fst kv, health_json (snd kv))) (rep_services rep))),
      (''reason'', JStr (rep_reason rep)), (''checkedAt'', JStr (rep_checked_at rep))]"

lemma print_strings_json [simp]: "print_json (strings_json xs) = json_strings xs"
  by (simp add: strings_json_def json_strings_def comp_def)

lemma print_report_json: "print_json (report_json rep) = encode_report rep"
  by (simp add: report_json_def encode_report_def health_json_def encode_health_def comp_def)

section \<open>The payload of the webhook\<close>

definition omit_empty_json :: "gostring \<Rightarrow> gostring list \<Rightarrow> (gostring \<times> json) list" where
  "omit_empty_json k xs = (if xs = [] then [] else [(k, strings_json xs)])"

definition endpoint_json :: "endpoint \<Rightarrow> json" where
  "endpoint_json ep = JObj
     ([(''role'', JStr (ep_role ep)), (''conn'', JStr (ep_conn ep)), (''label'', JStr (ep_label ep))] @
      omit_empty_json ''nodes'' (ep_nodes ep) @
      (if ep_status ep = [] then [] else [(''status'', JStr (ep_status ep))]))"

definition event_json :: "(rat \<Rightarrow> gostring) \<Rightarrow> event \<Rightarrow> json" where
  "event_json sf e = JObj
     ([(''event'', JStr (ev_event e)), (''sent_at'', JStr (ev_sent_at e)), (''attempt'', JNum (show_int (ev_attempt e))),
       (''reason'', JStr (ev_reason e)), (''sustained_down_s'', JNum (sf (ev_sustained_down_s e))),
       (''from'', endpoint_json (ev_from e)), (''to'', endpoint_json (ev_to e))] @
      omit_empty_json ''configmaps'' (ev_configmaps e) @ omit_empty_json ''deployments'' (ev_deployments e) @
      [(''actuators'', strings_json (ev_actuators e)), (''dry_run'', JBool (ev_dry_run e))])"

lemma print_omit_empty [simp]:
  "map (\<lambda>kv. json_member (fst kv) (print_json (snd kv))) (omit_empty_json k xs) = omit_empty k xs"
  by (simp add: omit_empty_json_def omit_empty_def)

lemma print_endpoint_json [simp]: "print_json (endpoint_json ep) = encode_endpoint ep"
  by (simp add: endpoint_json_def encode_endpoint_def)

lemma print_event_json: "print_json (event_json sf e) = encode_event sf e"
  by (simp add: event_json_def encode_event_def)

text \<open>The texts a document carries.\<close>

definition endpoint_texts :: "endpoint \<Rightarrow> gostring list" where
  "endpoint_texts ep = [ep_role ep, ep_conn ep, ep_label ep, ep_status ep] @ ep_nodes ep"

definition event_texts :: "event \<Rightarrow> gostring list" where
  "event_texts e = [ev_event e, ev_sent_at e, ev_reason e] @ endpoint_texts (ev_from e) @ endpoint_texts (ev_to e) @
     ev_configmaps e @ ev_deployments e @ ev_actuators e"

definition report_texts :: "report \<Rightarrow> gostring list" where
  "report_texts rep = [rep_status rep, rep_reason rep, rep_checked_at rep] @ rep_critical rep @
     concat (map (\<lambda>kv. fst kv # sh_status (snd kv) # sh_unreachable (snd kv)) (rep_services rep))"

lemma utf8_keys [simp]:
  "valid_utf8 ''event''" "valid_utf8 ''sent_at''" "valid_utf8 ''attempt''" "valid_utf8 ''reason''"
  "valid_utf8 ''sustained_down_s''" "valid_utf8 ''from''" "valid_utf8 ''to''" "valid_utf8 ''configmaps''"
  "valid_utf8 ''deployments''" "valid_utf8 ''actuators''" "valid_utf8 ''dry_run''" "valid_utf8 ''role''"
  "valid_utf8 ''conn''" "valid_utf8 ''label''" "valid_utf8 ''nodes''" "valid_utf8 ''status''" "valid_utf8 ''critical''"
  "valid_utf8 ''services''" "valid_utf8 ''checkedAt''" "valid_utf8 ''reachable''" "valid_utf8 ''unreachable''"
  by (rule valid_utf8_ascii; simp)+

lemma json_ok_strings: "1 \<le> n \<Longrightarrow> list_all valid_utf8 xs \<Longrightarrow> json_ok n (strings_json xs)"
  by (auto simp: strings_json_def list_all_iff)

lemma omit_empty_ok:
  "valid_utf8 k \<Longrightarrow> 1 \<le> n \<Longrightarrow> list_all valid_utf8 xs \<Longrightarrow>
     list_all (\<lambda>kv. valid_utf8 (fst kv) \<and> json_ok n (snd kv)) (omit_empty_json k xs)"
  by (simp add: omit_empty_json_def json_ok_strings)

lemma json_ok_endpoint: "2 \<le> n \<Longrightarrow> list_all valid_utf8 (endpoint_texts ep) \<Longrightarrow> json_ok n (endpoint_json ep)"
  by (simp add: endpoint_json_def endpoint_texts_def omit_empty_ok)

lemma max_depth_minus [simp]: "4 \<le> max_depth" "0 < max_depth" "Suc 0 < max_depth" "2 \<le> max_depth - Suc 0" "Suc 0 \<le> max_depth - Suc 0"
  by (simp_all add: max_depth_def)

text \<open>
  C29: The body of the webhook says what happened. The request body is a JSON document that reads back as
  exactly the event: every field under its key and in its order, absent only where it may be omitted,
  whatever characters its texts hold.
\<close>

theorem webhook_body_roundtrip:
  assumes "list_all valid_utf8 (event_texts e)" and "number_ok (sf (ev_sustained_down_s e))"
  shows "parse_json (encode_event sf e) = Some (event_json sf e)"
proof -
  have "json_ok max_depth (event_json sf e)"
    using assms
    by (simp add: event_json_def event_texts_def number_ok_show omit_empty_ok json_ok_endpoint json_ok_strings)
  from parse_json_print(1)[OF this] show ?thesis unfolding print_event_json .
qed

text \<open>
  C30: The body of the health endpoint says what was computed. It is a JSON document that reads back as
  exactly the report, every service with its status, its count and its failing hosts, in key order.
\<close>

theorem health_body_roundtrip:
  assumes "list_all valid_utf8 (report_texts (rsp_report rsp))"
  shows "parse_json (health_body rsp) = Some (report_json (rsp_report rsp))"
proof -
  define rep where "rep = rsp_report rsp"
  note assms = assms[folded rep_def]
  have "json_ok (max_depth - Suc (Suc 0)) (health_json (snd kv)) \<and> valid_utf8 (fst kv)" if "kv \<in> set (rep_services rep)" for kv
  proof -
    have "set (fst kv # sh_status (snd kv) # sh_unreachable (snd kv)) \<subseteq> set (report_texts rep)"
      using that by (force simp: report_texts_def)
    then have texts: "\<forall>x \<in> set (fst kv # sh_status (snd kv) # sh_unreachable (snd kv)). valid_utf8 x"
      using assms unfolding list_all_iff by blast
    then have "json_ok n (strings_json (sh_unreachable (snd kv)))" if "1 \<le> n" for n
      using that by (intro json_ok_strings) (simp_all add: list_all_iff)
    then show ?thesis using texts by (simp add: health_json_def number_ok_show max_depth_def)
  qed
  then have "json_ok max_depth (report_json rep)"
    using assms by (auto simp: report_json_def report_texts_def json_ok_strings list_all_iff)
  from parse_json_print(2)[OF this] show ?thesis
    unfolding print_report_json by (simp add: health_body_def rep_def)
qed

theorem webhook_body_roundtrip_witness:
  "parse_json (encode_event zero_text sample_event) = Some (event_json zero_text sample_event)"
proof (rule webhook_body_roundtrip)
  show "list_all valid_utf8 (event_texts sample_event)" by code_simp
  show "number_ok (zero_text (ev_sustained_down_s sample_event))" by code_simp
qed

definition sample_response :: response where
  "sample_response = fst (serve_health
     (\<lambda>w. (([\<lparr>pr_service = ''kv'', pr_host = ''n1'', pr_ok = False\<rparr>, \<lparr>pr_service = ''query'', pr_host = ''n2'', pr_ok = True\<rparr>],
             None :: unit option), w)) [''kv''] (\<lambda>w. (''2025-01-01T00:00:00Z'', w)) ())"

theorem health_body_roundtrip_witness:
  "parse_json (health_body sample_response) = Some (report_json (rsp_report sample_response))"
proof (rule health_body_roundtrip)
  show "list_all valid_utf8 (report_texts (rsp_report sample_response))" by code_simp
qed

end
